theory Spec2Isabelle
  imports Main "HOL-Library.Sublist"
begin

section \<open>Ticket intake: the TicketSender class of sender.js\<close>

text \<open>
  The development embeds the class \<^verbatim>\<open>TicketSender\<close> of \<^verbatim>\<open>sender.js\<close>: the handlers
  \<^verbatim>\<open>handleChannelCreation\<close>, \<^verbatim>\<open>waitForFirstMessage\<close>, \<^verbatim>\<open>extractUserTag\<close>,
  \<^verbatim>\<open>handleUserMessage\<close> and \<^verbatim>\<open>closeTicket\<close>.

  Every handler is an \<^verbatim>\<open>async\<close> function. JavaScript runs such a function without
  interruption up to its next \<^verbatim>\<open>await\<close> of a platform operation, and resumes it in a
  later turn of the event loop, after other events may have been handled. Each handler is
  therefore split at its \<^verbatim>\<open>await\<close>s into segments; a segment is a function from state to
  state, and the work a suspended handler still has to do is kept in the state as a pending
  task holding the variables its closure captured.

  The platform is the environment. A call of \<^verbatim>\<open>channel.send\<close> is recorded when it is
  made; whether it is delivered or rejected arrives later as an event, and so do the
  result of a fetch and the running out of a timeout. The order and the times of events
  are not constrained, except that the timeout of a closure does not run before its delay
  has elapsed, by the clock that \<^verbatim>\<open>Date\<close> reads. A segment reads the clock once. A log line is recorded with its
  level and its message text, without the context object printed after it.
\<close>

subsection \<open>Platform data\<close>

text \<open>
  A message as the handlers read it: \<^verbatim>\<open>message.id\<close>, \<^verbatim>\<open>message.channel.id\<close>,
  \<^verbatim>\<open>message.author.id\<close>, \<^verbatim>\<open>message.author.bot\<close>, \<^verbatim>\<open>message.content\<close>,
  \<^verbatim>\<open>message.attachments\<close> and the ids of \<^verbatim>\<open>message.mentions.users\<close> in order.
  \<open>None\<close> for the content or the attachments is JavaScript's \<^verbatim>\<open>undefined\<close>: reading
  \<^verbatim>\<open>.length\<close>, \<^verbatim>\<open>.match\<close> or \<^verbatim>\<open>.size\<close> of it raises a TypeError. An attachment's
  \<^verbatim>\<open>contentType\<close> may be \<^verbatim>\<open>null\<close>, which the source tests for.
\<close>

record author =
  author_id :: string
  bot :: bool

record attachment =
  attachment_id :: string
  attachment_name :: string
  contentType :: "string option"
  attachment_size :: nat

record message =
  message_id :: string
  message_channel_id :: string
  message_author :: author
  content :: "string option"
  attachments :: "attachment list option"
  mentions_users :: "string list"

record channel =
  channel_id :: string
  channel_name :: string
  parentId :: "string option"

subsection \<open>Evidence detection\<close>

text \<open>
  The character class \<^verbatim>\<open>[a-fA-F0-9]\<close> and the regular expression
  \<^verbatim>\<open>/0x[a-fA-F0-9]{40}/g\<close>. \<open>matchHere\<close> says that the expression matches at the start
  of the string; \<open>evmAddressRegex\<close> is \<^verbatim>\<open>String.prototype.match\<close> with that global
  expression: all matches from left to right, the search resuming behind each match, and
  \<^verbatim>\<open>null\<close> when there is none.
\<close>

definition hexChar :: "char \<Rightarrow> bool" where
  "hexChar c = (c \<in> set ''abcdefABCDEF0123456789'')"

definition matchHere :: "string \<Rightarrow> bool" where
  "matchHere s = (take 2 s = ''0x'' \<and> 42 \<le> length s \<and> list_all hexChar (take 40 (drop 2 s)))"

fun matchAll :: "string \<Rightarrow> string list" where
  "matchAll [] = []"
| "matchAll (c # cs) =
     (if matchHere (c # cs) then take 42 (c # cs) # matchAll (drop 41 cs)
      else matchAll cs)"

definition evmAddressRegex :: "string \<Rightarrow> string list option" where
  "evmAddressRegex s = (case matchAll s of [] \<Rightarrow> None | m # ms \<Rightarrow> Some (m # ms))"

text \<open>
  \<^verbatim>\<open>evmMatches && evmMatches.length > 0\<close>, the value given to \<^verbatim>\<open>hasNewEvmAddress\<close>.
\<close>

definition hasNewEvmAddress :: "string \<Rightarrow> bool" where
  "hasNewEvmAddress txt =
     (case evmAddressRegex txt of None \<Rightarrow> False | Some evmMatches \<Rightarrow> 0 < length evmMatches)"

text \<open>
  \<^verbatim>\<open>attachment.contentType && attachment.contentType.startsWith('image/')\<close>: a
  \<^verbatim>\<open>null\<close> or empty content type is falsy.
\<close>

definition isImage :: "attachment \<Rightarrow> bool" where
  "isImage a =
     (case contentType a of None \<Rightarrow> False | Some ct \<Rightarrow> ct \<noteq> [] \<and> prefix ''image/'' ct)"

text \<open>
  The \<^verbatim>\<open>forEach\<close> over the attachments, entered only when
  \<^verbatim>\<open>message.attachments.size > 0\<close>: \<^verbatim>\<open>hasNewImage\<close> becomes true at the first image
  attachment and is never reset.
\<close>

definition hasNewImage :: "attachment list \<Rightarrow> bool" where
  "hasNewImage atts = (0 < length atts \<and> fold (\<lambda>a found. if isImage a then True else found) atts False)"

subsection \<open>Tickets, statistics and the log\<close>

text \<open>
  The object \<^verbatim>\<open>ticketData\<close>, with the two fields \<^verbatim>\<open>handleUserMessage\<close> adds on
  completion. Times are \<^verbatim>\<open>Date\<close> values in milliseconds.
\<close>

record ticket =
  channelId :: string
  userTag :: string
  createdAt :: int
  awaitingResponse :: bool
  hasEvmAddress :: bool
  hasImage :: bool
  initialMessageId :: string
  completedAt :: "int option"
  formMessageId :: "string option"

record statistics =
  ticketsCreated :: nat
  ticketsCompleted :: nat
  ticketsClosed :: nat
  slashCommandsExecuted :: nat
  errors :: nat

record closure =
  closedAt :: int
  closure_method :: string
  closure_command :: string

datatype level = INFO | ERROR | DEBUG

text \<open>One constructor for each message text passed to \<^verbatim>\<open>log\<close>, \<^verbatim>\<open>logError\<close> or \<^verbatim>\<open>debug\<close>.\<close>

datatype logmsg =
    TicketSender_initialized
  | Channel_created
  | Channel_not_in_target_category
  | Processing_new_ticket_channel
  | Waiting_for_first_message
  | Timeout_waiting_for_first_message
  | First_message_received_by_listener
  | No_first_message_found
  | First_message_received
  | Extracting_user_tag
  | User_tag_extracted_from_mentions
  | User_tag_extracted_from_author
  | Could_not_extract_user_tag
  | User_tag_extracted
  | Initial_automated_message_sent
  | Ticket_tracked_successfully
  | Failed_to_handle_channel_creation
  | Skipping_bot_message
  | Message_in_non_tracked_channel
  | Ticket_not_awaiting_response
  | Processing_user_message
  | EVM_address_detected
  | No_EVM_address_found
  | Checking_attachment
  | Image_attachments_detected
  | Ticket_requirements_check
  | All_requirements_met
  | Form_message_sent
  | Scheduling_automatic_closure
  | Executing_scheduled_closure
  | Requirements_not_yet_met
  | Failed_to_handle_user_message
  | Starting_ticket_closure
  | Channel_not_found_in_cache
  | Channel_not_found_after_fetch
  | Failed_to_fetch_channel
  | Close_command_sent
  | Failed_to_close_ticket
  | Operation_completed string

text \<open>
  The three texts the class sends: \<^verbatim>\<open>messages.INITIAL_MESSAGE\<close> with the user tag in
  place of \<^verbatim>\<open>{userTag}\<close>, \<^verbatim>\<open>messages.FORM_MESSAGE\<close>, and the literal \<^verbatim>\<open>'$close'\<close>.
\<close>

datatype outgoing = INITIAL_MESSAGE string | FORM_MESSAGE | CLOSE_COMMAND

subsection \<open>Suspended handlers\<close>

text \<open>
  What a handler waits for at an \<^verbatim>\<open>await\<close> or a \<^verbatim>\<open>setTimeout\<close>, with the variables
  its continuation uses:
  \<^item> \<open>FirstMessageWait\<close>: \<^verbatim>\<open>waitForFirstMessage\<close> has registered its
    \<^verbatim>\<open>messageHandler\<close> and its timeout, neither has run;
  \<^item> \<open>FirstMessageListener\<close>: the timeout has run; it resolves the promise and leaves
    \<^verbatim>\<open>messageHandler\<close> registered (only \<^verbatim>\<open>messageHandler\<close> itself calls
    \<^verbatim>\<open>client.off\<close>);
  \<^item> \<open>InitialSend\<close>: \<^verbatim>\<open>handleChannelCreation\<close> awaits \<^verbatim>\<open>channel.send\<close>;
  \<^item> \<open>FormSend\<close>: \<^verbatim>\<open>handleUserMessage\<close> awaits \<^verbatim>\<open>message.channel.send\<close>, holding
    the reference \<^verbatim>\<open>ticket\<close> and \<^verbatim>\<open>message.channel.id\<close>;
  \<^item> \<open>ClosureTimer\<close>: the \<^verbatim>\<open>setTimeout\<close> callback of \<^verbatim>\<open>handleUserMessage\<close>, holding
    \<^verbatim>\<open>message.channel.id\<close>, and the time at which the timeout is due;
  \<^item> \<open>ChannelFetch\<close> and \<open>CloseSend\<close>: \<^verbatim>\<open>closeTicket\<close> awaits
    \<^verbatim>\<open>client.channels.fetch\<close>, or \<^verbatim>\<open>channel.send('$close')\<close>.
\<close>

datatype task =
    FirstMessageWait channel
  | FirstMessageListener channel
  | InitialSend channel string
  | FormSend nat string
  | ClosureTimer string int
  | ChannelFetch string
  | CloseSend string

text \<open>
  The fields of a \<^verbatim>\<open>TicketSender\<close>. \<open>activeTickets\<close> maps a channel id to a reference
  and \<open>heap\<close> a reference to the ticket object, since a suspended \<^verbatim>\<open>handleUserMessage\<close>
  keeps its reference while the map may change. \<open>sends\<close> lists the calls of
  \<^verbatim>\<open>channel.send\<close> in order, \<open>logs\<close> the lines written, \<open>tasks\<close> the suspended
  handlers in the order they were suspended.
\<close>

record state =
  activeTickets :: "string \<rightharpoonup> nat"
  heap :: "nat \<rightharpoonup> ticket"
  nextRef :: nat
  pendingClosures :: "string \<rightharpoonup> closure"
  stats :: statistics
  logs :: "(level \<times> logmsg) list"
  sends :: "(string \<times> outgoing) list"
  tasks :: "(nat \<times> task) list"
  nextTask :: nat

text \<open>
  The configuration read by the constructor. \<^verbatim>\<open>TICKET_CAT\<close> may be unset.
  \<open>closeTimeoutMs\<close> is the product \<^verbatim>\<open>this.CLOSE_HOURS * 60 * 60 * 1000\<close>, a
  floating-point number in the source, taken here in whole milliseconds; an infinite
  product behaves as one that is out of every range below.
\<close>

record config =
  TICKET_CATEGORY :: "string option"
  closeTimeoutMs :: int
  DEBUG_MODE :: bool

definition log :: "logmsg \<Rightarrow> level \<Rightarrow> state \<Rightarrow> state" where
  "log msg lvl s = s\<lparr>logs := logs s @ [(lvl, msg)]\<rparr>"

definition logError :: "logmsg \<Rightarrow> state \<Rightarrow> state" where
  "logError msg s = log msg ERROR (s\<lparr>stats := (stats s)\<lparr>errors := errors (stats s) + 1\<rparr>\<rparr>)"

definition debug :: "config \<Rightarrow> logmsg \<Rightarrow> state \<Rightarrow> state" where
  "debug cfg msg s = (if DEBUG_MODE cfg then log msg DEBUG s else s)"

text \<open>\<^verbatim>\<open>timer.end()\<close> of the object \<^verbatim>\<open>startTimer(operation)\<close> returns.\<close>

definition timer_end :: "config \<Rightarrow> string \<Rightarrow> state \<Rightarrow> state" where
  "timer_end cfg operation s = debug cfg (Operation_completed operation) s"

definition channel_send :: "string \<Rightarrow> outgoing \<Rightarrow> state \<Rightarrow> state" where
  "channel_send cid text s = s\<lparr>sends := sends s @ [(cid, text)]\<rparr>"

definition suspend :: "task \<Rightarrow> state \<Rightarrow> state" where
  "suspend t s = s\<lparr>tasks := tasks s @ [(nextTask s, t)], nextTask := Suc (nextTask s)\<rparr>"

definition removeTask :: "nat \<Rightarrow> state \<Rightarrow> state" where
  "removeTask tid s = s\<lparr>tasks := filter (\<lambda>p. fst p \<noteq> tid) (tasks s)\<rparr>"

definition replaceTask :: "nat \<Rightarrow> task \<Rightarrow> state \<Rightarrow> state" where
  "replaceTask tid t s = s\<lparr>tasks := map (\<lambda>p. if fst p = tid then (tid, t) else p) (tasks s)\<rparr>"

text \<open>The state the constructor builds.\<close>

definition TicketSender :: state where
  "TicketSender =
     \<lparr>activeTickets = Map.empty, heap = Map.empty, nextRef = 0, pendingClosures = Map.empty,
      stats = \<lparr>ticketsCreated = 0, ticketsCompleted = 0, ticketsClosed = 0,
               slashCommandsExecuted = 0, errors = 0\<rparr>,
      logs = [(INFO, TicketSender_initialized)], sends = [], tasks = [], nextTask = 0\<rparr>"

subsection \<open>handleChannelCreation, waitForFirstMessage and extractUserTag\<close>

text \<open>
  \<^verbatim>\<open>channel.parentId !== this.TICKET_CATEGORY\<close>. A channel without a category has
  \<^verbatim>\<open>parentId\<close> \<^verbatim>\<open>null\<close> and an unset category is \<^verbatim>\<open>undefined\<close>; the two are not
  strictly equal.
\<close>

definition notTargetCategory :: "config \<Rightarrow> channel \<Rightarrow> bool" where
  "notTargetCategory cfg ch =
     (case (parentId ch, TICKET_CATEGORY cfg) of
        (Some p, Some c) \<Rightarrow> p \<noteq> c
      | _ \<Rightarrow> True)"

text \<open>
  \<^verbatim>\<open>handleChannelCreation\<close> up to \<^verbatim>\<open>await this.waitForFirstMessage(channel)\<close>. The
  early return runs the \<^verbatim>\<open>finally\<close> block; otherwise the handler is suspended with the
  listener and the timeout of \<^verbatim>\<open>waitForFirstMessage\<close> registered.
\<close>

definition handleChannelCreation :: "config \<Rightarrow> channel \<Rightarrow> state \<Rightarrow> state" where
  "handleChannelCreation cfg ch s =
     (let s1 = log Channel_created INFO s in
      if notTargetCategory cfg ch then
        timer_end cfg ''handleChannelCreation'' (debug cfg Channel_not_in_target_category s1)
      else
        let s2 = log Processing_new_ticket_channel INFO s1;
            s3 = s2\<lparr>stats := (stats s2)\<lparr>ticketsCreated := ticketsCreated (stats s2) + 1\<rparr>\<rparr>;
            s4 = debug cfg Waiting_for_first_message s3
        in suspend (FirstMessageWait ch) s4)"

text \<open>
  \<^verbatim>\<open>extractUserTag\<close>: the first mentioned user if there is one, the author otherwise,
  written \<^verbatim>\<open><@id>\<close>.
\<close>

definition extractUserTag :: "config \<Rightarrow> message \<Rightarrow> state \<Rightarrow> string \<times> state" where
  "extractUserTag cfg m s =
     (let s1 = debug cfg Extracting_user_tag s in
      case mentions_users m of
        user # _ \<Rightarrow> (''<@'' @ user @ ''>'', debug cfg User_tag_extracted_from_mentions s1)
      | [] \<Rightarrow>
          (''<@'' @ author_id (message_author m) @ ''>'',
           debug cfg User_tag_extracted_from_author s1))"

text \<open>
  \<^verbatim>\<open>handleChannelCreation\<close> from the result of \<^verbatim>\<open>waitForFirstMessage\<close> (\<open>None\<close> is
  \<^verbatim>\<open>null\<close>) up to \<^verbatim>\<open>await channel.send(...)\<close>. A first message without content
  raises at \<^verbatim>\<open>firstMessage.content.length\<close>, which the \<^verbatim>\<open>catch\<close> block logs.
  \<^verbatim>\<open>!userTag\<close> holds of the empty string.
\<close>

definition handleChannelCreation_firstMessage ::
  "config \<Rightarrow> channel \<Rightarrow> message option \<Rightarrow> state \<Rightarrow> state" where
  "handleChannelCreation_firstMessage cfg ch firstMessage s =
     (case firstMessage of
        None \<Rightarrow> timer_end cfg ''handleChannelCreation'' (log No_first_message_found INFO s)
      | Some m \<Rightarrow>
          (case content m of
             None \<Rightarrow>
               timer_end cfg ''handleChannelCreation''
                 (logError Failed_to_handle_channel_creation s)
           | Some txt \<Rightarrow>
               let s1 = log First_message_received INFO s;
                   (tag, s2) = extractUserTag cfg m s1
               in if tag = [] then
                    timer_end cfg ''handleChannelCreation''
                      (log Could_not_extract_user_tag INFO s2)
                  else
                    let s3 = log User_tag_extracted INFO s2;
                        s4 = channel_send (channel_id ch) (INITIAL_MESSAGE tag) s3
                    in suspend (InitialSend ch tag) s4))"

text \<open>
  The result of an awaited platform operation: the promise resolves with a value or is
  rejected.
\<close>

datatype 'a settled = Resolved 'a | Rejected

text \<open>
  \<^verbatim>\<open>handleChannelCreation\<close> after \<^verbatim>\<open>await channel.send(...)\<close>: a new ticket object is
  stored under the channel id by \<^verbatim>\<open>activeTickets.set\<close>, whatever the map held there. A
  rejected send goes to the \<^verbatim>\<open>catch\<close> block.
\<close>

definition handleChannelCreation_sent ::
  "config \<Rightarrow> int \<Rightarrow> channel \<Rightarrow> string \<Rightarrow> string settled \<Rightarrow> state \<Rightarrow> state" where
  "handleChannelCreation_sent cfg now ch tag sentMessage s =
     (case sentMessage of
        Rejected \<Rightarrow>
          timer_end cfg ''handleChannelCreation'' (logError Failed_to_handle_channel_creation s)
      | Resolved sentId \<Rightarrow>
          let s1 = log Initial_automated_message_sent INFO s;
              ticketData =
                \<lparr>channelId = channel_id ch, userTag = tag, createdAt = now,
                 awaitingResponse = True, hasEvmAddress = False, hasImage = False,
                 initialMessageId = sentId, completedAt = None, formMessageId = None\<rparr>;
              s2 = s1\<lparr>heap := (heap s1)(nextRef s1 \<mapsto> ticketData),
                      activeTickets := (activeTickets s1)(channel_id ch \<mapsto> nextRef s1),
                      nextRef := Suc (nextRef s1)\<rparr>;
              s3 = log Ticket_tracked_successfully INFO s2
          in timer_end cfg ''handleChannelCreation'' s3)"

text \<open>
  The timeout of \<^verbatim>\<open>waitForFirstMessage\<close>: it logs and resolves the promise with
  \<^verbatim>\<open>null\<close>, and \<^verbatim>\<open>handleChannelCreation\<close> continues. The listener stays registered.
\<close>

definition waitForFirstMessage_timeout :: "config \<Rightarrow> nat \<Rightarrow> channel \<Rightarrow> state \<Rightarrow> state" where
  "waitForFirstMessage_timeout cfg tid ch s =
     handleChannelCreation_firstMessage cfg ch None
       (log Timeout_waiting_for_first_message INFO (replaceTask tid (FirstMessageListener ch) s))"

text \<open>
  \<^verbatim>\<open>messageHandler\<close> for a message of its channel: it logs, clears the timeout, removes
  itself and resolves the promise. It does not look at the author.
\<close>

definition messageHandler :: "config \<Rightarrow> nat \<Rightarrow> state \<Rightarrow> state" where
  "messageHandler cfg tid s =
     timer_end cfg ''waitForFirstMessage''
       (removeTask tid (debug cfg First_message_received_by_listener s))"

subsection \<open>handleUserMessage\<close>

text \<open>
  \<^verbatim>\<open>this.activeTickets.get(message.channel.id)\<close>: the reference and the object.
\<close>

definition getTicket :: "state \<Rightarrow> string \<Rightarrow> (nat \<times> ticket) option" where
  "getTicket s cid =
     (case activeTickets s cid of
        None \<Rightarrow> None
      | Some r \<Rightarrow> (case heap s r of None \<Rightarrow> None | Some t \<Rightarrow> Some (r, t)))"

text \<open>
  \<^verbatim>\<open>handleUserMessage\<close> up to \<^verbatim>\<open>await message.channel.send(messages.FORM_MESSAGE)\<close>.
  The three early returns come first. The log call that follows reads
  \<^verbatim>\<open>message.content.length\<close> and \<^verbatim>\<open>message.attachments.size\<close>, so a message without
  content or without attachments raises there and the \<^verbatim>\<open>catch\<close> block logs the error.
  The writes \<^verbatim>\<open>ticket.hasEvmAddress = true\<close> and \<^verbatim>\<open>ticket.hasImage = true\<close> change the
  object in the heap.
\<close>

definition handleUserMessage :: "config \<Rightarrow> message \<Rightarrow> state \<Rightarrow> state" where
  "handleUserMessage cfg m s =
     (if bot (message_author m) then
        timer_end cfg ''handleUserMessage'' (debug cfg Skipping_bot_message s)
      else
        case getTicket s (message_channel_id m) of
          None \<Rightarrow>
            timer_end cfg ''handleUserMessage'' (debug cfg Message_in_non_tracked_channel s)
        | Some (r, ticket) \<Rightarrow>
            if \<not> awaitingResponse ticket then
              timer_end cfg ''handleUserMessage'' (debug cfg Ticket_not_awaiting_response s)
            else
              (case (content m, attachments m) of
                 (Some txt, Some atts) \<Rightarrow>
                   let s1 = log Processing_user_message INFO s;
                       ticket1 =
                         (if hasNewEvmAddress txt then ticket\<lparr>hasEvmAddress := True\<rparr>
                          else ticket);
                       s2 =
                         (if hasNewEvmAddress txt then log EVM_address_detected INFO s1
                          else debug cfg No_EVM_address_found s1);
                       s3 =
                         (if 0 < length atts then
                            fold (\<lambda>a. debug cfg Checking_attachment) atts s2
                          else s2);
                       ticket2 =
                         (if hasNewImage atts then ticket1\<lparr>hasImage := True\<rparr> else ticket1);
                       s4 =
                         (if hasNewImage atts then log Image_attachments_detected INFO s3
                          else s3);
                       s5 = log Ticket_requirements_check INFO (s4\<lparr>heap := (heap s4)(r \<mapsto> ticket2)\<rparr>)
                   in if hasEvmAddress ticket2 \<and> hasImage ticket2 then
                        let s6 = log All_requirements_met INFO s5;
                            s7 = channel_send (message_channel_id m) FORM_MESSAGE s6
                        in suspend (FormSend r (message_channel_id m)) s7
                      else
                        timer_end cfg ''handleUserMessage''
                          (debug cfg Requirements_not_yet_met s5)
               | _ \<Rightarrow>
                   timer_end cfg ''handleUserMessage''
                     (logError Failed_to_handle_user_message s)))"

text \<open>
  A \<^verbatim>\<open>Date\<close> holds a time of at most 8640000000000000 ms on either side of the epoch;
  \<^verbatim>\<open>toISOString\<close> of a \<^verbatim>\<open>Date\<close> made from any other number raises a RangeError.
\<close>

definition validDate :: "int \<Rightarrow> bool" where
  "validDate t = (- 8640000000000000 \<le> t \<and> t \<le> 8640000000000000)"

text \<open>
  The delay \<^verbatim>\<open>setTimeout\<close> works with: a delay below 1 ms or above 2147483647 ms is
  replaced by 1 ms.
\<close>

definition timeoutDelay :: "int \<Rightarrow> int" where
  "timeoutDelay d = (if 1 \<le> d \<and> d \<le> 2147483647 then d else 1)"

text \<open>
  \<^verbatim>\<open>handleUserMessage\<close> after the \<^verbatim>\<open>await\<close>. A rejected send goes to the \<^verbatim>\<open>catch\<close>
  block at once. A delivered one is followed by the writes to the object \<^verbatim>\<open>ticket\<close>
  refers to and by the counter. Then \<^verbatim>\<open>closeTime = new Date(Date.now() + closeTimeoutMs)\<close>
  is made and \<^verbatim>\<open>closeTime.toISOString()\<close> is evaluated for the log call: if that raises,
  the \<^verbatim>\<open>catch\<close> block logs the error, with the ticket completed and nothing scheduled.
  Otherwise the line is logged and \<^verbatim>\<open>setTimeout\<close> is called with \<^verbatim>\<open>closeTimeoutMs\<close>.
\<close>

definition handleUserMessage_sent ::
  "config \<Rightarrow> int \<Rightarrow> nat \<Rightarrow> string \<Rightarrow> string settled \<Rightarrow> state \<Rightarrow> state" where
  "handleUserMessage_sent cfg now r cid formMessage s =
     (case formMessage of
        Rejected \<Rightarrow>
          timer_end cfg ''handleUserMessage'' (logError Failed_to_handle_user_message s)
      | Resolved formId \<Rightarrow>
          let s1 = log Form_message_sent INFO s;
              s2 = s1\<lparr>heap := (heap s1)(r :=
                      map_option (\<lambda>t. t\<lparr>awaitingResponse := False, completedAt := Some now,
                                         formMessageId := Some formId\<rparr>) (heap s1 r))\<rparr>;
              s3 = s2\<lparr>stats := (stats s2)\<lparr>ticketsCompleted := ticketsCompleted (stats s2) + 1\<rparr>\<rparr>;
              closeTime = now + closeTimeoutMs cfg
          in if \<not> validDate closeTime then
               timer_end cfg ''handleUserMessage'' (logError Failed_to_handle_user_message s3)
             else
               let s4 = log Scheduling_automatic_closure INFO s3;
                   s5 = suspend (ClosureTimer cid (now + timeoutDelay (closeTimeoutMs cfg))) s4
               in timer_end cfg ''handleUserMessage'' s5)"

subsection \<open>closeTicket\<close>

text \<open>
  \<^verbatim>\<open>closeTicket\<close> up to its first \<^verbatim>\<open>await\<close>; \<open>cached\<close> says whether
  \<^verbatim>\<open>this.client.channels.cache.get(channelId)\<close> finds the channel.
\<close>

definition closeTicket :: "config \<Rightarrow> string \<Rightarrow> bool \<Rightarrow> state \<Rightarrow> state" where
  "closeTicket cfg cid cached s =
     (let s1 = log Starting_ticket_closure INFO s in
      if \<not> cached then
        suspend (ChannelFetch cid) (log Channel_not_found_in_cache INFO s1)
      else
        suspend (CloseSend cid) (channel_send cid CLOSE_COMMAND s1))"

text \<open>
  After \<^verbatim>\<open>await this.client.channels.fetch(channelId)\<close>: \<open>Resolved False\<close> is a fetch
  that returns nothing. Both failures return from \<^verbatim>\<open>closeTicket\<close>.
\<close>

definition closeTicket_fetched :: "config \<Rightarrow> string \<Rightarrow> bool settled \<Rightarrow> state \<Rightarrow> state" where
  "closeTicket_fetched cfg cid fetched s =
     (case fetched of
        Rejected \<Rightarrow> timer_end cfg ''closeTicket'' (logError Failed_to_fetch_channel s)
      | Resolved found \<Rightarrow>
          if \<not> found then
            timer_end cfg ''closeTicket'' (log Channel_not_found_after_fetch INFO s)
          else
            suspend (CloseSend cid) (channel_send cid CLOSE_COMMAND s))"

text \<open>
  After \<^verbatim>\<open>await channel.send('$close')\<close>: the bookkeeping, or the \<^verbatim>\<open>catch\<close> block.
\<close>

definition closeTicket_sent ::
  "config \<Rightarrow> int \<Rightarrow> string \<Rightarrow> string settled \<Rightarrow> state \<Rightarrow> state" where
  "closeTicket_sent cfg now cid sent s =
     (case sent of
        Rejected \<Rightarrow> timer_end cfg ''closeTicket'' (logError Failed_to_close_ticket s)
      | Resolved sentId \<Rightarrow>
          let s1 = log Close_command_sent INFO s;
              s2 = s1\<lparr>activeTickets := (activeTickets s1)(cid := None)\<rparr>;
              s3 = s2\<lparr>pendingClosures := (pendingClosures s2)(cid \<mapsto>
                      \<lparr>closedAt = now, closure_method = ''message_command'',
                       closure_command = ''$close''\<rparr>)\<rparr>;
              s4 = s3\<lparr>stats := (stats s3)\<lparr>ticketsClosed := ticketsClosed (stats s3) + 1\<rparr>\<rparr>
          in timer_end cfg ''closeTicket'' s4)"

text \<open>
  The callback given to \<^verbatim>\<open>setTimeout\<close> by \<^verbatim>\<open>handleUserMessage\<close>; a timeout runs its
  callback once, and not before it is due.
\<close>

definition closureTimer_fired :: "config \<Rightarrow> nat \<Rightarrow> string \<Rightarrow> bool \<Rightarrow> state \<Rightarrow> state" where
  "closureTimer_fired cfg tid cid cached s =
     closeTicket cfg cid cached (log Executing_scheduled_closure INFO (removeTask tid s))"

subsection \<open>The event loop\<close>

text \<open>
  The listeners of \<^verbatim>\<open>messageCreate\<close> that \<^verbatim>\<open>waitForFirstMessage\<close> registered for a
  channel id, and those among them whose promise is still pending.
\<close>

fun listening :: "string \<Rightarrow> nat \<times> task \<Rightarrow> bool" where
  "listening cid (tid, FirstMessageWait ch) = (channel_id ch = cid)"
| "listening cid (tid, FirstMessageListener ch) = (channel_id ch = cid)"
| "listening cid (tid, _) = False"

fun resolveWait :: "config \<Rightarrow> message \<Rightarrow> nat \<times> task \<Rightarrow> state \<Rightarrow> state" where
  "resolveWait cfg m (tid, FirstMessageWait ch) s =
     handleChannelCreation_firstMessage cfg ch (Some m) s"
| "resolveWait cfg m (tid, _) s = s"

text \<open>
  A \<^verbatim>\<open>messageCreate\<close> event. The listener of \<^verbatim>\<open>init\<close> was registered first, so
  \<^verbatim>\<open>handleUserMessage\<close> runs first, up to its \<^verbatim>\<open>await\<close>; then each
  \<^verbatim>\<open>messageHandler\<close> of the message's channel, in the order of registration; then, when
  the listeners have returned, each \<^verbatim>\<open>handleChannelCreation\<close> whose promise was resolved.
\<close>

definition emit_messageCreate :: "config \<Rightarrow> message \<Rightarrow> state \<Rightarrow> state" where
  "emit_messageCreate cfg m s =
     (let s1 = handleUserMessage cfg m s;
          listeners = filter (listening (message_channel_id m)) (tasks s1);
          s2 = fold (\<lambda>l. messageHandler cfg (fst l)) listeners s1
      in fold (resolveWait cfg m) listeners s2)"

text \<open>
  What the platform delivers: the two gateway events, the two kinds of timeout, and the
  settlement of a pending \<^verbatim>\<open>send\<close> or \<^verbatim>\<open>fetch\<close>. A timeout or settlement names the
  suspended handler it belongs to. Each event comes with the time \<^verbatim>\<open>Date\<close> gives while
  it is handled.
\<close>

datatype event =
    ChannelCreate channel
  | MessageCreate message
  | FirstMessageTimeout nat
  | ClosureTimeout nat bool
  | SendSettled nat "string settled"
  | FetchSettled nat "bool settled"

fun step :: "config \<Rightarrow> int \<times> event \<Rightarrow> state \<Rightarrow> state" where
  "step cfg (now, ChannelCreate ch) s = handleChannelCreation cfg ch s"
| "step cfg (now, MessageCreate m) s = emit_messageCreate cfg m s"
| "step cfg (now, FirstMessageTimeout tid) s =
     (case map_of (tasks s) tid of
        Some (FirstMessageWait ch) \<Rightarrow> waitForFirstMessage_timeout cfg tid ch s
      | _ \<Rightarrow> s)"
| "step cfg (now, ClosureTimeout tid cached) s =
     (case map_of (tasks s) tid of
        Some (ClosureTimer cid due) \<Rightarrow>
          if due \<le> now then closureTimer_fired cfg tid cid cached s else s
      | _ \<Rightarrow> s)"
| "step cfg (now, SendSettled tid result) s =
     (case map_of (tasks s) tid of
        Some (InitialSend ch tag) \<Rightarrow>
          handleChannelCreation_sent cfg now ch tag result (removeTask tid s)
      | Some (FormSend r cid) \<Rightarrow> handleUserMessage_sent cfg now r cid result (removeTask tid s)
      | Some (CloseSend cid) \<Rightarrow> closeTicket_sent cfg now cid result (removeTask tid s)
      | _ \<Rightarrow> s)"
| "step cfg (now, FetchSettled tid result) s =
     (case map_of (tasks s) tid of
        Some (ChannelFetch cid) \<Rightarrow> closeTicket_fetched cfg cid result (removeTask tid s)
      | _ \<Rightarrow> s)"

definition run :: "config \<Rightarrow> (int \<times> event) list \<Rightarrow> state \<Rightarrow> state" where
  "run cfg evs s = fold (step cfg) evs s"

subsection \<open>Auxiliary notions for the statements\<close>

text \<open>Two states that differ at most in their log.\<close>

definition sameButLogs :: "state \<Rightarrow> state \<Rightarrow> bool" where
  "sameButLogs s' s =
     (activeTickets s' = activeTickets s \<and> heap s' = heap s \<and> nextRef s' = nextRef s \<and>
      pendingClosures s' = pendingClosures s \<and> stats s' = stats s \<and> sends s' = sends s \<and>
      tasks s' = tasks s \<and> nextTask s' = nextTask s)"

text \<open>A ticket after the evidence of a message has been merged into it.\<close>

definition merged :: "ticket \<Rightarrow> string \<Rightarrow> attachment list \<Rightarrow> ticket" where
  "merged t txt atts =
     t\<lparr>hasEvmAddress := hasEvmAddress t \<or> hasNewEvmAddress txt,
       hasImage := hasImage t \<or> hasNewImage atts\<rparr>"

text \<open>
  What every state the event loop reaches satisfies: suspended handlers have distinct
  identifiers below the next one, and allocated references are below the next one.
\<close>

definition wellFormed :: "state \<Rightarrow> bool" where
  "wellFormed s =
     (distinct (map fst (tasks s)) \<and> (\<forall>p \<in> set (tasks s). fst p < nextTask s) \<and>
      (\<forall>r. heap s r \<noteq> None \<longrightarrow> r < nextRef s))"

text \<open>A ticket that has lost none of the evidence of another.\<close>

definition evidenceKept :: "ticket \<Rightarrow> ticket \<Rightarrow> bool" where
  "evidenceKept t t' =
     ((hasEvmAddress t \<longrightarrow> hasEvmAddress t') \<and> (hasImage t \<longrightarrow> hasImage t'))"

text \<open>Every ticket object of the first state is still allocated in the second, with its evidence.\<close>

definition keepsEvidence :: "state \<Rightarrow> state \<Rightarrow> bool" where
  "keepsEvidence s s' =
     (\<forall>r t. heap s r = Some t \<longrightarrow> (\<exists>t'. heap s' r = Some t' \<and> evidenceKept t t'))"

text \<open>
  Identifiers of suspended handlers are never reused: what the second state has pending
  was pending in the first or is numbered from the first state's next identifier.
\<close>

definition grows :: "state \<Rightarrow> state \<Rightarrow> bool" where
  "grows s s' =
     (nextTask s \<le> nextTask s' \<and>
      (\<forall>p \<in> set (tasks s'). fst p \<in> fst ` set (tasks s) \<or> nextTask s \<le> fst p))"

text \<open>A list of events in which the closure timeout \<open>tid\<close> does not occur.\<close>

definition neverFires :: "nat \<Rightarrow> (int \<times> event) list \<Rightarrow> bool" where
  "neverFires tid evs =
     list_all (\<lambda>ev. case snd ev of ClosureTimeout tid' cached \<Rightarrow> tid' \<noteq> tid | _ \<Rightarrow> True) evs"

text \<open>A list of message-created events.\<close>

definition onlyMessages :: "(int \<times> event) list \<Rightarrow> bool" where
  "onlyMessages evs = list_all (\<lambda>ev. case snd ev of MessageCreate m \<Rightarrow> True | _ \<Rightarrow> False) evs"

subsection \<open>Example data\<close>

definition cfg0 :: config where
  "cfg0 = \<lparr>TICKET_CATEGORY = Some ''category'', closeTimeoutMs = 3600000, DEBUG_MODE = False\<rparr>"

definition ticketChannel :: channel where
  "ticketChannel =
     \<lparr>channel_id = ''c1'', channel_name = ''ticket-0001'', parentId = Some ''category''\<rparr>"

definition userU :: author where
  "userU = \<lparr>author_id = ''U'', bot = False\<rparr>"

definition ticketBot :: author where
  "ticketBot = \<lparr>author_id = ''B'', bot = True\<rparr>"

definition screenshot :: attachment where
  "screenshot =
     \<lparr>attachment_id = ''a1'', attachment_name = ''shot.png'', contentType = Some ''image/png'',
      attachment_size = 2048\<rparr>"

definition evmAddress :: string where
  "evmAddress = ''0xABCDEF0123456789ABCDEF0123456789ABCDEF01''"

definition userMessage :: "string \<Rightarrow> string option \<Rightarrow> attachment list option \<Rightarrow> message" where
  "userMessage mid txt atts =
     \<lparr>message_id = mid, message_channel_id = ''c1'', message_author = userU, content = txt,
      attachments = atts, mentions_users = []\<rparr>"

definition botMessage :: message where
  "botMessage =
     \<lparr>message_id = ''m0'', message_channel_id = ''c1'', message_author = ticketBot,
      content = Some ''Welcome'', attachments = Some [], mentions_users = [''U'']\<rparr>"

definition evidenceMessage :: message where
  "evidenceMessage = userMessage ''m2'' (Some evmAddress) (Some [screenshot])"

definition addressMessage :: message where
  "addressMessage = userMessage ''m2'' (Some evmAddress) (Some [])"

definition thanksMessage :: message where
  "thanksMessage = userMessage ''m3'' (Some ''thanks'') (Some [])"

text \<open>The ticket the channel \<^verbatim>\<open>c1\<close> gets once it has been greeted.\<close>

definition openTicket :: ticket where
  "openTicket =
     \<lparr>channelId = ''c1'', userTag = ''<@U>'', createdAt = 1200, awaitingResponse = True,
      hasEvmAddress = False, hasImage = False, initialMessageId = ''g1'', completedAt = None,
      formMessageId = None\<rparr>"

text \<open>
  Executions, as lists of timed events. A channel is created in the category; the user
  writes; the greeting is delivered.
\<close>

definition waiting :: "(int \<times> event) list" where
  "waiting = [(0, ChannelCreate ticketChannel)]"

definition greeted :: "(int \<times> event) list" where
  "greeted =
     waiting @
     [(1000, MessageCreate (userMessage ''m1'' (Some ''hello'') (Some []))),
      (1200, SendSettled 1 (Resolved ''g1''))]"

text \<open>The user then sends address and screenshot in one message; the follow-up is delivered.\<close>

definition evidenceSent :: "(int \<times> event) list" where
  "evidenceSent = greeted @ [(5000, MessageCreate evidenceMessage)]"

definition completed :: "(int \<times> event) list" where
  "completed = evidenceSent @ [(5200, SendSettled 2 (Resolved ''f1''))]"

text \<open>Or the follow-up is not delivered.\<close>

definition rejectedFollowUp :: "(int \<times> event) list" where
  "rejectedFollowUp = evidenceSent @ [(5200, SendSettled 2 Rejected)]"

text \<open>
  Or a second message of the user arrives while the follow-up is being sent; both sends
  are delivered, both closure timers run out and both closure commands are delivered.
\<close>

definition overlapping :: "(int \<times> event) list" where
  "overlapping =
     evidenceSent @
     [(5100, MessageCreate thanksMessage),
      (5200, SendSettled 2 (Resolved ''f1'')), (5300, SendSettled 3 (Resolved ''f2''))]"

definition overlappingFirstClosed :: "(int \<times> event) list" where
  "overlappingFirstClosed =
     overlapping @
     [(3605200, ClosureTimeout 4 True), (3605250, SendSettled 6 (Resolved ''x1''))]"

definition overlappingClosed :: "(int \<times> event) list" where
  "overlappingClosed =
     overlappingFirstClosed @
     [(3605300, ClosureTimeout 5 True), (3605350, SendSettled 7 (Resolved ''x2''))]"

text \<open>
  The closure timer of a completed ticket runs out and the closure fails: the channel is
  not cached and the fetch is rejected, or returns nothing, or the channel is cached and
  the send is rejected.
\<close>

definition fetchRejected :: "(int \<times> event) list" where
  "fetchRejected = completed @ [(3605200, ClosureTimeout 3 False), (3605300, FetchSettled 4 Rejected)]"

definition fetchEmpty :: "(int \<times> event) list" where
  "fetchEmpty =
     completed @ [(3605200, ClosureTimeout 3 False), (3605300, FetchSettled 4 (Resolved False))]"

definition closeRejected :: "(int \<times> event) list" where
  "closeRejected = completed @ [(3605200, ClosureTimeout 3 True), (3605300, SendSettled 4 Rejected)]"

text \<open>
  The user gives the address; the channel-created event arrives a second time; the user
  writes again; the second greeting is delivered.
\<close>

definition addressGiven :: "(int \<times> event) list" where
  "addressGiven = greeted @ [(5000, MessageCreate addressMessage)]"

definition secondCreate :: "(int \<times> event) list" where
  "secondCreate = addressGiven @ [(6000, ChannelCreate ticketChannel)]"

definition secondGreeting :: "(int \<times> event) list" where
  "secondGreeting = secondCreate @ [(7000, MessageCreate thanksMessage)]"

definition createdTwice :: "(int \<times> event) list" where
  "createdTwice = secondGreeting @ [(7200, SendSettled 3 (Resolved ''g2''))]"

text \<open>The first message in the new channel is the ticket bot's.\<close>

definition botFirst :: "(int \<times> event) list" where
  "botFirst = waiting @ [(1000, MessageCreate botMessage), (1200, SendSettled 1 (Resolved ''g1''))]"

text \<open>A message without content and with a screenshot arrives in the greeted channel.\<close>

definition missingContent :: "(int \<times> event) list" where
  "missingContent = greeted @ [(5000, MessageCreate (userMessage ''m2'' None (Some [screenshot])))]"

text \<open>
  The channel of the completed ticket is announced once more; the next message in it is
  greeted, and the greeting is delivered.
\<close>

definition completedCreate :: "(int \<times> event) list" where
  "completedCreate = completed @ [(6000, ChannelCreate ticketChannel)]"

definition completedGreeting :: "(int \<times> event) list" where
  "completedGreeting = completedCreate @ [(7000, MessageCreate thanksMessage)]"

definition completedReplaced :: "(int \<times> event) list" where
  "completedReplaced = completedGreeting @ [(7200, SendSettled 5 (Resolved ''g2''))]"

text \<open>
  Two more configurations: a close delay of 3000000000 ms (\<^verbatim>\<open>CLOSE_HOURS\<close> a little above
  833), which is more than \<^verbatim>\<open>setTimeout\<close> takes, and one of 9000000000000000 ms, which
  puts the close time beyond what a \<^verbatim>\<open>Date\<close> holds. With the first, the closure timeout
  can run one millisecond after the completion.
\<close>

definition cfgLongDelay :: config where
  "cfgLongDelay = cfg0\<lparr>closeTimeoutMs := 3000000000\<rparr>"

definition cfgBeyondDate :: config where
  "cfgBeyondDate = cfg0\<lparr>closeTimeoutMs := 9000000000000000\<rparr>"

definition closedEarly :: "(int \<times> event) list" where
  "closedEarly = completed @ [(5201, ClosureTimeout 3 True)]"

section \<open>Properties\<close>

subsection \<open>What the primitives change\<close>

lemma log_fields [simp]:
  "activeTickets (log msg lvl s) = activeTickets s"
  "heap (log msg lvl s) = heap s"
  "nextRef (log msg lvl s) = nextRef s"
  "pendingClosures (log msg lvl s) = pendingClosures s"
  "stats (log msg lvl s) = stats s"
  "sends (log msg lvl s) = sends s"
  "tasks (log msg lvl s) = tasks s"
  "nextTask (log msg lvl s) = nextTask s"
  "logs (log msg lvl s) = logs s @ [(lvl, msg)]"
  by (simp_all add: log_def)

lemma debug_fields [simp]:
  "activeTickets (debug cfg msg s) = activeTickets s"
  "heap (debug cfg msg s) = heap s"
  "nextRef (debug cfg msg s) = nextRef s"
  "pendingClosures (debug cfg msg s) = pendingClosures s"
  "stats (debug cfg msg s) = stats s"
  "sends (debug cfg msg s) = sends s"
  "tasks (debug cfg msg s) = tasks s"
  "nextTask (debug cfg msg s) = nextTask s"
  "logs (debug cfg msg s) = logs s @ (if DEBUG_MODE cfg then [(DEBUG, msg)] else [])"
  by (simp_all add: debug_def)

lemma timer_end_fields [simp]:
  "activeTickets (timer_end cfg op s) = activeTickets s"
  "heap (timer_end cfg op s) = heap s"
  "nextRef (timer_end cfg op s) = nextRef s"
  "pendingClosures (timer_end cfg op s) = pendingClosures s"
  "stats (timer_end cfg op s) = stats s"
  "sends (timer_end cfg op s) = sends s"
  "tasks (timer_end cfg op s) = tasks s"
  "nextTask (timer_end cfg op s) = nextTask s"
  "logs (timer_end cfg op s) =
     logs s @ (if DEBUG_MODE cfg then [(DEBUG, Operation_completed op)] else [])"
  by (simp_all add: timer_end_def)

lemma logError_fields [simp]:
  "activeTickets (logError msg s) = activeTickets s"
  "heap (logError msg s) = heap s"
  "nextRef (logError msg s) = nextRef s"
  "pendingClosures (logError msg s) = pendingClosures s"
  "stats (logError msg s) = (stats s)\<lparr>errors := errors (stats s) + 1\<rparr>"
  "sends (logError msg s) = sends s"
  "tasks (logError msg s) = tasks s"
  "nextTask (logError msg s) = nextTask s"
  "logs (logError msg s) = logs s @ [(ERROR, msg)]"
  by (simp_all add: logError_def)

lemma channel_send_fields [simp]:
  "activeTickets (channel_send cid text s) = activeTickets s"
  "heap (channel_send cid text s) = heap s"
  "nextRef (channel_send cid text s) = nextRef s"
  "pendingClosures (channel_send cid text s) = pendingClosures s"
  "stats (channel_send cid text s) = stats s"
  "sends (channel_send cid text s) = sends s @ [(cid, text)]"
  "tasks (channel_send cid text s) = tasks s"
  "nextTask (channel_send cid text s) = nextTask s"
  "logs (channel_send cid text s) = logs s"
  by (simp_all add: channel_send_def)

lemma suspend_fields [simp]:
  "activeTickets (suspend t s) = activeTickets s"
  "heap (suspend t s) = heap s"
  "nextRef (suspend t s) = nextRef s"
  "pendingClosures (suspend t s) = pendingClosures s"
  "stats (suspend t s) = stats s"
  "sends (suspend t s) = sends s"
  "tasks (suspend t s) = tasks s @ [(nextTask s, t)]"
  "nextTask (suspend t s) = Suc (nextTask s)"
  "logs (suspend t s) = logs s"
  by (simp_all add: suspend_def)

lemma removeTask_fields [simp]:
  "activeTickets (removeTask tid s) = activeTickets s"
  "heap (removeTask tid s) = heap s"
  "nextRef (removeTask tid s) = nextRef s"
  "pendingClosures (removeTask tid s) = pendingClosures s"
  "stats (removeTask tid s) = stats s"
  "sends (removeTask tid s) = sends s"
  "tasks (removeTask tid s) = filter (\<lambda>p. fst p \<noteq> tid) (tasks s)"
  "nextTask (removeTask tid s) = nextTask s"
  "logs (removeTask tid s) = logs s"
  by (simp_all add: removeTask_def)

lemma replaceTask_fields [simp]:
  "activeTickets (replaceTask tid t s) = activeTickets s"
  "heap (replaceTask tid t s) = heap s"
  "nextRef (replaceTask tid t s) = nextRef s"
  "pendingClosures (replaceTask tid t s) = pendingClosures s"
  "stats (replaceTask tid t s) = stats s"
  "sends (replaceTask tid t s) = sends s"
  "tasks (replaceTask tid t s) = map (\<lambda>p. if fst p = tid then (tid, t) else p) (tasks s)"
  "nextTask (replaceTask tid t s) = nextTask s"
  "logs (replaceTask tid t s) = logs s"
  by (simp_all add: replaceTask_def)

lemma fold_debug_fields [simp]:
  "activeTickets (fold (\<lambda>a. debug cfg msg) xs s) = activeTickets s"
  "heap (fold (\<lambda>a. debug cfg msg) xs s) = heap s"
  "nextRef (fold (\<lambda>a. debug cfg msg) xs s) = nextRef s"
  "pendingClosures (fold (\<lambda>a. debug cfg msg) xs s) = pendingClosures s"
  "stats (fold (\<lambda>a. debug cfg msg) xs s) = stats s"
  "sends (fold (\<lambda>a. debug cfg msg) xs s) = sends s"
  "tasks (fold (\<lambda>a. debug cfg msg) xs s) = tasks s"
  "nextTask (fold (\<lambda>a. debug cfg msg) xs s) = nextTask s"
  by (induction xs arbitrary: s; simp)+

subsection \<open>handleUserMessage\<close>

text \<open>The early returns change nothing but the log.\<close>

lemma handleUserMessage_bot:
  "bot (message_author m) \<Longrightarrow> sameButLogs (handleUserMessage cfg m s) s"
  by (simp add: handleUserMessage_def sameButLogs_def)

lemma handleUserMessage_untracked:
  "getTicket s (message_channel_id m) = None \<Longrightarrow> sameButLogs (handleUserMessage cfg m s) s"
  by (simp add: handleUserMessage_def sameButLogs_def)

lemma handleUserMessage_not_awaiting:
  "getTicket s (message_channel_id m) = Some (r, t) \<Longrightarrow> \<not> awaitingResponse t \<Longrightarrow>
   sameButLogs (handleUserMessage cfg m s) s"
  by (simp add: handleUserMessage_def sameButLogs_def)

lemma handleUserMessage_missing:
  "\<not> bot (message_author m) \<Longrightarrow> getTicket s (message_channel_id m) = Some (r, t) \<Longrightarrow>
   awaitingResponse t \<Longrightarrow> content m = None \<or> attachments m = None \<Longrightarrow>
   handleUserMessage cfg m s =
     timer_end cfg ''handleUserMessage'' (logError Failed_to_handle_user_message s)"
  by (auto simp add: handleUserMessage_def split: option.splits)

lemma set_true_flag:
  "hasEvmAddress t \<Longrightarrow> t\<lparr>hasEvmAddress := True\<rparr> = t"
  "hasImage t \<Longrightarrow> t\<lparr>hasImage := True\<rparr> = t"
  by (cases t; simp)+

lemma handleUserMessage_evidence:
  assumes "\<not> bot (message_author m)" "getTicket s (message_channel_id m) = Some (r, t)"
    "awaitingResponse t" "content m = Some txt" "attachments m = Some atts"
  shows "heap (handleUserMessage cfg m s) = (heap s)(r \<mapsto> merged t txt atts)"
    and "activeTickets (handleUserMessage cfg m s) = activeTickets s"
    and "stats (handleUserMessage cfg m s) = stats s"
    and "nextRef (handleUserMessage cfg m s) = nextRef s"
    and "pendingClosures (handleUserMessage cfg m s) = pendingClosures s"
    and "sends (handleUserMessage cfg m s) =
           sends s @ (if hasEvmAddress (merged t txt atts) \<and> hasImage (merged t txt atts)
                      then [(message_channel_id m, FORM_MESSAGE)] else [])"
    and "tasks (handleUserMessage cfg m s) =
           tasks s @ (if hasEvmAddress (merged t txt atts) \<and> hasImage (merged t txt atts)
                      then [(nextTask s, FormSend r (message_channel_id m))] else [])"
    and "nextTask (handleUserMessage cfg m s) =
           (if hasEvmAddress (merged t txt atts) \<and> hasImage (merged t txt atts)
            then Suc (nextTask s) else nextTask s)"
  using assms by (auto simp add: handleUserMessage_def merged_def Let_def set_true_flag)

subsection \<open>The invariant of the event loop\<close>

lemma wellFormed_cong:
  "tasks s' = tasks s \<Longrightarrow> nextTask s' = nextTask s \<Longrightarrow> heap s' = heap s \<Longrightarrow>
   nextRef s' = nextRef s \<Longrightarrow> wellFormed s' = wellFormed s"
  by (simp add: wellFormed_def)

lemma sameButLogs_wellFormed: "sameButLogs s' s \<Longrightarrow> wellFormed s \<Longrightarrow> wellFormed s'"
  by (simp add: sameButLogs_def wellFormed_def)

lemma wellFormed_prims [simp]:
  "wellFormed (log msg lvl s) = wellFormed s"
  "wellFormed (debug cfg msg s) = wellFormed s"
  "wellFormed (timer_end cfg op s) = wellFormed s"
  "wellFormed (logError msg s) = wellFormed s"
  "wellFormed (channel_send cid text s) = wellFormed s"
  by (simp_all add: wellFormed_def)

lemma wellFormed_suspend: "wellFormed s \<Longrightarrow> wellFormed (suspend t s)"
  by (fastforce simp add: wellFormed_def)

lemma wellFormed_removeTask: "wellFormed s \<Longrightarrow> wellFormed (removeTask tid s)"
  by (simp add: wellFormed_def distinct_map_filter)

lemma map_fst_replace:
  "map fst (map (\<lambda>p. if fst p = tid then (tid, t) else p) xs) = map fst xs"
  by (induction xs) auto

lemma wellFormed_replaceTask: "wellFormed s \<Longrightarrow> wellFormed (replaceTask tid t s)"
  by (auto simp add: wellFormed_def map_fst_replace simp del: map_map)

lemma getTicket_SomeD:
  "getTicket s cid = Some (r, t) \<Longrightarrow> activeTickets s cid = Some r \<and> heap s r = Some t"
  by (auto simp add: getTicket_def split: option.splits)

lemma handleUserMessage_branch:
  obtains
    (Bot) "bot (message_author m)"
  | (Untracked) "\<not> bot (message_author m)" "getTicket s (message_channel_id m) = None"
  | (Completed) r t where "\<not> bot (message_author m)"
      "getTicket s (message_channel_id m) = Some (r, t)" "\<not> awaitingResponse t"
  | (Missing) r t where "\<not> bot (message_author m)"
      "getTicket s (message_channel_id m) = Some (r, t)" "awaitingResponse t"
      "content m = None \<or> attachments m = None"
  | (Evidence) r t body atts where "\<not> bot (message_author m)"
      "getTicket s (message_channel_id m) = Some (r, t)" "awaitingResponse t"
      "content m = Some body" "attachments m = Some atts"
proof (cases "getTicket s (message_channel_id m)")
  case None
  then show ?thesis using Bot Untracked by blast
next
  case (Some p)
  obtain r t where "p = (r, t)" by (cases p)
  with Some have "getTicket s (message_channel_id m) = Some (r, t)" by simp
  then show ?thesis
    using Bot Completed [of r t] Missing [of r t] Evidence [of r t]
    by (cases "content m"; cases "attachments m"; cases "awaitingResponse t"; blast)
qed

lemma wellFormed_handleUserMessage:
  assumes "wellFormed s" shows "wellFormed (handleUserMessage cfg m s)"
proof (cases rule: handleUserMessage_branch [where m = m and s = s])
  case Bot
  then show ?thesis using assms handleUserMessage_bot sameButLogs_wellFormed by blast
next
  case Untracked
  then show ?thesis using assms handleUserMessage_untracked sameButLogs_wellFormed by blast
next
  case (Completed r t)
  then show ?thesis using assms handleUserMessage_not_awaiting sameButLogs_wellFormed by blast
next
  case (Missing r t)
  then show ?thesis using assms handleUserMessage_missing [of m s r t cfg] by simp
next
  case (Evidence r t body atts)
  note f = handleUserMessage_evidence [OF Evidence, of cfg]
  have "heap s r = Some t" using Evidence(2) by (simp add: getTicket_SomeD)
  then show ?thesis using assms
    unfolding wellFormed_def f by (auto split: if_splits)
qed

lemma wellFormed_handleChannelCreation:
  "wellFormed s \<Longrightarrow> wellFormed (handleChannelCreation cfg ch s)"
  by (auto simp add: handleChannelCreation_def Let_def wellFormed_cong [of "_\<lparr>stats := _\<rparr>"]
      intro!: wellFormed_suspend)

lemma wellFormed_firstMessage:
  "wellFormed s \<Longrightarrow> wellFormed (handleChannelCreation_firstMessage cfg ch fm s)"
  by (auto simp add: handleChannelCreation_firstMessage_def extractUserTag_def Let_def
      split: option.splits list.splits intro!: wellFormed_suspend)

lemma wellFormed_handleChannelCreation_sent:
  "wellFormed s \<Longrightarrow> wellFormed (handleChannelCreation_sent cfg now ch tag res s)"
  by (cases res) (auto simp add: handleChannelCreation_sent_def Let_def wellFormed_def less_Suc_eq
      dest: spec)

lemma wellFormed_handleUserMessage_sent:
  "wellFormed s \<Longrightarrow> wellFormed (handleUserMessage_sent cfg now r cid res s)"
  by (cases res) (fastforce simp add: handleUserMessage_sent_def Let_def wellFormed_def)+

lemma wellFormed_closeTicket: "wellFormed s \<Longrightarrow> wellFormed (closeTicket cfg cid cached s)"
  by (auto simp add: closeTicket_def Let_def intro!: wellFormed_suspend)

lemma wellFormed_closeTicket_fetched:
  "wellFormed s \<Longrightarrow> wellFormed (closeTicket_fetched cfg cid res s)"
  by (cases res) (auto simp add: closeTicket_fetched_def intro!: wellFormed_suspend)

lemma wellFormed_closeTicket_sent:
  "wellFormed s \<Longrightarrow> wellFormed (closeTicket_sent cfg now cid res s)"
  by (cases res) (auto simp add: closeTicket_sent_def Let_def wellFormed_def)

lemma wellFormed_fold:
  "(\<And>x s. wellFormed s \<Longrightarrow> wellFormed (f x s)) \<Longrightarrow> wellFormed s \<Longrightarrow> wellFormed (fold f xs s)"
  by (induction xs arbitrary: s) auto

lemma wellFormed_resolveWait: "wellFormed s \<Longrightarrow> wellFormed (resolveWait cfg m l s)"
  by (cases "(cfg, m, l, s)" rule: resolveWait.cases) (auto intro: wellFormed_firstMessage)

lemma wellFormed_messageHandler: "wellFormed s \<Longrightarrow> wellFormed (messageHandler cfg tid s)"
  by (simp add: messageHandler_def wellFormed_removeTask)

lemma wellFormed_emit: "wellFormed s \<Longrightarrow> wellFormed (emit_messageCreate cfg m s)"
  unfolding emit_messageCreate_def Let_def
  by (intro wellFormed_fold wellFormed_resolveWait wellFormed_messageHandler
      wellFormed_handleUserMessage)

lemma wellFormed_step: "wellFormed s \<Longrightarrow> wellFormed (step cfg ev s)"
proof (cases ev)
  case (Pair now e)
  assume w: "wellFormed s"
  show ?thesis
  proof (cases e)
    case (ChannelCreate ch)
    then show ?thesis using w Pair by (simp add: wellFormed_handleChannelCreation)
  next
    case (MessageCreate m)
    then show ?thesis using w Pair by (simp add: wellFormed_emit)
  next
    case (FirstMessageTimeout tid)
    then show ?thesis using w Pair
      by (auto simp add: waitForFirstMessage_timeout_def wellFormed_firstMessage
          wellFormed_replaceTask split: option.splits task.splits)
  next
    case (ClosureTimeout tid cached)
    then show ?thesis using w Pair
      by (auto simp add: closureTimer_fired_def wellFormed_closeTicket wellFormed_removeTask
          split: option.splits task.splits)
  next
    case (SendSettled tid res)
    then show ?thesis using w Pair
      by (auto simp add: wellFormed_handleChannelCreation_sent wellFormed_handleUserMessage_sent
          wellFormed_closeTicket_sent wellFormed_removeTask split: option.splits task.splits)
  next
    case (FetchSettled tid res)
    then show ?thesis using w Pair
      by (auto simp add: wellFormed_closeTicket_fetched wellFormed_removeTask
          split: option.splits task.splits)
  qed
qed

lemma wellFormed_run: "wellFormed s \<Longrightarrow> wellFormed (run cfg evs s)"
  unfolding run_def by (induction evs arbitrary: s) (auto simp add: wellFormed_step)

lemma wellFormed_TicketSender: "wellFormed TicketSender"
  by (simp add: wellFormed_def TicketSender_def)

lemma sameButLogs_refl: "sameButLogs s s"
  by (simp add: sameButLogs_def)

lemma sameButLogs_both: "sameButLogs a s \<Longrightarrow> sameButLogs b s \<Longrightarrow> sameButLogs a b"
  by (simp add: sameButLogs_def)

lemma merged_cong:
  "hasNewEvmAddress t1 = hasNewEvmAddress t2 \<Longrightarrow> merged t t1 atts = merged t t2 atts"
  by (simp add: merged_def)

lemma handleUserMessage_content_cong:
  assumes "hasNewEvmAddress t1 = hasNewEvmAddress t2"
  shows "sameButLogs (handleUserMessage cfg (m\<lparr>content := Some t1\<rparr>) s)
           (handleUserMessage cfg (m\<lparr>content := Some t2\<rparr>) s)"
proof (cases rule: handleUserMessage_branch [where m = "m\<lparr>content := Some t1\<rparr>" and s = s])
  case Bot
  then show ?thesis
    by (intro sameButLogs_both [OF handleUserMessage_bot handleUserMessage_bot]) simp_all
next
  case Untracked
  then show ?thesis
    by (intro sameButLogs_both [OF handleUserMessage_untracked handleUserMessage_untracked])
      simp_all
next
  case (Completed r t)
  then show ?thesis
    by (intro sameButLogs_both
        [OF handleUserMessage_not_awaiting [of _ _ r t] handleUserMessage_not_awaiting [of _ _ r t]])
      simp_all
next
  case (Missing r t)
  then show ?thesis
    using handleUserMessage_missing [of "m\<lparr>content := Some t1\<rparr>" s r t cfg]
      handleUserMessage_missing [of "m\<lparr>content := Some t2\<rparr>" s r t cfg]
    by (simp add: sameButLogs_refl)
next
  case (Evidence r t body atts)
  then have b: "body = t1" by simp
  have e1: "content (m\<lparr>content := Some t1\<rparr>) = Some t1" by simp
  have e2: "content (m\<lparr>content := Some t2\<rparr>) = Some t2" by simp
  note f1 = handleUserMessage_evidence [OF Evidence(1,2,3) e1 Evidence(5), of cfg]
  have "\<not> bot (message_author (m\<lparr>content := Some t2\<rparr>))"
    "getTicket s (message_channel_id (m\<lparr>content := Some t2\<rparr>)) = Some (r, t)"
    "attachments (m\<lparr>content := Some t2\<rparr>) = Some atts"
    using Evidence by simp_all
  note f2 = handleUserMessage_evidence [OF this(1,2) Evidence(3) e2 this(3), of cfg]
  show ?thesis
    unfolding sameButLogs_def f1 f2 merged_cong [OF assms] by simp
qed

subsection \<open>The address pattern\<close>

lemma matchHere_iff:
  "matchHere s = (\<exists>hx post. s = ''0x'' @ hx @ post \<and> length hx = 40 \<and> list_all hexChar hx)"
proof
  assume h: "matchHere s"
  let ?hx = "take 40 (drop 2 s)" and ?post = "drop 42 s"
  from h have a: "take 2 s = ''0x''" and b: "42 \<le> length s" and c: "list_all hexChar ?hx"
    by (simp_all add: matchHere_def)
  have "take 40 (drop 2 s) @ drop 42 s = drop 2 s"
    using append_take_drop_id [of 40 "drop 2 s"] by simp
  then have "take 2 s @ ?hx @ ?post = s" by simp
  with a have "s = ''0x'' @ ?hx @ ?post" by simp
  moreover have "length ?hx = 40" using b by simp
  ultimately show "\<exists>hx post. s = ''0x'' @ hx @ post \<and> length hx = 40 \<and> list_all hexChar hx"
    using c by blast
next
  assume "\<exists>hx post. s = ''0x'' @ hx @ post \<and> length hx = 40 \<and> list_all hexChar hx"
  then obtain hx post where "s = ''0x'' @ hx @ post" "length hx = 40" "list_all hexChar hx"
    by blast
  then show "matchHere s" by (simp add: matchHere_def)
qed

lemma matchAll_nonempty: "(matchAll s \<noteq> []) = (\<exists>i. matchHere (drop i s))"
proof (induction s rule: matchAll.induct)
  case 1
  show ?case by (simp add: matchHere_def)
next
  case (2 c cs)
  show ?case
  proof (cases "matchHere (c # cs)")
    case True
    then have "matchHere (drop 0 (c # cs))" by simp
    then have "\<exists>i. matchHere (drop i (c # cs))" by blast
    with True show ?thesis by simp
  next
    case False
    have "(\<exists>i. matchHere (drop i (c # cs))) = (\<exists>i. matchHere (drop i cs))"
    proof
      assume "\<exists>i. matchHere (drop i (c # cs))"
      then obtain i where i: "matchHere (drop i (c # cs))" ..
      with False have "i \<noteq> 0" by (cases i) auto
      then obtain j where "i = Suc j" by (cases i) auto
      with i show "\<exists>i. matchHere (drop i cs)" by auto
    next
      assume "\<exists>i. matchHere (drop i cs)"
      then obtain i where "matchHere (drop (Suc i) (c # cs))" by auto
      then show "\<exists>i. matchHere (drop i (c # cs))" by blast
    qed
    with False 2 show ?thesis by simp
  qed
qed

lemma hasNewEvmAddress_matchAll: "hasNewEvmAddress txt = (matchAll txt \<noteq> [])"
  by (simp add: hasNewEvmAddress_def evmAddressRegex_def split: list.splits)

lemma contains_address:
  "(\<exists>i. matchHere (drop i s)) =
   (\<exists>pre hx post. s = pre @ ''0x'' @ hx @ post \<and> length hx = 40 \<and> list_all hexChar hx)"
proof
  assume "\<exists>i. matchHere (drop i s)"
  then obtain i hx post where "drop i s = ''0x'' @ hx @ post" "length hx = 40" "list_all hexChar hx"
    unfolding matchHere_iff by blast
  moreover have "s = take i s @ drop i s" by simp
  ultimately have "s = take i s @ ''0x'' @ hx @ post \<and> length hx = 40 \<and> list_all hexChar hx"
    by simp
  then show "\<exists>pre hx post. s = pre @ ''0x'' @ hx @ post \<and> length hx = 40 \<and> list_all hexChar hx"
    by blast
next
  assume "\<exists>pre hx post. s = pre @ ''0x'' @ hx @ post \<and> length hx = 40 \<and> list_all hexChar hx"
  then obtain pre hx post where s: "s = pre @ ''0x'' @ hx @ post" and "length hx = 40" "list_all hexChar hx"
    by blast
  then have "matchHere (''0x'' @ hx @ post)" unfolding matchHere_iff by blast
  moreover have "drop (length pre) s = ''0x'' @ hx @ post" using s by simp
  ultimately show "\<exists>i. matchHere (drop i s)" by metis
qed


subsection \<open>The first message and the user tag\<close>

lemma extractUserTag_fst:
  "fst (extractUserTag cfg m s) =
     ''<@'' @ (case mentions_users m of [] \<Rightarrow> author_id (message_author m) | user # _ \<Rightarrow> user) @ ''>''"
  by (simp add: extractUserTag_def Let_def split: list.splits)

lemma extractUserTag_snd [simp]:
  "activeTickets (snd (extractUserTag cfg m s)) = activeTickets s"
  "heap (snd (extractUserTag cfg m s)) = heap s"
  "nextRef (snd (extractUserTag cfg m s)) = nextRef s"
  "pendingClosures (snd (extractUserTag cfg m s)) = pendingClosures s"
  "stats (snd (extractUserTag cfg m s)) = stats s"
  "sends (snd (extractUserTag cfg m s)) = sends s"
  "tasks (snd (extractUserTag cfg m s)) = tasks s"
  "nextTask (snd (extractUserTag cfg m s)) = nextTask s"
  by (simp_all add: extractUserTag_def Let_def split: list.splits)

lemma extractUserTag_logs:
  "count_list (logs (snd (extractUserTag cfg m s))) (INFO, msg) = count_list (logs s) (INFO, msg)"
  by (simp add: extractUserTag_def Let_def split: list.splits)

lemma firstMessage_fields [simp]:
  "activeTickets (handleChannelCreation_firstMessage cfg ch fm s) = activeTickets s"
  "heap (handleChannelCreation_firstMessage cfg ch fm s) = heap s"
  "nextRef (handleChannelCreation_firstMessage cfg ch fm s) = nextRef s"
  "pendingClosures (handleChannelCreation_firstMessage cfg ch fm s) = pendingClosures s"
  by (simp_all add: handleChannelCreation_firstMessage_def Let_def split_beta split: option.splits)

lemma firstMessage_greets:
  "content m = Some body \<Longrightarrow>
   handleChannelCreation_firstMessage cfg ch (Some m) s =
     suspend (InitialSend ch (fst (extractUserTag cfg m (log First_message_received INFO s))))
       (channel_send (channel_id ch)
          (INITIAL_MESSAGE (fst (extractUserTag cfg m (log First_message_received INFO s))))
          (log User_tag_extracted INFO
             (snd (extractUserTag cfg m (log First_message_received INFO s)))))"
  by (simp add: handleChannelCreation_firstMessage_def Let_def split_beta extractUserTag_fst)

lemma firstMessage_no_abort:
  "count_list (logs (handleChannelCreation_firstMessage cfg ch fm s)) (INFO, Could_not_extract_user_tag)
     = count_list (logs s) (INFO, Could_not_extract_user_tag)"
proof (cases fm)
  case None
  then show ?thesis by (simp add: handleChannelCreation_firstMessage_def)
next
  case (Some m)
  show ?thesis
  proof (cases "content m")
    case None
    with Some show ?thesis by (simp add: handleChannelCreation_firstMessage_def)
  next
    case (Some body)
    show ?thesis
      unfolding \<open>fm = Some m\<close> firstMessage_greets [OF Some]
      by (simp add: extractUserTag_logs)
  qed
qed

subsection \<open>The listeners of a messageCreate event\<close>

lemma messageHandler_fields [simp]:
  "activeTickets (messageHandler cfg tid s) = activeTickets s"
  "heap (messageHandler cfg tid s) = heap s"
  "nextRef (messageHandler cfg tid s) = nextRef s"
  "pendingClosures (messageHandler cfg tid s) = pendingClosures s"
  "stats (messageHandler cfg tid s) = stats s"
  "sends (messageHandler cfg tid s) = sends s"
  "tasks (messageHandler cfg tid s) = filter (\<lambda>p. fst p \<noteq> tid) (tasks s)"
  "nextTask (messageHandler cfg tid s) = nextTask s"
  by (simp_all add: messageHandler_def)

lemma fold_messageHandler_fields [simp]:
  "activeTickets (fold (\<lambda>l. messageHandler cfg (fst l)) ls s) = activeTickets s"
  "heap (fold (\<lambda>l. messageHandler cfg (fst l)) ls s) = heap s"
  "nextRef (fold (\<lambda>l. messageHandler cfg (fst l)) ls s) = nextRef s"
  "pendingClosures (fold (\<lambda>l. messageHandler cfg (fst l)) ls s) = pendingClosures s"
  "stats (fold (\<lambda>l. messageHandler cfg (fst l)) ls s) = stats s"
  "sends (fold (\<lambda>l. messageHandler cfg (fst l)) ls s) = sends s"
  "nextTask (fold (\<lambda>l. messageHandler cfg (fst l)) ls s) = nextTask s"
  by (induction ls arbitrary: s; simp)+

lemma fold_messageHandler_tasks:
  "tasks (fold (\<lambda>l. messageHandler cfg (fst l)) ls s) =
     filter (\<lambda>p. fst p \<notin> fst ` set ls) (tasks s)"
  by (induction ls arbitrary: s) (auto intro: filter_cong)

lemma resolveWait_fields [simp]:
  "activeTickets (resolveWait cfg m l s) = activeTickets s"
  "heap (resolveWait cfg m l s) = heap s"
  "nextRef (resolveWait cfg m l s) = nextRef s"
  "pendingClosures (resolveWait cfg m l s) = pendingClosures s"
  by (cases "(cfg, m, l, s)" rule: resolveWait.cases; simp)+

lemma fold_resolveWait_fields [simp]:
  "activeTickets (fold (resolveWait cfg m) ls s) = activeTickets s"
  "heap (fold (resolveWait cfg m) ls s) = heap s"
  "nextRef (fold (resolveWait cfg m) ls s) = nextRef s"
  "pendingClosures (fold (resolveWait cfg m) ls s) = pendingClosures s"
  by (induction ls arbitrary: s; simp)+

lemma emit_fields:
  "activeTickets (emit_messageCreate cfg m s) = activeTickets (handleUserMessage cfg m s)"
  "heap (emit_messageCreate cfg m s) = heap (handleUserMessage cfg m s)"
  "nextRef (emit_messageCreate cfg m s) = nextRef (handleUserMessage cfg m s)"
  "pendingClosures (emit_messageCreate cfg m s) = pendingClosures (handleUserMessage cfg m s)"
  by (simp_all add: emit_messageCreate_def Let_def)

lemma listening_FormSend [simp]: "\<not> listening cid (tid, FormSend r c)"
  by simp

lemma handleUserMessage_listeners:
  "filter (listening cid) (tasks (handleUserMessage cfg m s)) = filter (listening cid) (tasks s)"
proof (cases rule: handleUserMessage_branch [where m = m and s = s])
  case Bot
  then show ?thesis using handleUserMessage_bot [of m cfg s] by (simp add: sameButLogs_def)
next
  case Untracked
  then show ?thesis using handleUserMessage_untracked [of s m cfg] by (simp add: sameButLogs_def)
next
  case (Completed r t)
  then show ?thesis
    using handleUserMessage_not_awaiting [of s m r t cfg] by (simp add: sameButLogs_def)
next
  case (Missing r t)
  then show ?thesis using handleUserMessage_missing [of m s r t cfg] by simp
next
  case (Evidence r t body atts)
  show ?thesis unfolding handleUserMessage_evidence [OF Evidence, of cfg] by simp
qed

lemma emit_without_listeners:
  assumes "filter (listening (message_channel_id m)) (tasks s) = []"
  shows "emit_messageCreate cfg m s = handleUserMessage cfg m s"
  using assms by (simp add: emit_messageCreate_def Let_def handleUserMessage_listeners)

subsection \<open>Settlements\<close>

lemma handleUserMessage_sent_resolved:
  "heap (handleUserMessage_sent cfg now r cid (Resolved i) s) =
     (heap s)(r := map_option (\<lambda>t. t\<lparr>awaitingResponse := False, completedAt := Some now,
                                       formMessageId := Some i\<rparr>) (heap s r))"
  "activeTickets (handleUserMessage_sent cfg now r cid (Resolved i) s) = activeTickets s"
  "ticketsCompleted (stats (handleUserMessage_sent cfg now r cid (Resolved i) s)) =
     ticketsCompleted (stats s) + 1"
  "ticketsCreated (stats (handleUserMessage_sent cfg now r cid (Resolved i) s)) =
     ticketsCreated (stats s)"
  "sends (handleUserMessage_sent cfg now r cid (Resolved i) s) = sends s"
  by (simp_all add: handleUserMessage_sent_def Let_def)

lemma handleUserMessage_sent_tasks:
  "tasks (handleUserMessage_sent cfg now r cid (Resolved i) s) =
     tasks s @ (if validDate (now + closeTimeoutMs cfg)
                then [(nextTask s, ClosureTimer cid (now + timeoutDelay (closeTimeoutMs cfg)))]
                else [])"
  "nextTask (handleUserMessage_sent cfg now r cid (Resolved i) s) =
     (if validDate (now + closeTimeoutMs cfg) then Suc (nextTask s) else nextTask s)"
  by (simp_all add: handleUserMessage_sent_def Let_def)

lemma handleUserMessage_sent_scheduled:
  assumes "validDate (now + closeTimeoutMs cfg)"
  shows
    "stats (handleUserMessage_sent cfg now r cid (Resolved i) s) =
       (stats s)\<lparr>ticketsCompleted := ticketsCompleted (stats s) + 1\<rparr>"
    "tasks (handleUserMessage_sent cfg now r cid (Resolved i) s) =
       tasks s @ [(nextTask s, ClosureTimer cid (now + timeoutDelay (closeTimeoutMs cfg)))]"
    "nextTask (handleUserMessage_sent cfg now r cid (Resolved i) s) = Suc (nextTask s)"
    "logs (handleUserMessage_sent cfg now r cid (Resolved i) s) =
       logs s @ [(INFO, Form_message_sent), (INFO, Scheduling_automatic_closure)] @
       (if DEBUG_MODE cfg then [(DEBUG, Operation_completed ''handleUserMessage'')] else [])"
  using assms by (simp_all add: handleUserMessage_sent_def Let_def)

lemma handleUserMessage_sent_raised:
  assumes "\<not> validDate (now + closeTimeoutMs cfg)"
  shows
    "stats (handleUserMessage_sent cfg now r cid (Resolved i) s) =
       (stats s)\<lparr>ticketsCompleted := ticketsCompleted (stats s) + 1,
                 errors := errors (stats s) + 1\<rparr>"
    "tasks (handleUserMessage_sent cfg now r cid (Resolved i) s) = tasks s"
    "nextTask (handleUserMessage_sent cfg now r cid (Resolved i) s) = nextTask s"
    "logs (handleUserMessage_sent cfg now r cid (Resolved i) s) =
       logs s @ [(INFO, Form_message_sent), (ERROR, Failed_to_handle_user_message)] @
       (if DEBUG_MODE cfg then [(DEBUG, Operation_completed ''handleUserMessage'')] else [])"
  using assms by (simp_all add: handleUserMessage_sent_def Let_def)

lemma handleUserMessage_sent_rejected:
  "handleUserMessage_sent cfg now r cid Rejected s =
     timer_end cfg ''handleUserMessage'' (logError Failed_to_handle_user_message s)"
  by (simp add: handleUserMessage_sent_def)

lemma handleChannelCreation_sent_resolved:
  "heap (handleChannelCreation_sent cfg now ch tag (Resolved i) s) =
     (heap s)(nextRef s \<mapsto>
        \<lparr>channelId = channel_id ch, userTag = tag, createdAt = now, awaitingResponse = True,
         hasEvmAddress = False, hasImage = False, initialMessageId = i, completedAt = None,
         formMessageId = None\<rparr>)"
  "activeTickets (handleChannelCreation_sent cfg now ch tag (Resolved i) s) =
     (activeTickets s)(channel_id ch \<mapsto> nextRef s)"
  "nextRef (handleChannelCreation_sent cfg now ch tag (Resolved i) s) = Suc (nextRef s)"
  "stats (handleChannelCreation_sent cfg now ch tag (Resolved i) s) = stats s"
  "sends (handleChannelCreation_sent cfg now ch tag (Resolved i) s) = sends s"
  "tasks (handleChannelCreation_sent cfg now ch tag (Resolved i) s) = tasks s"
  "nextTask (handleChannelCreation_sent cfg now ch tag (Resolved i) s) = nextTask s"
  by (simp_all add: handleChannelCreation_sent_def Let_def)

lemma handleChannelCreation_sent_rejected:
  "handleChannelCreation_sent cfg now ch tag Rejected s =
     timer_end cfg ''handleChannelCreation'' (logError Failed_to_handle_channel_creation s)"
  by (simp add: handleChannelCreation_sent_def)

lemma closeTicket_fields:
  "activeTickets (closeTicket cfg cid cached s) = activeTickets s"
  "heap (closeTicket cfg cid cached s) = heap s"
  "stats (closeTicket cfg cid cached s) = stats s"
  "sends (closeTicket cfg cid cached s) = sends s @ (if cached then [(cid, CLOSE_COMMAND)] else [])"
  "tasks (closeTicket cfg cid cached s) =
     tasks s @ [(nextTask s, if cached then CloseSend cid else ChannelFetch cid)]"
  "nextTask (closeTicket cfg cid cached s) = Suc (nextTask s)"
  by (simp_all add: closeTicket_def Let_def)

lemma closeTicket_fetched_fields:
  "activeTickets (closeTicket_fetched cfg cid res s) = activeTickets s"
  "heap (closeTicket_fetched cfg cid res s) = heap s"
  "sends (closeTicket_fetched cfg cid res s) =
     sends s @ (if res = Resolved True then [(cid, CLOSE_COMMAND)] else [])"
  "tasks (closeTicket_fetched cfg cid res s) =
     tasks s @ (if res = Resolved True then [(nextTask s, CloseSend cid)] else [])"
  "nextTask (closeTicket_fetched cfg cid res s) =
     (if res = Resolved True then Suc (nextTask s) else nextTask s)"
  by (cases res; simp add: closeTicket_fetched_def)+

lemma closeTicket_sent_fields:
  "heap (closeTicket_sent cfg now cid res s) = heap s"
  "sends (closeTicket_sent cfg now cid res s) = sends s"
  "tasks (closeTicket_sent cfg now cid res s) = tasks s"
  "nextTask (closeTicket_sent cfg now cid res s) = nextTask s"
  "activeTickets (closeTicket_sent cfg now cid res s) =
     (case res of Rejected \<Rightarrow> activeTickets s | Resolved i \<Rightarrow> (activeTickets s)(cid := None))"
  by (cases res; simp add: closeTicket_sent_def Let_def)+

lemma handleChannelCreation_fields:
  "activeTickets (handleChannelCreation cfg ch s) = activeTickets s"
  "heap (handleChannelCreation cfg ch s) = heap s"
  "nextRef (handleChannelCreation cfg ch s) = nextRef s"
  "sends (handleChannelCreation cfg ch s) = sends s"
  "pendingClosures (handleChannelCreation cfg ch s) = pendingClosures s"
  "stats (handleChannelCreation cfg ch s) =
     (if notTargetCategory cfg ch then stats s
      else (stats s)\<lparr>ticketsCreated := ticketsCreated (stats s) + 1\<rparr>)"
  "tasks (handleChannelCreation cfg ch s) =
     tasks s @ (if notTargetCategory cfg ch then [] else [(nextTask s, FirstMessageWait ch)])"
  "nextTask (handleChannelCreation cfg ch s) =
     (if notTargetCategory cfg ch then nextTask s else Suc (nextTask s))"
  by (simp_all add: handleChannelCreation_def Let_def)

lemma firstMessage_tasks:
  "tasks (handleChannelCreation_firstMessage cfg ch fm s) =
     tasks s @ (case fm of None \<Rightarrow> []
                | Some m \<Rightarrow> (case content m of None \<Rightarrow> []
                    | Some body \<Rightarrow> [(nextTask s, InitialSend ch (fst (extractUserTag cfg m s)))]))"
  "nextTask (handleChannelCreation_firstMessage cfg ch fm s) =
     (case fm of None \<Rightarrow> nextTask s
      | Some m \<Rightarrow> (case content m of None \<Rightarrow> nextTask s | Some body \<Rightarrow> Suc (nextTask s)))"
  "sends (handleChannelCreation_firstMessage cfg ch fm s) =
     sends s @ (case fm of None \<Rightarrow> []
                | Some m \<Rightarrow> (case content m of None \<Rightarrow> []
                    | Some body \<Rightarrow>
                        [(channel_id ch, INITIAL_MESSAGE (fst (extractUserTag cfg m s)))]))"
  by (auto simp add: firstMessage_greets extractUserTag_fst split: option.splits)
     (simp_all add: handleChannelCreation_firstMessage_def)

lemma step_SendSettled_FormSend:
  "map_of (tasks s) tid = Some (FormSend r cid) \<Longrightarrow>
   step cfg (now, SendSettled tid res) s = handleUserMessage_sent cfg now r cid res (removeTask tid s)"
  by simp

lemma step_SendSettled_InitialSend:
  "map_of (tasks s) tid = Some (InitialSend ch tag) \<Longrightarrow>
   step cfg (now, SendSettled tid res) s =
     handleChannelCreation_sent cfg now ch tag res (removeTask tid s)"
  by simp

lemma step_ClosureTimeout:
  "map_of (tasks s) tid = Some (ClosureTimer cid due) \<Longrightarrow> due \<le> now \<Longrightarrow>
   step cfg (now, ClosureTimeout tid cached) s = closureTimer_fired cfg tid cid cached s"
  by simp

lemma step_ClosureTimeout_early:
  "map_of (tasks s) tid = Some (ClosureTimer cid due) \<Longrightarrow> \<not> due \<le> now \<Longrightarrow>
   step cfg (now, ClosureTimeout tid cached) s = s"
  by simp

lemma merged_awaiting [simp]:
  "awaitingResponse (merged t body atts) = awaitingResponse t"
  "completedAt (merged t body atts) = completedAt t"
  by (simp_all add: merged_def)

lemma merged_nothing: "merged t [] [] = t"
  by (simp add: merged_def hasNewEvmAddress_def evmAddressRegex_def hasNewImage_def)

lemma closureTimer_fired_fields:
  "sends (closureTimer_fired cfg tid cid cached s) =
     sends s @ (if cached then [(cid, CLOSE_COMMAND)] else [])"
  "tasks (closureTimer_fired cfg tid cid cached s) =
     filter (\<lambda>p. fst p \<noteq> tid) (tasks s) @
     [(nextTask s, if cached then CloseSend cid else ChannelFetch cid)]"
  "nextTask (closureTimer_fired cfg tid cid cached s) = Suc (nextTask s)"
  "heap (closureTimer_fired cfg tid cid cached s) = heap s"
  "activeTickets (closureTimer_fired cfg tid cid cached s) = activeTickets s"
  by (simp_all add: closureTimer_fired_def closeTicket_fields)

lemma wellFormed_fired:
  "wellFormed s \<Longrightarrow> wellFormed (closureTimer_fired cfg tid cid cached s)"
  by (simp add: closureTimer_fired_def wellFormed_closeTicket wellFormed_removeTask)

subsection \<open>Evidence is kept\<close>

lemma evidenceKept_refl [simp]: "evidenceKept t t"
  by (simp add: evidenceKept_def)

lemma evidenceKept_trans: "evidenceKept a b \<Longrightarrow> evidenceKept b c \<Longrightarrow> evidenceKept a c"
  by (simp add: evidenceKept_def)

lemma evidenceKept_merged [simp]: "evidenceKept t (merged t body atts)"
  by (simp add: evidenceKept_def merged_def)

lemma keepsEvidence_same: "heap s' = heap s \<Longrightarrow> keepsEvidence s s'"
  by (simp add: keepsEvidence_def)

lemma keepsEvidence_trans:
  "keepsEvidence a b \<Longrightarrow> keepsEvidence b c \<Longrightarrow> keepsEvidence a c"
  unfolding keepsEvidence_def by (meson evidenceKept_trans)

lemma keepsEvidence_handleUserMessage: "keepsEvidence s (handleUserMessage cfg m s)"
proof (cases rule: handleUserMessage_branch [where m = m and s = s])
  case Bot
  then show ?thesis
    using handleUserMessage_bot [of m cfg s] by (simp add: sameButLogs_def keepsEvidence_same)
next
  case Untracked
  then show ?thesis
    using handleUserMessage_untracked [of s m cfg]
    by (simp add: sameButLogs_def keepsEvidence_same)
next
  case (Completed r t)
  then show ?thesis
    using handleUserMessage_not_awaiting [of s m r t cfg]
    by (simp add: sameButLogs_def keepsEvidence_same)
next
  case (Missing r t)
  then show ?thesis
    using handleUserMessage_missing [of m s r t cfg] by (simp add: keepsEvidence_same)
next
  case (Evidence r t body atts)
  have "heap s r = Some t" using Evidence(2) by (simp add: getTicket_SomeD)
  then show ?thesis
    unfolding keepsEvidence_def handleUserMessage_evidence [OF Evidence, of cfg] by auto
qed

lemma keepsEvidence_handleUserMessage_sent:
  "keepsEvidence s (handleUserMessage_sent cfg now r cid res s)"
  by (cases res) (auto simp add: handleUserMessage_sent_def Let_def keepsEvidence_def
      evidenceKept_def)

lemma keepsEvidence_handleChannelCreation_sent:
  "wellFormed s \<Longrightarrow> keepsEvidence s (handleChannelCreation_sent cfg now ch tag res s)"
  by (cases res) (auto simp add: handleChannelCreation_sent_def Let_def keepsEvidence_def
      wellFormed_def)

lemma keepsEvidence_step:
  assumes w: "wellFormed s" shows "keepsEvidence s (step cfg ev s)"
proof (cases ev)
  case (Pair now e)
  show ?thesis
  proof (cases e)
    case (ChannelCreate ch)
    then show ?thesis using Pair
      by (auto simp add: handleChannelCreation_def Let_def intro!: keepsEvidence_same)
  next
    case (MessageCreate m)
    have "heap (step cfg ev s) = heap (handleUserMessage cfg m s)"
      using Pair MessageCreate by (simp add: emit_fields)
    then show ?thesis
      using keepsEvidence_handleUserMessage [of s cfg m] by (simp add: keepsEvidence_def)
  next
    case (FirstMessageTimeout tid)
    then show ?thesis using Pair
      by (auto simp add: waitForFirstMessage_timeout_def intro!: keepsEvidence_same
          split: option.splits task.splits)
  next
    case (ClosureTimeout tid cached)
    then show ?thesis using Pair
      by (auto simp add: closureTimer_fired_def closeTicket_def Let_def intro!: keepsEvidence_same
          split: option.splits task.splits)
  next
    case (SendSettled tid res)
    have r: "keepsEvidence s (removeTask tid s)" by (simp add: keepsEvidence_same)
    have c: "keepsEvidence (removeTask tid s) (closeTicket_sent cfg now cid res (removeTask tid s))"
      for cid
      by (cases res) (simp_all add: closeTicket_sent_def Let_def keepsEvidence_same)
    show ?thesis using Pair SendSettled w
      by (auto split: option.splits task.splits
          intro: keepsEvidence_same keepsEvidence_trans [OF r keepsEvidence_handleUserMessage_sent]
            keepsEvidence_trans [OF r c]
            keepsEvidence_trans [OF r keepsEvidence_handleChannelCreation_sent]
            wellFormed_removeTask)
  next
    case (FetchSettled tid res)
    then show ?thesis using Pair
      by (cases res) (auto simp add: closeTicket_fetched_def intro!: keepsEvidence_same
          split: option.splits task.splits)
  qed
qed

lemma keepsEvidence_run: "wellFormed s \<Longrightarrow> keepsEvidence s (run cfg evs s)"
proof (induction evs arbitrary: s)
  case Nil
  then show ?case by (simp add: run_def keepsEvidence_same)
next
  case (Cons ev evs)
  have "keepsEvidence (step cfg ev s) (run cfg evs (step cfg ev s))"
    using Cons by (simp add: wellFormed_step)
  then show ?case
    using keepsEvidence_step [OF Cons.prems, of cfg ev]
    by (auto simp add: run_def intro: keepsEvidence_trans)
qed

lemma run_append: "run cfg (evs @ evs') s = run cfg evs' (run cfg evs s)"
  by (simp add: run_def)

lemma handleUserMessage_activeTickets:
  "activeTickets (handleUserMessage cfg m s) = activeTickets s"
proof (cases rule: handleUserMessage_branch [where m = m and s = s])
  case Bot
  then show ?thesis using handleUserMessage_bot [of m cfg s] by (simp add: sameButLogs_def)
next
  case Untracked
  then show ?thesis using handleUserMessage_untracked [of s m cfg] by (simp add: sameButLogs_def)
next
  case (Completed r t)
  then show ?thesis
    using handleUserMessage_not_awaiting [of s m r t cfg] by (simp add: sameButLogs_def)
next
  case (Missing r t)
  then show ?thesis using handleUserMessage_missing [of m s r t cfg] by simp
next
  case (Evidence r t body atts)
  show ?thesis by (rule handleUserMessage_evidence [OF Evidence])
qed

lemma run_onlyMessages:
  "onlyMessages evs \<Longrightarrow> activeTickets (run cfg evs s) = activeTickets s"
proof (induction evs arbitrary: s)
  case Nil
  show ?case by (simp add: run_def)
next
  case (Cons ev evs)
  obtain now e where ev: "ev = (now, e)" by (cases ev)
  from Cons.prems obtain m where e: "e = MessageCreate m"
    by (cases e) (simp_all add: onlyMessages_def ev)
  have "onlyMessages evs" using Cons.prems by (simp add: onlyMessages_def)
  then have "activeTickets (run cfg evs (step cfg ev s)) = activeTickets (step cfg ev s)"
    by (rule Cons.IH)
  also have "\<dots> = activeTickets s"
    by (simp add: ev e emit_fields handleUserMessage_activeTickets)
  finally show ?case by (simp add: run_def)
qed

lemma wellFormed_reached: "wellFormed (run cfg evs TicketSender)"
  by (simp add: wellFormed_run wellFormed_TicketSender)

subsection \<open>Suspended handlers over a step\<close>

lemma grows_refl: "grows s s"
  by (simp add: grows_def)

lemma grows_same: "tasks s' = tasks s \<Longrightarrow> nextTask s' = nextTask s \<Longrightarrow> grows s s'"
  by (simp add: grows_def)

lemma grows_trans:
  assumes "grows a b" and "grows b c" shows "grows a c"
proof -
  have n: "nextTask a \<le> nextTask b" "nextTask b \<le> nextTask c"
    using assms by (simp_all add: grows_def)
  have "fst p \<in> fst ` set (tasks a) \<or> nextTask a \<le> fst p" if "p \<in> set (tasks c)" for p
  proof -
    from that assms(2) consider "fst p \<in> fst ` set (tasks b)" | "nextTask b \<le> fst p"
      unfolding grows_def by blast
    then show ?thesis
    proof cases
      case 1
      then obtain q where "q \<in> set (tasks b)" "fst q = fst p" by auto
      then show ?thesis using assms(1) unfolding grows_def by metis
    next
      case 2
      then show ?thesis using n by simp
    qed
  qed
  then show ?thesis using n by (simp add: grows_def)
qed

lemma grows_fold:
  assumes "\<And>x s. grows s (f x s)" shows "grows s (fold f xs s)"
proof (induction xs arbitrary: s)
  case Nil
  show ?case by (simp add: grows_refl)
next
  case (Cons x xs)
  have "grows s (f x s)" by (rule assms)
  moreover have "grows (f x s) (fold f xs (f x s))" by (rule Cons.IH)
  ultimately show ?case by (simp add: grows_trans)
qed

lemma grows_handleUserMessage: "grows s (handleUserMessage cfg m s)"
proof (cases rule: handleUserMessage_branch [where m = m and s = s])
  case Bot
  then show ?thesis
    using handleUserMessage_bot [of m cfg s] by (simp add: sameButLogs_def grows_same)
next
  case Untracked
  then show ?thesis
    using handleUserMessage_untracked [of s m cfg] by (simp add: sameButLogs_def grows_same)
next
  case (Completed r t)
  then show ?thesis
    using handleUserMessage_not_awaiting [of s m r t cfg] by (simp add: sameButLogs_def grows_same)
next
  case (Missing r t)
  then show ?thesis using handleUserMessage_missing [of m s r t cfg] by (simp add: grows_same)
next
  case (Evidence r t body atts)
  show ?thesis unfolding grows_def handleUserMessage_evidence [OF Evidence, of cfg] by auto
qed

lemma grows_append:
  "tasks s' = tasks s @ new \<Longrightarrow> nextTask s \<le> nextTask s' \<Longrightarrow>
   (\<And>p. p \<in> set new \<Longrightarrow> nextTask s \<le> fst p) \<Longrightarrow> grows s s'"
  unfolding grows_def by auto

lemma grows_firstMessage: "grows s (handleChannelCreation_firstMessage cfg ch fm s)"
  by (rule grows_append [OF firstMessage_tasks(1)])
    (auto simp add: firstMessage_tasks(2) split: option.splits)

lemma grows_resolveWait: "grows s (resolveWait cfg m l s)"
  by (cases "(cfg, m, l, s)" rule: resolveWait.cases) (auto intro: grows_firstMessage grows_refl)

lemma grows_messageHandler: "grows s (messageHandler cfg tid s)"
  by (auto simp add: grows_def)

lemma grows_emit: "grows s (emit_messageCreate cfg m s)"
proof -
  let ?s1 = "handleUserMessage cfg m s"
  let ?ls = "filter (listening (message_channel_id m)) (tasks ?s1)"
  let ?s2 = "fold (\<lambda>l. messageHandler cfg (fst l)) ?ls ?s1"
  have "grows s ?s1" by (rule grows_handleUserMessage)
  moreover have "grows ?s1 ?s2" by (rule grows_fold) (rule grows_messageHandler)
  moreover have "grows ?s2 (fold (resolveWait cfg m) ?ls ?s2)"
    by (rule grows_fold) (rule grows_resolveWait)
  ultimately show ?thesis
    unfolding emit_messageCreate_def Let_def by (blast intro: grows_trans)
qed

lemma grows_removeTask: "grows s (removeTask tid s)"
  by (auto simp add: grows_def)

lemma grows_settled:
  "grows s (handleChannelCreation_sent cfg now ch tag res s)"
  "grows s (handleUserMessage_sent cfg now r cid res s)"
  "grows s (closeTicket_sent cfg now cid res s)"
  "grows s (closeTicket_fetched cfg cid fres s)"
  "grows s (closeTicket cfg cid cached s)"
proof -
  show "grows s (handleChannelCreation_sent cfg now ch tag res s)"
    by (cases res)
      (simp_all add: grows_same handleChannelCreation_sent_resolved
        handleChannelCreation_sent_rejected)
  show "grows s (handleUserMessage_sent cfg now r cid res s)"
  proof (cases res)
    case (Resolved i)
    show ?thesis unfolding Resolved
      by (rule grows_append
          [where new = "if validDate (now + closeTimeoutMs cfg)
             then [(nextTask s, ClosureTimer cid (now + timeoutDelay (closeTimeoutMs cfg)))]
             else []"])
        (simp_all add: handleUserMessage_sent_tasks split: if_splits)
  next
    case Rejected
    then show ?thesis by (simp add: grows_same handleUserMessage_sent_rejected)
  qed
  show "grows s (closeTicket_sent cfg now cid res s)"
    by (simp add: grows_same closeTicket_sent_fields)
  show "grows s (closeTicket_fetched cfg cid fres s)"
    by (rule grows_append
        [where new = "if fres = Resolved True then [(nextTask s, CloseSend cid)] else []"])
      (simp_all add: closeTicket_fetched_fields split: if_splits)
  show "grows s (closeTicket cfg cid cached s)"
    by (rule grows_append
        [where new = "[(nextTask s, if cached then CloseSend cid else ChannelFetch cid)]"])
      (simp_all add: closeTicket_fields)
qed

lemma grows_replaceTask: "grows s (replaceTask tid t s)"
proof -
  have "fst p \<in> fst ` set (tasks s)" if "p \<in> set (tasks (replaceTask tid t s))" for p
  proof -
    from that have "p \<in> (\<lambda>q. if fst q = tid then (tid, t) else q) ` set (tasks s)"
      by simp
    then obtain q where q: "q \<in> set (tasks s)" "p = (if fst q = tid then (tid, t) else q)"
      by (rule imageE)
    then have "fst p = fst q" by simp
    with q(1) show ?thesis by (metis imageI)
  qed
  then show ?thesis by (simp add: grows_def)
qed

lemma grows_timeout: "grows s (waitForFirstMessage_timeout cfg tid ch s)"
proof -
  let ?s1 = "replaceTask tid (FirstMessageListener ch) s"
  let ?s2 = "log Timeout_waiting_for_first_message INFO ?s1"
  have "grows s ?s1" by (rule grows_replaceTask)
  moreover have "grows ?s1 ?s2" by (simp add: grows_same)
  moreover have "grows ?s2 (handleChannelCreation_firstMessage cfg ch None ?s2)"
    by (rule grows_firstMessage)
  ultimately show ?thesis
    unfolding waitForFirstMessage_timeout_def by (blast intro: grows_trans)
qed

lemma grows_fired: "grows s (closureTimer_fired cfg tid cid cached s)"
proof -
  let ?s1 = "removeTask tid s"
  let ?s2 = "log Executing_scheduled_closure INFO ?s1"
  have "grows s ?s1" by (rule grows_removeTask)
  moreover have "grows ?s1 ?s2" by (simp add: grows_same)
  moreover have "grows ?s2 (closeTicket cfg cid cached ?s2)" by (rule grows_settled)
  ultimately show ?thesis
    unfolding closureTimer_fired_def by (blast intro: grows_trans)
qed

lemma grows_step: "grows s (step cfg ev s)"
proof (cases ev)
  case (Pair now e)
  show ?thesis
  proof (cases e)
    case (ChannelCreate ch)
    have "grows s (handleChannelCreation cfg ch s)"
      by (rule grows_append [OF handleChannelCreation_fields(7)])
        (auto simp add: handleChannelCreation_fields(8) split: if_splits)
    then show ?thesis using Pair ChannelCreate by simp
  next
    case (MessageCreate m)
    then show ?thesis using Pair by (simp add: grows_emit)
  next
    case (FirstMessageTimeout tid)
    then show ?thesis using Pair
      by (simp add: grows_refl grows_timeout split: option.splits task.splits)
  next
    case (ClosureTimeout tid cached)
    then show ?thesis using Pair
      by (simp add: grows_refl grows_fired split: option.splits task.splits)
  next
    case (SendSettled tid res)
    note t = grows_trans [OF grows_removeTask [of s tid]]
    show ?thesis unfolding Pair SendSettled
      by (simp add: grows_refl t [OF grows_settled(1)] t [OF grows_settled(2)]
          t [OF grows_settled(3)] split: option.splits task.splits)
  next
    case (FetchSettled tid res)
    note t = grows_trans [OF grows_removeTask [of s tid]]
    show ?thesis unfolding Pair FetchSettled
      by (simp add: grows_refl t [OF grows_settled(4)] split: option.splits task.splits)
  qed
qed

lemma grows_run: "grows s (run cfg evs s)"
proof (induction evs arbitrary: s)
  case Nil
  show ?case by (simp add: run_def grows_refl)
next
  case (Cons ev evs)
  have "grows s (step cfg ev s)" by (rule grows_step)
  moreover have "grows (step cfg ev s) (run cfg evs (step cfg ev s))" by (rule Cons.IH)
  ultimately show ?case by (simp add: run_def grows_trans)
qed

lemma spent_timer:
  assumes "wellFormed s" "tid < nextTask s" "tid \<notin> fst ` set (tasks s)"
  shows "step cfg (now, ClosureTimeout tid cached) (run cfg evs s) = run cfg evs s"
proof -
  have "grows s (run cfg evs s)" by (rule grows_run)
  then have "tid \<notin> fst ` set (tasks (run cfg evs s))"
    using assms(2,3) unfolding grows_def by (metis imageE not_le)
  then have "map_of (tasks (run cfg evs s)) tid = None"
    by (simp add: map_of_eq_None_iff)
  then show ?thesis by simp
qed

lemma handleUserMessage_tasks_subset:
  "set (tasks s) \<subseteq> set (tasks (handleUserMessage cfg m s))"
proof (cases rule: handleUserMessage_branch [where m = m and s = s])
  case Bot
  then show ?thesis using handleUserMessage_bot [of m cfg s] by (simp add: sameButLogs_def)
next
  case Untracked
  then show ?thesis using handleUserMessage_untracked [of s m cfg] by (simp add: sameButLogs_def)
next
  case (Completed r t)
  then show ?thesis
    using handleUserMessage_not_awaiting [of s m r t cfg] by (simp add: sameButLogs_def)
next
  case (Missing r t)
  then show ?thesis using handleUserMessage_missing [of m s r t cfg] by simp
next
  case (Evidence r t body atts)
  show ?thesis unfolding handleUserMessage_evidence [OF Evidence, of cfg] by auto
qed

lemma resolveWait_tasks_subset: "set (tasks s) \<subseteq> set (tasks (resolveWait cfg m l s))"
  by (cases "(cfg, m, l, s)" rule: resolveWait.cases) (auto simp add: firstMessage_tasks)

lemma fold_resolveWait_tasks_subset:
  "set (tasks s) \<subseteq> set (tasks (fold (resolveWait cfg m) ls s))"
proof (induction ls arbitrary: s)
  case Nil
  show ?case by simp
next
  case (Cons l ls)
  show ?case using resolveWait_tasks_subset [of s cfg m l] Cons [of "resolveWait cfg m l s"]
    by auto
qed

lemma resolveWait_new_tasks:
  "p \<in> set (tasks (resolveWait cfg m l s)) \<Longrightarrow>
   p \<in> set (tasks s) \<or> (\<exists>ch tag. snd p = InitialSend ch tag)"
  by (cases "(cfg, m, l, s)" rule: resolveWait.cases)
    (auto simp add: firstMessage_tasks split: option.splits)

lemma fold_resolveWait_new_tasks:
  "p \<in> set (tasks (fold (resolveWait cfg m) ls s)) \<Longrightarrow>
   p \<in> set (tasks s) \<or> (\<exists>ch tag. snd p = InitialSend ch tag)"
proof (induction ls arbitrary: s)
  case Nil
  then show ?case by simp
next
  case (Cons l ls)
  from Cons.prems have "p \<in> set (tasks (fold (resolveWait cfg m) ls (resolveWait cfg m l s)))"
    by simp
  then have "p \<in> set (tasks (resolveWait cfg m l s)) \<or> (\<exists>ch tag. snd p = InitialSend ch tag)"
    by (rule Cons.IH)
  then show ?case using resolveWait_new_tasks by blast
qed

lemma emit_resolves_wait:
  assumes "channel_id ch = message_channel_id m"
  shows "(tid, FirstMessageWait ch) \<notin> set (tasks (emit_messageCreate cfg m s))"
proof
  let ?s1 = "handleUserMessage cfg m s"
  let ?ls = "filter (listening (message_channel_id m)) (tasks ?s1)"
  let ?s2 = "fold (\<lambda>l. messageHandler cfg (fst l)) ?ls ?s1"
  assume "(tid, FirstMessageWait ch) \<in> set (tasks (emit_messageCreate cfg m s))"
  then have "(tid, FirstMessageWait ch) \<in> set (tasks (fold (resolveWait cfg m) ?ls ?s2))"
    by (simp add: emit_messageCreate_def Let_def)
  then have "(tid, FirstMessageWait ch) \<in> set (tasks ?s2)"
    using fold_resolveWait_new_tasks by fastforce
  then have in1: "(tid, FirstMessageWait ch) \<in> set (tasks ?s1)" and out: "tid \<notin> fst ` set ?ls"
    by (simp_all add: fold_messageHandler_tasks)
  from in1 assms have "(tid, FirstMessageWait ch) \<in> set ?ls" by simp
  then have "tid \<in> fst ` set ?ls" by (metis fst_conv imageI)
  with out show False by contradiction
qed

lemma emit_keeps_task:
  assumes w: "wellFormed s" and p: "(tid, t) \<in> set (tasks s)"
    and nl: "\<not> listening (message_channel_id m) (tid, t)"
  shows "(tid, t) \<in> set (tasks (emit_messageCreate cfg m s))"
proof -
  let ?s1 = "handleUserMessage cfg m s"
  let ?ls = "filter (listening (message_channel_id m)) (tasks ?s1)"
  let ?s2 = "fold (\<lambda>l. messageHandler cfg (fst l)) ?ls ?s1"
  have p1: "(tid, t) \<in> set (tasks ?s1)" using p handleUserMessage_tasks_subset by blast
  have d: "distinct (map fst (tasks ?s1))"
    using wellFormed_handleUserMessage [OF w, of cfg m] by (simp add: wellFormed_def)
  have "tid \<notin> fst ` set ?ls"
  proof
    assume "tid \<in> fst ` set ?ls"
    then obtain x where x: "(tid, x) \<in> set (tasks ?s1)" "listening (message_channel_id m) (tid, x)"
      by auto
    from d x(1) p1 have "x = t" by (rule eq_key_imp_eq_value)
    with x(2) nl show False by simp
  qed
  with p1 have "(tid, t) \<in> set (tasks ?s2)" by (simp add: fold_messageHandler_tasks)
  then have "(tid, t) \<in> set (tasks (fold (resolveWait cfg m) ?ls ?s2))"
    using fold_resolveWait_tasks_subset by blast
  then show ?thesis by (simp add: emit_messageCreate_def Let_def)
qed

lemma map_of_pending:
  "wellFormed s \<Longrightarrow> (tid, t) \<in> set (tasks s) \<Longrightarrow> map_of (tasks s) tid = Some t"
  by (simp add: wellFormed_def)

lemma step_keeps_timer:
  assumes w: "wellFormed s" and p: "(tid, ClosureTimer cid due) \<in> set (tasks s)"
    and e: "\<And>cached. e \<noteq> ClosureTimeout tid cached"
  shows "(tid, ClosureTimer cid due) \<in> set (tasks (step cfg (now, e) s))"
proof -
  note m = map_of_pending [OF w p]
  have other: "(tid, ClosureTimer cid due) \<in> set (tasks (removeTask tid' s))"
    if "tid' \<noteq> tid" for tid'
    using p that by simp
  show ?thesis
  proof (cases e)
    case (ChannelCreate ch)
    then show ?thesis using p by (simp add: handleChannelCreation_fields)
  next
    case (MessageCreate msg)
    then show ?thesis using emit_keeps_task [OF w p] by simp
  next
    case (FirstMessageTimeout tid')
    show ?thesis
    proof (cases "tid' = tid")
      case True
      then show ?thesis using FirstMessageTimeout m p by simp
    next
      case False
      then have "(tid, ClosureTimer cid due)
          \<in> set (tasks (replaceTask tid' t s))" for t
        using p by (auto simp add: image_iff intro!: bexI [of _ "(tid, ClosureTimer cid due)"])
      then show ?thesis using FirstMessageTimeout p
        by (simp add: waitForFirstMessage_timeout_def firstMessage_tasks
            split: option.splits task.splits)
    qed
  next
    case (ClosureTimeout tid' cached)
    then have "tid' \<noteq> tid" using e by blast
    then show ?thesis using ClosureTimeout p other
      by (simp add: closureTimer_fired_def closeTicket_fields split: option.splits task.splits)
  next
    case (SendSettled tid' res)
    show ?thesis
    proof (cases "tid' = tid")
      case True
      then show ?thesis using SendSettled m p by simp
    next
      case False
      then show ?thesis using SendSettled p other
        by (cases res)
          (simp_all add: handleChannelCreation_sent_resolved handleChannelCreation_sent_rejected
            handleUserMessage_sent_tasks handleUserMessage_sent_rejected
            closeTicket_sent_fields split: option.splits task.splits)
    qed
  next
    case (FetchSettled tid' res)
    show ?thesis
    proof (cases "tid' = tid")
      case True
      then show ?thesis using FetchSettled m p by simp
    next
      case False
      then show ?thesis using FetchSettled p other
        by (simp add: closeTicket_fetched_fields split: option.splits task.splits)
    qed
  qed
qed

lemma resolveWait_sends:
  "count_list (sends s) g \<le> count_list (sends (resolveWait cfg m l s)) g"
  by (cases "(cfg, m, l, s)" rule: resolveWait.cases)
    (simp_all add: firstMessage_tasks split: option.splits)

lemma fold_resolveWait_sends:
  "count_list (sends s) g \<le> count_list (sends (fold (resolveWait cfg m) ls s)) g"
proof (induction ls arbitrary: s)
  case Nil
  show ?case by simp
next
  case (Cons l ls)
  show ?case
    using resolveWait_sends [of s g cfg m l] Cons [of "resolveWait cfg m l s"] by simp
qed

lemma fold_resolveWait_greets:
  assumes "(tid, FirstMessageWait ch) \<in> set ls" and "content m = Some body"
  shows "count_list (sends s) (channel_id ch, INITIAL_MESSAGE (fst (extractUserTag cfg m s')))
     < count_list (sends (fold (resolveWait cfg m) ls s))
         (channel_id ch, INITIAL_MESSAGE (fst (extractUserTag cfg m s')))"
  using assms(1)
proof (induction ls arbitrary: s)
  case Nil
  then show ?case by simp
next
  case (Cons l ls)
  let ?g = "(channel_id ch, INITIAL_MESSAGE (fst (extractUserTag cfg m s')))"
  show ?case
  proof (cases "l = (tid, FirstMessageWait ch)")
    case True
    have "count_list (sends (resolveWait cfg m l s)) ?g = Suc (count_list (sends s) ?g)"
      unfolding True using assms(2) by (simp add: firstMessage_tasks extractUserTag_fst)
    then show ?thesis
      using fold_resolveWait_sends [of "resolveWait cfg m l s" ?g cfg m ls] by simp
  next
    case False
    then have "(tid, FirstMessageWait ch) \<in> set ls" using Cons.prems by simp
    then have "count_list (sends (resolveWait cfg m l s)) ?g
        < count_list (sends (fold (resolveWait cfg m) ls (resolveWait cfg m l s))) ?g"
      by (rule Cons.IH)
    then show ?thesis using resolveWait_sends [of s ?g cfg m l] by simp
  qed
qed

lemma handleUserMessage_sends:
  "count_list (sends s) g \<le> count_list (sends (handleUserMessage cfg m s)) g"
proof (cases rule: handleUserMessage_branch [where m = m and s = s])
  case Bot
  then show ?thesis using handleUserMessage_bot [of m cfg s] by (simp add: sameButLogs_def)
next
  case Untracked
  then show ?thesis using handleUserMessage_untracked [of s m cfg] by (simp add: sameButLogs_def)
next
  case (Completed r t)
  then show ?thesis
    using handleUserMessage_not_awaiting [of s m r t cfg] by (simp add: sameButLogs_def)
next
  case (Missing r t)
  then show ?thesis using handleUserMessage_missing [of m s r t cfg] by simp
next
  case (Evidence r t body atts)
  show ?thesis unfolding handleUserMessage_evidence [OF Evidence, of cfg] by simp
qed

lemma emit_greets:
  assumes p: "(tid, FirstMessageWait ch) \<in> set (tasks s)"
    and c: "channel_id ch = message_channel_id m" and b: "content m = Some body"
  shows "count_list (sends s) (channel_id ch, INITIAL_MESSAGE (fst (extractUserTag cfg m s)))
     < count_list (sends (emit_messageCreate cfg m s))
         (channel_id ch, INITIAL_MESSAGE (fst (extractUserTag cfg m s)))"
proof -
  let ?g = "(channel_id ch, INITIAL_MESSAGE (fst (extractUserTag cfg m s)))"
  let ?s1 = "handleUserMessage cfg m s"
  let ?ls = "filter (listening (message_channel_id m)) (tasks ?s1)"
  let ?s2 = "fold (\<lambda>l. messageHandler cfg (fst l)) ?ls ?s1"
  have "(tid, FirstMessageWait ch) \<in> set ?ls"
    using p c handleUserMessage_tasks_subset [of s cfg m] by auto
  then have "count_list (sends ?s2) ?g < count_list (sends (fold (resolveWait cfg m) ?ls ?s2)) ?g"
    using b by (rule fold_resolveWait_greets)
  moreover have "count_list (sends s) ?g \<le> count_list (sends ?s2) ?g"
    using handleUserMessage_sends [of s ?g cfg m] by simp
  ultimately show ?thesis by (simp add: emit_messageCreate_def Let_def)
qed

lemma run_keeps_timer:
  "wellFormed s \<Longrightarrow> (tid, ClosureTimer cid due) \<in> set (tasks s) \<Longrightarrow> neverFires tid evs \<Longrightarrow>
   (tid, ClosureTimer cid due) \<in> set (tasks (run cfg evs s))"
proof (induction evs arbitrary: s)
  case Nil
  then show ?case by (simp add: run_def)
next
  case (Cons ev evs)
  obtain now e where ev: "ev = (now, e)" by (cases ev)
  have "e \<noteq> ClosureTimeout tid cached" for cached
    using Cons.prems(3) by (auto simp add: neverFires_def ev)
  then have k: "(tid, ClosureTimer cid due) \<in> set (tasks (step cfg ev s))"
    unfolding ev by (rule step_keeps_timer [OF Cons.prems(1,2)])
  have "wellFormed (step cfg ev s)" using Cons.prems(1) by (rule wellFormed_step)
  moreover note k
  moreover have "neverFires tid evs" using Cons.prems(3) by (simp add: neverFires_def)
  ultimately have "(tid, ClosureTimer cid due) \<in> set (tasks (run cfg evs (step cfg ev s)))"
    by (rule Cons.IH)
  then show ?case by (simp add: run_def)
qed

subsection \<open>The example executions\<close>

text \<open>The definitions that evaluate an execution of concrete events.\<close>

lemmas eval_defs =
  run_def cfg0_def ticketChannel_def userMessage_def botMessage_def userU_def ticketBot_def
  screenshot_def evmAddress_def TicketSender_def
  handleChannelCreation_def notTargetCategory_def log_def debug_def timer_end_def suspend_def
  emit_messageCreate_def handleUserMessage_def getTicket_def messageHandler_def removeTask_def
  replaceTask_def handleChannelCreation_firstMessage_def extractUserTag_def channel_send_def
  logError_def handleChannelCreation_sent_def hasNewEvmAddress_def evmAddressRegex_def
  matchHere_def hexChar_def hasNewImage_def isImage_def handleUserMessage_sent_def
  waitForFirstMessage_timeout_def closureTimer_fired_def closeTicket_def closeTicket_fetched_def
  closeTicket_sent_def validDate_def timeoutDelay_def Let_def

lemmas trace_defs = evidenceMessage_def thanksMessage_def addressMessage_def openTicket_def

lemmas after_greeted =
  evidenceSent_def completed_def rejectedFollowUp_def overlapping_def overlappingFirstClosed_def
  overlappingClosed_def fetchRejected_def fetchEmpty_def closeRejected_def addressGiven_def
  secondCreate_def secondGreeting_def createdTwice_def missingContent_def
  completedCreate_def completedGreeting_def completedReplaced_def closedEarly_def

lemma waiting_state:
  "tasks (run cfg0 waiting TicketSender) = [(0, FirstMessageWait ticketChannel)]"
  "sends (run cfg0 waiting TicketSender) = []"
  by (simp_all add: waiting_def eval_defs)

lemma greeted_state:
  "run cfg0 greeted TicketSender =
     \<lparr>activeTickets = [''c1'' \<mapsto> 0], heap = [0 \<mapsto> openTicket], nextRef = 1,
      pendingClosures = Map.empty,
      stats = \<lparr>ticketsCreated = 1, ticketsCompleted = 0, ticketsClosed = 0,
               slashCommandsExecuted = 0, errors = 0\<rparr>,
      logs = [(INFO, TicketSender_initialized), (INFO, Channel_created),
              (INFO, Processing_new_ticket_channel), (INFO, First_message_received),
              (INFO, User_tag_extracted), (INFO, Initial_automated_message_sent),
              (INFO, Ticket_tracked_successfully)],
      sends = [(''c1'', INITIAL_MESSAGE ''<@U>'')], tasks = [], nextTask = 2\<rparr>"
  by (simp add: greeted_def waiting_def openTicket_def eval_defs)

lemma greeted_getTicket:
  "getTicket (run cfg0 greeted TicketSender) ''c1'' = Some (0, openTicket)"
  by (simp add: greeted_state getTicket_def)

lemma evidenceSent_state:
  "tasks (run cfg0 evidenceSent TicketSender) = [(2, FormSend 0 ''c1'')]"
  "nextTask (run cfg0 evidenceSent TicketSender) = 3"
  "heap (run cfg0 evidenceSent TicketSender) 0 =
     Some (openTicket\<lparr>hasEvmAddress := True, hasImage := True\<rparr>)"
  "sends (run cfg0 evidenceSent TicketSender) =
     [(''c1'', INITIAL_MESSAGE ''<@U>''), (''c1'', FORM_MESSAGE)]"
  "ticketsCompleted (stats (run cfg0 evidenceSent TicketSender)) = 0"
  unfolding after_greeted run_append greeted_state
  by (simp_all add: eval_defs trace_defs)

lemma completed_state:
  "tasks (run cfg0 completed TicketSender) = [(3, ClosureTimer ''c1'' 3605200)]"
  "getTicket (run cfg0 completed TicketSender) ''c1'' =
     Some (0, openTicket\<lparr>hasEvmAddress := True, hasImage := True, awaitingResponse := False,
                        completedAt := Some 5200, formMessageId := Some ''f1''\<rparr>)"
  "sends (run cfg0 completed TicketSender) =
     [(''c1'', INITIAL_MESSAGE ''<@U>''), (''c1'', FORM_MESSAGE)]"
  "nextTask (run cfg0 completed TicketSender) = 4"
  unfolding after_greeted run_append greeted_state
  by (simp_all add: eval_defs trace_defs)

lemma addressGiven_state:
  "heap (run cfg0 addressGiven TicketSender) = [0 \<mapsto> openTicket\<lparr>hasEvmAddress := True\<rparr>]"
  "activeTickets (run cfg0 addressGiven TicketSender) = [''c1'' \<mapsto> 0]"
  "sends (run cfg0 addressGiven TicketSender) = [(''c1'', INITIAL_MESSAGE ''<@U>'')]"
  "tasks (run cfg0 addressGiven TicketSender) = []"
  "nextTask (run cfg0 addressGiven TicketSender) = 2"
  unfolding after_greeted run_append greeted_state
  by (simp_all add: eval_defs trace_defs)

lemma secondCreate_state:
  "tasks (run cfg0 secondCreate TicketSender) = [(2, FirstMessageWait ticketChannel)]"
  "getTicket (run cfg0 secondCreate TicketSender) ''c1'' =
     Some (0, openTicket\<lparr>hasEvmAddress := True\<rparr>)"
  "sends (run cfg0 secondCreate TicketSender) = [(''c1'', INITIAL_MESSAGE ''<@U>'')]"
  "nextRef (run cfg0 secondCreate TicketSender) = 1"
  unfolding after_greeted run_append greeted_state
  by (simp_all add: eval_defs trace_defs)

lemma secondGreeting_state:
  "tasks (run cfg0 secondGreeting TicketSender) = [(3, InitialSend ticketChannel ''<@U>'')]"
  "sends (run cfg0 secondGreeting TicketSender) =
     [(''c1'', INITIAL_MESSAGE ''<@U>''), (''c1'', INITIAL_MESSAGE ''<@U>'')]"
  "nextRef (run cfg0 secondGreeting TicketSender) = 1"
  unfolding after_greeted run_append greeted_state
  by (simp_all add: eval_defs trace_defs)

lemma completedCreate_state:
  "tasks (run cfg0 completedCreate TicketSender) =
     [(3, ClosureTimer ''c1'' 3605200), (4, FirstMessageWait ticketChannel)]"
  "getTicket (run cfg0 completedCreate TicketSender) ''c1'' =
     Some (0, openTicket\<lparr>hasEvmAddress := True, hasImage := True, awaitingResponse := False,
                        completedAt := Some 5200, formMessageId := Some ''f1''\<rparr>)"
  "sends (run cfg0 completedCreate TicketSender) =
     [(''c1'', INITIAL_MESSAGE ''<@U>''), (''c1'', FORM_MESSAGE)]"
  unfolding after_greeted run_append greeted_state
  by (simp_all add: eval_defs trace_defs)

lemma greeted_other_delay:
  "run cfgLongDelay greeted TicketSender = run cfg0 greeted TicketSender"
  "run cfgBeyondDate greeted TicketSender = run cfg0 greeted TicketSender"
  by (simp_all add: greeted_def waiting_def cfgLongDelay_def cfgBeyondDate_def eval_defs)

section \<open>The claims\<close>

subsection \<open>C1: completion\<close>

text \<open>
  Claim C1, as the code has it. While a ticket awaits a response, handling a message that
  has content and attachments merges its evidence into the ticket and requests the
  follow-up send exactly when both flags are then true; nothing of the completion happens
  in that segment. The completion (\<open>awaitingResponse\<close> false, \<open>completedAt\<close> set, the
  completed count incremented) happens when that send is delivered; when it is rejected the
  error is logged and counted and the ticket stays as it was, awaiting and with its flags,
  which a merge never clears, so that the next message of the user requests the send
  again. For a ticket whose \<open>awaitingResponse\<close> is false a message requests no send and
  suspends nothing.
\<close>

theorem completion_needs_both_flags_and_delivery:
  "(\<not> bot (message_author m) \<and> getTicket s (message_channel_id m) = Some (r, t) \<and>
    awaitingResponse t \<and> content m = Some txt \<and> attachments m = Some atts \<longrightarrow>
      heap (handleUserMessage cfg m s) = (heap s)(r \<mapsto> merged t txt atts) \<and>
      hasEvmAddress (merged t txt atts) = (hasEvmAddress t \<or> hasNewEvmAddress txt) \<and>
      hasImage (merged t txt atts) = (hasImage t \<or> hasNewImage atts) \<and>
      awaitingResponse (merged t txt atts) \<and>
      completedAt (merged t txt atts) = completedAt t \<and>
      stats (handleUserMessage cfg m s) = stats s \<and>
      sends (handleUserMessage cfg m s) =
        sends s @ (if hasEvmAddress (merged t txt atts) \<and> hasImage (merged t txt atts)
                   then [(message_channel_id m, FORM_MESSAGE)] else []) \<and>
      tasks (handleUserMessage cfg m s) =
        tasks s @ (if hasEvmAddress (merged t txt atts) \<and> hasImage (merged t txt atts)
                   then [(nextTask s, FormSend r (message_channel_id m))] else []))
   \<and> (map_of (tasks s2) tid = Some (FormSend r2 cid) \<and> heap s2 r2 = Some t2 \<longrightarrow>
      heap (step cfg (now, SendSettled tid (Resolved formId)) s2) =
        (heap s2)(r2 \<mapsto> t2\<lparr>awaitingResponse := False, completedAt := Some now,
                              formMessageId := Some formId\<rparr>) \<and>
      ticketsCompleted (stats (step cfg (now, SendSettled tid (Resolved formId)) s2)) =
        ticketsCompleted (stats s2) + 1 \<and>
      sends (step cfg (now, SendSettled tid (Resolved formId)) s2) = sends s2 \<and>
      heap (step cfg (now, SendSettled tid Rejected) s2) = heap s2 \<and>
      stats (step cfg (now, SendSettled tid Rejected) s2) =
        (stats s2)\<lparr>errors := errors (stats s2) + 1\<rparr> \<and>
      logs (step cfg (now, SendSettled tid Rejected) s2) =
        logs s2 @ [(ERROR, Failed_to_handle_user_message)] @
        (if DEBUG_MODE cfg then [(DEBUG, Operation_completed ''handleUserMessage'')] else []) \<and>
      sends (step cfg (now, SendSettled tid Rejected) s2) = sends s2 \<and>
      tasks (step cfg (now, SendSettled tid Rejected) s2) =
        filter (\<lambda>p. fst p \<noteq> tid) (tasks s2))
   \<and> (getTicket s3 (message_channel_id m3) = Some (r3, t3) \<and> \<not> awaitingResponse t3 \<longrightarrow>
      sends (handleUserMessage cfg m3 s3) = sends s3 \<and>
      tasks (handleUserMessage cfg m3 s3) = tasks s3 \<and>
      stats (handleUserMessage cfg m3 s3) = stats s3)"
proof (intro conjI impI)
  assume a: "\<not> bot (message_author m) \<and> getTicket s (message_channel_id m) = Some (r, t) \<and>
    awaitingResponse t \<and> content m = Some txt \<and> attachments m = Some atts"
  then have e: "\<not> bot (message_author m)" "getTicket s (message_channel_id m) = Some (r, t)"
    "awaitingResponse t" "content m = Some txt" "attachments m = Some atts"
    by simp_all
  note f = handleUserMessage_evidence [OF e, of cfg]
  show "heap (handleUserMessage cfg m s) = (heap s)(r \<mapsto> merged t txt atts)" by (rule f)
  show "hasEvmAddress (merged t txt atts) = (hasEvmAddress t \<or> hasNewEvmAddress txt)"
    by (simp add: merged_def)
  show "hasImage (merged t txt atts) = (hasImage t \<or> hasNewImage atts)"
    by (simp add: merged_def)
  show "awaitingResponse (merged t txt atts)" using e(3) by simp
  show "completedAt (merged t txt atts) = completedAt t" by simp
  show "stats (handleUserMessage cfg m s) = stats s" by (rule f)
  show "sends (handleUserMessage cfg m s) =
        sends s @ (if hasEvmAddress (merged t txt atts) \<and> hasImage (merged t txt atts)
                   then [(message_channel_id m, FORM_MESSAGE)] else [])" by (rule f)
  show "tasks (handleUserMessage cfg m s) =
        tasks s @ (if hasEvmAddress (merged t txt atts) \<and> hasImage (merged t txt atts)
                   then [(nextTask s, FormSend r (message_channel_id m))] else [])" by (rule f)
next
  assume a: "map_of (tasks s2) tid = Some (FormSend r2 cid) \<and> heap s2 r2 = Some t2"
  then have p: "map_of (tasks s2) tid = Some (FormSend r2 cid)" and h: "heap s2 r2 = Some t2"
    by simp_all
  note st = step_SendSettled_FormSend [OF p, of cfg now]
  show "heap (step cfg (now, SendSettled tid (Resolved formId)) s2) =
        (heap s2)(r2 \<mapsto> t2\<lparr>awaitingResponse := False, completedAt := Some now,
                              formMessageId := Some formId\<rparr>)"
    unfolding st using h by (simp add: handleUserMessage_sent_resolved)
  show "ticketsCompleted (stats (step cfg (now, SendSettled tid (Resolved formId)) s2)) =
        ticketsCompleted (stats s2) + 1"
    unfolding st by (simp add: handleUserMessage_sent_resolved)
  show "sends (step cfg (now, SendSettled tid (Resolved formId)) s2) = sends s2"
    unfolding st by (simp add: handleUserMessage_sent_resolved)
  show "heap (step cfg (now, SendSettled tid Rejected) s2) = heap s2"
    unfolding st by (simp add: handleUserMessage_sent_rejected)
  show "stats (step cfg (now, SendSettled tid Rejected) s2) =
        (stats s2)\<lparr>errors := errors (stats s2) + 1\<rparr>"
    unfolding st by (simp add: handleUserMessage_sent_rejected)
  show "logs (step cfg (now, SendSettled tid Rejected) s2) =
        logs s2 @ [(ERROR, Failed_to_handle_user_message)] @
        (if DEBUG_MODE cfg then [(DEBUG, Operation_completed ''handleUserMessage'')] else [])"
    unfolding st by (simp add: handleUserMessage_sent_rejected)
  show "sends (step cfg (now, SendSettled tid Rejected) s2) = sends s2"
    unfolding st by (simp add: handleUserMessage_sent_rejected)
  show "tasks (step cfg (now, SendSettled tid Rejected) s2) =
        filter (\<lambda>p. fst p \<noteq> tid) (tasks s2)"
    unfolding st by (simp add: handleUserMessage_sent_rejected)
next
  assume a: "getTicket s3 (message_channel_id m3) = Some (r3, t3) \<and> \<not> awaitingResponse t3"
  have "sameButLogs (handleUserMessage cfg m3 s3) s3"
  proof (cases "bot (message_author m3)")
    case True
    then show ?thesis by (rule handleUserMessage_bot)
  next
    case False
    show ?thesis using a by (intro handleUserMessage_not_awaiting [of s3 m3 r3 t3]) simp_all
  qed
  then show "sends (handleUserMessage cfg m3 s3) = sends s3"
    and "tasks (handleUserMessage cfg m3 s3) = tasks s3"
    and "stats (handleUserMessage cfg m3 s3) = stats s3"
    by (simp_all add: sameButLogs_def)
qed

text \<open>
  The three parts of C1 at the example executions: the message with address and
  screenshot in the greeted channel, the settlement of its follow-up, and a later message.
\<close>

theorem completion_needs_both_flags_and_delivery_witness:
  "getTicket (run cfg0 greeted TicketSender) ''c1'' = Some (0, openTicket) \<and>
   sends (handleUserMessage cfg0 evidenceMessage (run cfg0 greeted TicketSender)) =
     [(''c1'', INITIAL_MESSAGE ''<@U>''), (''c1'', FORM_MESSAGE)] \<and>
   map_of (tasks (run cfg0 evidenceSent TicketSender)) 2 = Some (FormSend 0 ''c1'') \<and>
   heap (step cfg0 (5200, SendSettled 2 (Resolved ''f1'')) (run cfg0 evidenceSent TicketSender)) 0 =
     Some (openTicket\<lparr>hasEvmAddress := True, hasImage := True, awaitingResponse := False,
                       completedAt := Some 5200, formMessageId := Some ''f1''\<rparr>) \<and>
   heap (step cfg0 (5200, SendSettled 2 Rejected) (run cfg0 evidenceSent TicketSender)) 0 =
     Some (openTicket\<lparr>hasEvmAddress := True, hasImage := True\<rparr>) \<and>
   sends (handleUserMessage cfg0 thanksMessage (run cfg0 completed TicketSender)) =
     [(''c1'', INITIAL_MESSAGE ''<@U>''), (''c1'', FORM_MESSAGE)]"
proof -
  have h1: "\<not> bot (message_author evidenceMessage) \<and>
      getTicket (run cfg0 greeted TicketSender) (message_channel_id evidenceMessage) =
        Some (0, openTicket) \<and>
      awaitingResponse openTicket \<and> content evidenceMessage = Some evmAddress \<and>
      attachments evidenceMessage = Some [screenshot]"
    by (simp add: greeted_state getTicket_def trace_defs userMessage_def userU_def)
  have m: "hasEvmAddress (merged openTicket evmAddress [screenshot]) \<and>
      hasImage (merged openTicket evmAddress [screenshot])"
    by (simp add: merged_def hasNewEvmAddress_def evmAddressRegex_def matchHere_def hexChar_def
        evmAddress_def hasNewImage_def isImage_def screenshot_def)
  have h2: "map_of (tasks (run cfg0 evidenceSent TicketSender)) 2 = Some (FormSend 0 ''c1'') \<and>
      heap (run cfg0 evidenceSent TicketSender) 0 =
        Some (openTicket\<lparr>hasEvmAddress := True, hasImage := True\<rparr>)"
    by (simp add: evidenceSent_state)
  have h3: "getTicket (run cfg0 completed TicketSender) (message_channel_id thanksMessage) =
        Some (0, openTicket\<lparr>hasEvmAddress := True, hasImage := True, awaitingResponse := False,
                        completedAt := Some 5200, formMessageId := Some ''f1''\<rparr>) \<and>
      \<not> awaitingResponse (openTicket\<lparr>hasEvmAddress := True, hasImage := True,
        awaitingResponse := False, completedAt := Some 5200, formMessageId := Some ''f1''\<rparr>)"
    by (simp add: completed_state trace_defs userMessage_def)
  note t = completion_needs_both_flags_and_delivery
    [of evidenceMessage "run cfg0 greeted TicketSender" 0 openTicket evmAddress "[screenshot]" cfg0
      "run cfg0 evidenceSent TicketSender" 2 0 "''c1''"
      "openTicket\<lparr>hasEvmAddress := True, hasImage := True\<rparr>" 5200 "''f1''"
      "run cfg0 completed TicketSender" thanksMessage 0
      "openTicket\<lparr>hasEvmAddress := True, hasImage := True, awaitingResponse := False,
                        completedAt := Some 5200, formMessageId := Some ''f1''\<rparr>"]
  from t h1 have c1: "sends (handleUserMessage cfg0 evidenceMessage (run cfg0 greeted TicketSender)) =
        sends (run cfg0 greeted TicketSender) @
          (if hasEvmAddress (merged openTicket evmAddress [screenshot]) \<and>
              hasImage (merged openTicket evmAddress [screenshot])
           then [(message_channel_id evidenceMessage, FORM_MESSAGE)] else [])"
    by blast
  from t h2 have c2:
    "heap (step cfg0 (5200, SendSettled 2 (Resolved ''f1'')) (run cfg0 evidenceSent TicketSender)) =
       (heap (run cfg0 evidenceSent TicketSender))(0 \<mapsto>
          openTicket\<lparr>hasEvmAddress := True, hasImage := True, awaitingResponse := False,
            completedAt := Some 5200, formMessageId := Some ''f1''\<rparr>)"
    "heap (step cfg0 (5200, SendSettled 2 Rejected) (run cfg0 evidenceSent TicketSender)) =
       heap (run cfg0 evidenceSent TicketSender)"
    by blast+
  from t h3 have c3: "sends (handleUserMessage cfg0 thanksMessage (run cfg0 completed TicketSender)) =
      sends (run cfg0 completed TicketSender)"
    by blast
  show ?thesis
    using h1 h2 m
    unfolding c1 c2 c3
    by (simp add: greeted_state completed_state evidenceSent_state trace_defs userMessage_def)
qed

text \<open>
  Claim C1 as stated fails twice. In \<open>rejectedFollowUp\<close> both flags are true after the
  merge and the ticket is not completed, since the follow-up was rejected. In
  \<open>overlapping\<close> a second message is handled while the follow-up of the first is being
  sent: the one ticket gets two follow-up sends and is completed twice.
\<close>

theorem follow_up_rejected_or_sent_twice:
  "heap (run cfg0 rejectedFollowUp TicketSender) 0 =
     Some (openTicket\<lparr>hasEvmAddress := True, hasImage := True\<rparr>)
   \<and> ticketsCompleted (stats (run cfg0 rejectedFollowUp TicketSender)) = 0
   \<and> tasks (run cfg0 rejectedFollowUp TicketSender) = []
   \<and> sends (run cfg0 overlapping TicketSender) =
       [(''c1'', INITIAL_MESSAGE ''<@U>''), (''c1'', FORM_MESSAGE), (''c1'', FORM_MESSAGE)]
   \<and> nextRef (run cfg0 overlapping TicketSender) = 1
   \<and> ticketsCompleted (stats (run cfg0 overlapping TicketSender)) = 2"
proof -
  have "heap (run cfg0 rejectedFollowUp TicketSender) 0 =
     Some (openTicket\<lparr>hasEvmAddress := True, hasImage := True\<rparr>)
   \<and> ticketsCompleted (stats (run cfg0 rejectedFollowUp TicketSender)) = 0
   \<and> tasks (run cfg0 rejectedFollowUp TicketSender) = []"
    unfolding after_greeted run_append greeted_state
    by (simp add: eval_defs trace_defs)
  moreover have "sends (run cfg0 overlapping TicketSender) =
       [(''c1'', INITIAL_MESSAGE ''<@U>''), (''c1'', FORM_MESSAGE), (''c1'', FORM_MESSAGE)]
   \<and> nextRef (run cfg0 overlapping TicketSender) = 1
   \<and> ticketsCompleted (stats (run cfg0 overlapping TicketSender)) = 2"
    unfolding after_greeted run_append greeted_state
    by (simp add: eval_defs trace_defs)
  ultimately show ?thesis by simp
qed

subsection \<open>C2: a failed closure\<close>

text \<open>
  Claim C2 says that a closure attempt that fails still removes the ticket from
  \<open>activeTickets\<close>. The code does not: in each of the three failures (the fetch is
  rejected, the fetch returns nothing, the send of the closure command is rejected) the
  failure is logged, nothing is left pending, and the completed ticket is still registered
  under its channel.
\<close>

theorem failed_closure_leaves_ticket_registered:
  "activeTickets (run cfg0 completed TicketSender) ''c1'' = Some 0
   \<and> activeTickets (run cfg0 fetchRejected TicketSender) ''c1'' = Some 0
   \<and> tasks (run cfg0 fetchRejected TicketSender) = []
   \<and> last (logs (run cfg0 fetchRejected TicketSender)) = (ERROR, Failed_to_fetch_channel)
   \<and> activeTickets (run cfg0 fetchEmpty TicketSender) ''c1'' = Some 0
   \<and> tasks (run cfg0 fetchEmpty TicketSender) = []
   \<and> last (logs (run cfg0 fetchEmpty TicketSender)) = (INFO, Channel_not_found_after_fetch)
   \<and> activeTickets (run cfg0 closeRejected TicketSender) ''c1'' = Some 0
   \<and> tasks (run cfg0 closeRejected TicketSender) = []
   \<and> last (logs (run cfg0 closeRejected TicketSender)) = (ERROR, Failed_to_close_ticket)"
proof -
  have "activeTickets (run cfg0 completed TicketSender) ''c1'' = Some 0"
    unfolding after_greeted run_append greeted_state
    by (simp add: eval_defs trace_defs)
  moreover have "activeTickets (run cfg0 fetchRejected TicketSender) ''c1'' = Some 0
   \<and> tasks (run cfg0 fetchRejected TicketSender) = []
   \<and> last (logs (run cfg0 fetchRejected TicketSender)) = (ERROR, Failed_to_fetch_channel)"
    unfolding after_greeted run_append greeted_state
    by (simp add: eval_defs trace_defs)
  moreover have "activeTickets (run cfg0 fetchEmpty TicketSender) ''c1'' = Some 0
   \<and> tasks (run cfg0 fetchEmpty TicketSender) = []
   \<and> last (logs (run cfg0 fetchEmpty TicketSender)) = (INFO, Channel_not_found_after_fetch)"
    unfolding after_greeted run_append greeted_state
    by (simp add: eval_defs trace_defs)
  moreover have "activeTickets (run cfg0 closeRejected TicketSender) ''c1'' = Some 0
   \<and> tasks (run cfg0 closeRejected TicketSender) = []
   \<and> last (logs (run cfg0 closeRejected TicketSender)) = (ERROR, Failed_to_close_ticket)"
    unfolding after_greeted run_append greeted_state
    by (simp add: eval_defs trace_defs)
  ultimately show ?thesis by simp
qed

subsection \<open>C3: a second channel-created event\<close>

text \<open>
  Claim C3, as the code has it. A channel-created event for a channel of the target
  category raises no error, sends nothing and leaves the tickets as they are, whether or
  not the channel has a ticket; it counts a created ticket and registers a wait for the
  first message. If the wait times out, nothing is sent and the tickets stay as they are.
  If a message with content arrives in the channel, a greeting is sent; when it is
  delivered, a new ticket object with both flags false is registered under the channel id
  in place of whatever was registered there.
\<close>

theorem second_channel_creation_greets_and_overwrites:
  "(\<not> notTargetCategory cfg ch \<longrightarrow>
      heap (step cfg (now, ChannelCreate ch) s) = heap s \<and>
      activeTickets (step cfg (now, ChannelCreate ch) s) = activeTickets s \<and>
      sends (step cfg (now, ChannelCreate ch) s) = sends s \<and>
      errors (stats (step cfg (now, ChannelCreate ch) s)) = errors (stats s) \<and>
      ticketsCreated (stats (step cfg (now, ChannelCreate ch) s)) = ticketsCreated (stats s) + 1 \<and>
      tasks (step cfg (now, ChannelCreate ch) s) = tasks s @ [(nextTask s, FirstMessageWait ch)])
   \<and> (map_of (tasks s1) tid1 = Some (FirstMessageWait ch1) \<longrightarrow>
      heap (step cfg (now1, FirstMessageTimeout tid1) s1) = heap s1 \<and>
      activeTickets (step cfg (now1, FirstMessageTimeout tid1) s1) = activeTickets s1 \<and>
      sends (step cfg (now1, FirstMessageTimeout tid1) s1) = sends s1)
   \<and> ((tid2, FirstMessageWait ch2) \<in> set (tasks s2) \<and> channel_id ch2 = message_channel_id m \<and>
       content m = Some body \<longrightarrow>
      count_list (sends s2) (channel_id ch2, INITIAL_MESSAGE (fst (extractUserTag cfg m s2)))
        < count_list (sends (step cfg (now2, MessageCreate m) s2))
            (channel_id ch2, INITIAL_MESSAGE (fst (extractUserTag cfg m s2))))
   \<and> (wellFormed s3 \<and> map_of (tasks s3) tid3 = Some (InitialSend ch3 tag) \<longrightarrow>
      heap s3 (nextRef s3) = None \<and>
      getTicket (step cfg (now3, SendSettled tid3 (Resolved sentId)) s3) (channel_id ch3) =
        Some (nextRef s3,
          \<lparr>channelId = channel_id ch3, userTag = tag, createdAt = now3, awaitingResponse = True,
           hasEvmAddress = False, hasImage = False, initialMessageId = sentId,
           completedAt = None, formMessageId = None\<rparr>))"
proof (intro conjI impI)
  assume "\<not> notTargetCategory cfg ch"
  then show "heap (step cfg (now, ChannelCreate ch) s) = heap s"
    and "activeTickets (step cfg (now, ChannelCreate ch) s) = activeTickets s"
    and "sends (step cfg (now, ChannelCreate ch) s) = sends s"
    and "errors (stats (step cfg (now, ChannelCreate ch) s)) = errors (stats s)"
    and "ticketsCreated (stats (step cfg (now, ChannelCreate ch) s)) = ticketsCreated (stats s) + 1"
    and "tasks (step cfg (now, ChannelCreate ch) s) = tasks s @ [(nextTask s, FirstMessageWait ch)]"
    by (simp_all add: handleChannelCreation_fields)
next
  assume "map_of (tasks s1) tid1 = Some (FirstMessageWait ch1)"
  then show "heap (step cfg (now1, FirstMessageTimeout tid1) s1) = heap s1"
    and "activeTickets (step cfg (now1, FirstMessageTimeout tid1) s1) = activeTickets s1"
    and "sends (step cfg (now1, FirstMessageTimeout tid1) s1) = sends s1"
    by (simp_all add: waitForFirstMessage_timeout_def firstMessage_tasks)
next
  assume "(tid2, FirstMessageWait ch2) \<in> set (tasks s2) \<and> channel_id ch2 = message_channel_id m \<and>
       content m = Some body"
  then show "count_list (sends s2) (channel_id ch2, INITIAL_MESSAGE (fst (extractUserTag cfg m s2)))
        < count_list (sends (step cfg (now2, MessageCreate m) s2))
            (channel_id ch2, INITIAL_MESSAGE (fst (extractUserTag cfg m s2)))"
    using emit_greets [of tid2 ch2 s2 m body cfg] by simp
next
  assume a: "wellFormed s3 \<and> map_of (tasks s3) tid3 = Some (InitialSend ch3 tag)"
  then show "heap s3 (nextRef s3) = None" by (auto simp add: wellFormed_def)
  from a have p: "map_of (tasks s3) tid3 = Some (InitialSend ch3 tag)" by simp
  show "getTicket (step cfg (now3, SendSettled tid3 (Resolved sentId)) s3) (channel_id ch3) =
        Some (nextRef s3,
          \<lparr>channelId = channel_id ch3, userTag = tag, createdAt = now3, awaitingResponse = True,
           hasEvmAddress = False, hasImage = False, initialMessageId = sentId,
           completedAt = None, formMessageId = None\<rparr>)"
    unfolding step_SendSettled_InitialSend [OF p]
    by (simp add: getTicket_def handleChannelCreation_sent_resolved)
qed

text \<open>
  C3 at the execution \<open>createdTwice\<close>: the second channel-created event when the ticket
  has an address, its timeout, the next message, and the delivery of the second greeting.
\<close>

theorem second_channel_creation_greets_and_overwrites_witness:
  "\<not> notTargetCategory cfg0 ticketChannel \<and>
   getTicket (run cfg0 addressGiven TicketSender) ''c1'' =
     Some (0, openTicket\<lparr>hasEvmAddress := True\<rparr>) \<and>
   tasks (step cfg0 (6000, ChannelCreate ticketChannel) (run cfg0 addressGiven TicketSender)) =
     [(2, FirstMessageWait ticketChannel)] \<and>
   sends (step cfg0 (6000, ChannelCreate ticketChannel) (run cfg0 addressGiven TicketSender)) =
     [(''c1'', INITIAL_MESSAGE ''<@U>'')] \<and>
   sends (step cfg0 (16000, FirstMessageTimeout 2) (run cfg0 secondCreate TicketSender)) =
     [(''c1'', INITIAL_MESSAGE ''<@U>'')] \<and>
   1 < count_list (sends (step cfg0 (7000, MessageCreate thanksMessage)
         (run cfg0 secondCreate TicketSender))) (''c1'', INITIAL_MESSAGE ''<@U>'') \<and>
   getTicket (step cfg0 (7200, SendSettled 3 (Resolved ''g2''))
       (run cfg0 secondGreeting TicketSender)) ''c1'' =
     Some (1, openTicket\<lparr>createdAt := 7200, initialMessageId := ''g2''\<rparr>)"
proof -
  have h0: "\<not> notTargetCategory cfg0 ticketChannel"
    by (simp add: notTargetCategory_def cfg0_def ticketChannel_def)
  have h1: "map_of (tasks (run cfg0 secondCreate TicketSender)) 2 =
      Some (FirstMessageWait ticketChannel)"
    by (simp add: secondCreate_state)
  have h2: "(2, FirstMessageWait ticketChannel) \<in> set (tasks (run cfg0 secondCreate TicketSender)) \<and>
      channel_id ticketChannel = message_channel_id thanksMessage \<and>
      content thanksMessage = Some ''thanks''"
    by (simp add: secondCreate_state ticketChannel_def trace_defs userMessage_def)
  have h3: "wellFormed (run cfg0 secondGreeting TicketSender) \<and>
      map_of (tasks (run cfg0 secondGreeting TicketSender)) 3 =
        Some (InitialSend ticketChannel ''<@U>'')"
    by (simp add: wellFormed_reached secondGreeting_state)
  have tag: "fst (extractUserTag cfg0 thanksMessage (run cfg0 secondCreate TicketSender)) = ''<@U>''"
    by (simp add: extractUserTag_fst trace_defs userMessage_def userU_def)
  note t = second_channel_creation_greets_and_overwrites
    [of cfg0 ticketChannel 6000 "run cfg0 addressGiven TicketSender"
      "run cfg0 secondCreate TicketSender" 2 ticketChannel 16000
      2 ticketChannel "run cfg0 secondCreate TicketSender" thanksMessage "''thanks''" 7000
      "run cfg0 secondGreeting TicketSender" 3 ticketChannel "''<@U>''" 7200 "''g2''"]
  from t h0 have c0:
    "tasks (step cfg0 (6000, ChannelCreate ticketChannel) (run cfg0 addressGiven TicketSender)) =
       tasks (run cfg0 addressGiven TicketSender) @
         [(nextTask (run cfg0 addressGiven TicketSender), FirstMessageWait ticketChannel)]"
    "sends (step cfg0 (6000, ChannelCreate ticketChannel) (run cfg0 addressGiven TicketSender)) =
       sends (run cfg0 addressGiven TicketSender)"
    by blast+
  from t h1 have c1:
    "sends (step cfg0 (16000, FirstMessageTimeout 2) (run cfg0 secondCreate TicketSender)) =
       sends (run cfg0 secondCreate TicketSender)"
    by blast
  from t h2 have c2:
    "count_list (sends (run cfg0 secondCreate TicketSender))
       (channel_id ticketChannel,
        INITIAL_MESSAGE (fst (extractUserTag cfg0 thanksMessage (run cfg0 secondCreate TicketSender))))
     < count_list (sends (step cfg0 (7000, MessageCreate thanksMessage)
           (run cfg0 secondCreate TicketSender)))
         (channel_id ticketChannel,
          INITIAL_MESSAGE (fst (extractUserTag cfg0 thanksMessage (run cfg0 secondCreate TicketSender))))"
    by blast
  from t h3 have c3:
    "getTicket (step cfg0 (7200, SendSettled 3 (Resolved ''g2''))
        (run cfg0 secondGreeting TicketSender)) (channel_id ticketChannel) =
      Some (nextRef (run cfg0 secondGreeting TicketSender),
        \<lparr>channelId = channel_id ticketChannel, userTag = ''<@U>'', createdAt = 7200,
         awaitingResponse = True, hasEvmAddress = False, hasImage = False,
         initialMessageId = ''g2'', completedAt = None, formMessageId = None\<rparr>)"
    by blast
  have g: "getTicket (run cfg0 addressGiven TicketSender) ''c1'' =
      Some (0, openTicket\<lparr>hasEvmAddress := True\<rparr>)"
    by (simp add: getTicket_def addressGiven_state)
  have c2': "1 < count_list (sends (step cfg0 (7000, MessageCreate thanksMessage)
         (run cfg0 secondCreate TicketSender))) (''c1'', INITIAL_MESSAGE ''<@U>'')"
    using c2 unfolding tag by (simp add: secondCreate_state ticketChannel_def)
  have c3': "getTicket (step cfg0 (7200, SendSettled 3 (Resolved ''g2''))
       (run cfg0 secondGreeting TicketSender)) ''c1'' =
     Some (1, openTicket\<lparr>createdAt := 7200, initialMessageId := ''g2''\<rparr>)"
    using c3 by (simp add: secondGreeting_state ticketChannel_def openTicket_def)
  show ?thesis
    unfolding c0 c1
    using h0 g c2' c3' by (simp add: addressGiven_state secondCreate_state)
qed

text \<open>
  Claim C3 as stated fails: after the second channel-created event and one more message,
  a second greeting has been sent and the ticket with the address has been replaced by a
  new one without it.
\<close>

theorem second_creation_is_not_a_no_op:
  "getTicket (run cfg0 secondCreate TicketSender) ''c1'' =
     Some (0, openTicket\<lparr>hasEvmAddress := True\<rparr>)
   \<and> sends (run cfg0 createdTwice TicketSender) =
     [(''c1'', INITIAL_MESSAGE ''<@U>''), (''c1'', INITIAL_MESSAGE ''<@U>'')]
   \<and> getTicket (run cfg0 createdTwice TicketSender) ''c1'' =
     Some (1, openTicket\<lparr>createdAt := 7200, initialMessageId := ''g2''\<rparr>)
   \<and> ticketsCreated (stats (run cfg0 createdTwice TicketSender)) = 2"
proof -
  have "sends (run cfg0 createdTwice TicketSender) =
     [(''c1'', INITIAL_MESSAGE ''<@U>''), (''c1'', INITIAL_MESSAGE ''<@U>'')]
   \<and> getTicket (run cfg0 createdTwice TicketSender) ''c1'' =
     Some (1, openTicket\<lparr>createdAt := 7200, initialMessageId := ''g2''\<rparr>)
   \<and> ticketsCreated (stats (run cfg0 createdTwice TicketSender)) = 2"
    unfolding after_greeted run_append greeted_state
    by (simp add: eval_defs trace_defs)
  then show ?thesis by (simp add: secondCreate_state)
qed

subsection \<open>C4: messages of bots\<close>

text \<open>
  Claim C4, as the code has it. A message whose author is a bot is never treated as
  evidence: \<^verbatim>\<open>handleUserMessage\<close> changes nothing but the log, and the event changes no
  ticket and the registry not at all. The wait for the first message does not look at the author: a
  message of the channel, of a bot or not, ends every pending wait of that channel, and
  if it has content the greeting is sent.
\<close>

theorem bot_messages_are_no_evidence_but_end_the_wait:
  "(bot (message_author m) \<longrightarrow>
      sameButLogs (handleUserMessage cfg m s) s \<and>
      heap (step cfg (now, MessageCreate m) s) = heap s \<and>
      activeTickets (step cfg (now, MessageCreate m) s) = activeTickets s)
   \<and> ((tid, FirstMessageWait ch) \<in> set (tasks s2) \<and> channel_id ch = message_channel_id m2 \<longrightarrow>
      (tid, FirstMessageWait ch) \<notin> set (tasks (step cfg (now2, MessageCreate m2) s2)) \<and>
      (content m2 \<noteq> None \<longrightarrow>
         count_list (sends s2) (channel_id ch, INITIAL_MESSAGE (fst (extractUserTag cfg m2 s2)))
           < count_list (sends (step cfg (now2, MessageCreate m2) s2))
               (channel_id ch, INITIAL_MESSAGE (fst (extractUserTag cfg m2 s2)))))"
proof (intro conjI impI)
  assume b: "bot (message_author m)"
  then show k: "sameButLogs (handleUserMessage cfg m s) s" by (rule handleUserMessage_bot)
  then show "heap (step cfg (now, MessageCreate m) s) = heap s"
    and "activeTickets (step cfg (now, MessageCreate m) s) = activeTickets s"
    by (simp_all add: emit_fields sameButLogs_def)
next
  assume a: "(tid, FirstMessageWait ch) \<in> set (tasks s2) \<and> channel_id ch = message_channel_id m2"
  then show "(tid, FirstMessageWait ch) \<notin> set (tasks (step cfg (now2, MessageCreate m2) s2))"
    using emit_resolves_wait [of ch m2 tid cfg s2] by simp
  assume "content m2 \<noteq> None"
  then obtain body where "content m2 = Some body" by auto
  then show "count_list (sends s2) (channel_id ch, INITIAL_MESSAGE (fst (extractUserTag cfg m2 s2)))
           < count_list (sends (step cfg (now2, MessageCreate m2) s2))
               (channel_id ch, INITIAL_MESSAGE (fst (extractUserTag cfg m2 s2)))"
    using a emit_greets [of tid ch s2 m2 body cfg] by simp
qed

text \<open>C4 at the ticket bot's message, in the greeted channel and in the channel that waits.\<close>

theorem bot_messages_are_no_evidence_but_end_the_wait_witness:
  "bot (message_author botMessage) \<and>
   sameButLogs (handleUserMessage cfg0 botMessage (run cfg0 greeted TicketSender))
     (run cfg0 greeted TicketSender) \<and>
   (0, FirstMessageWait ticketChannel) \<in> set (tasks (run cfg0 waiting TicketSender)) \<and>
   (0, FirstMessageWait ticketChannel)
     \<notin> set (tasks (step cfg0 (1000, MessageCreate botMessage) (run cfg0 waiting TicketSender))) \<and>
   0 < count_list (sends (step cfg0 (1000, MessageCreate botMessage) (run cfg0 waiting TicketSender)))
         (''c1'', INITIAL_MESSAGE ''<@U>'')"
proof -
  have h1: "bot (message_author botMessage)"
    by (simp add: botMessage_def ticketBot_def)
  have h2: "(0, FirstMessageWait ticketChannel) \<in> set (tasks (run cfg0 waiting TicketSender)) \<and>
      channel_id ticketChannel = message_channel_id botMessage"
    by (simp add: waiting_state ticketChannel_def botMessage_def)
  have h3: "content botMessage \<noteq> None" by (simp add: botMessage_def)
  have tag: "fst (extractUserTag cfg0 botMessage (run cfg0 waiting TicketSender)) = ''<@U>''"
    by (simp add: extractUserTag_fst botMessage_def)
  note t = bot_messages_are_no_evidence_but_end_the_wait
    [of botMessage cfg0 "run cfg0 greeted TicketSender" 1000 0 ticketChannel
      "run cfg0 waiting TicketSender" botMessage 1000]
  from t h1 have c1: "sameButLogs (handleUserMessage cfg0 botMessage (run cfg0 greeted TicketSender))
     (run cfg0 greeted TicketSender)"
    by blast
  from t h2 have c2: "(0, FirstMessageWait ticketChannel)
     \<notin> set (tasks (step cfg0 (1000, MessageCreate botMessage) (run cfg0 waiting TicketSender)))"
    by blast
  from t h2 h3 have c3:
    "count_list (sends (run cfg0 waiting TicketSender))
       (channel_id ticketChannel,
        INITIAL_MESSAGE (fst (extractUserTag cfg0 botMessage (run cfg0 waiting TicketSender))))
     < count_list (sends (step cfg0 (1000, MessageCreate botMessage) (run cfg0 waiting TicketSender)))
         (channel_id ticketChannel,
          INITIAL_MESSAGE (fst (extractUserTag cfg0 botMessage (run cfg0 waiting TicketSender))))"
    by blast
  have c3': "0 < count_list (sends (step cfg0 (1000, MessageCreate botMessage)
      (run cfg0 waiting TicketSender))) (''c1'', INITIAL_MESSAGE ''<@U>'')"
    using c3 unfolding tag by (simp add: ticketChannel_def)
  show ?thesis using h1 h2 c1 c2 c3' by blast
qed

text \<open>
  Claim C4 as stated fails: in \<open>botFirst\<close> the first message of the channel is a bot's,
  and it is followed by the greeting and the creation of the ticket.
\<close>

theorem bot_message_satisfies_first_message_wait:
  "bot (message_author botMessage)
   \<and> sends (run cfg0 botFirst TicketSender) = [(''c1'', INITIAL_MESSAGE ''<@U>'')]
   \<and> getTicket (run cfg0 botFirst TicketSender) ''c1'' = Some (0, openTicket)"
  by (simp add: botFirst_def waiting_def eval_defs trace_defs)

subsection \<open>C5: empty and missing fields\<close>

text \<open>
  Claim C5, as the code has it. The empty text holds no address, the empty attachment
  list no image, and an attachment without content type is no image. A message with empty
  text and no attachments leaves the tickets and the statistics as they are. A message
  whose content or attachments are missing, in a channel whose ticket awaits a response,
  raises in \<^verbatim>\<open>handleUserMessage\<close> before any detection: the \<^verbatim>\<open>catch\<close> block counts
  and logs the error, and tickets, sends and suspended handlers stay as they are. A
  message that has both fields counts no error.
\<close>

theorem empty_fields_are_no_evidence_missing_fields_raise:
  "\<not> hasNewEvmAddress [] \<and> \<not> hasNewImage [] \<and> (contentType a = None \<longrightarrow> \<not> isImage a)
   \<and> (\<not> bot (message_author m) \<and> getTicket s (message_channel_id m) = Some (r, t) \<and>
       awaitingResponse t \<and> content m = Some [] \<and> attachments m = Some [] \<longrightarrow>
        heap (handleUserMessage cfg m s) = heap s \<and>
        stats (handleUserMessage cfg m s) = stats s)
   \<and> (\<not> bot (message_author m2) \<and> getTicket s2 (message_channel_id m2) = Some (r2, t2) \<and>
       awaitingResponse t2 \<and> (content m2 = None \<or> attachments m2 = None) \<longrightarrow>
        stats (handleUserMessage cfg m2 s2) = (stats s2)\<lparr>errors := errors (stats s2) + 1\<rparr> \<and>
        heap (handleUserMessage cfg m2 s2) = heap s2 \<and>
        sends (handleUserMessage cfg m2 s2) = sends s2 \<and>
        tasks (handleUserMessage cfg m2 s2) = tasks s2 \<and>
        (ERROR, Failed_to_handle_user_message) \<in> set (logs (handleUserMessage cfg m2 s2)))
   \<and> (content m3 \<noteq> None \<and> attachments m3 \<noteq> None \<longrightarrow>
        errors (stats (handleUserMessage cfg m3 s3)) = errors (stats s3))"
proof (intro conjI impI)
  show "\<not> hasNewEvmAddress []" by (simp add: hasNewEvmAddress_def evmAddressRegex_def)
  show "\<not> hasNewImage []" by (simp add: hasNewImage_def)
  show "\<not> isImage a" if "contentType a = None" using that by (simp add: isImage_def)
next
  assume a: "\<not> bot (message_author m) \<and> getTicket s (message_channel_id m) = Some (r, t) \<and>
       awaitingResponse t \<and> content m = Some [] \<and> attachments m = Some []"
  then have e: "\<not> bot (message_author m)" "getTicket s (message_channel_id m) = Some (r, t)"
    "awaitingResponse t" "content m = Some []" "attachments m = Some []"
    by simp_all
  have "heap s r = Some t" using e(2) by (simp add: getTicket_SomeD)
  then have "(heap s)(r \<mapsto> t) = heap s" by (rule map_upd_triv)
  then show "heap (handleUserMessage cfg m s) = heap s"
    and "stats (handleUserMessage cfg m s) = stats s"
    unfolding handleUserMessage_evidence [OF e, of cfg] merged_nothing by simp_all
next
  assume a: "\<not> bot (message_author m2) \<and> getTicket s2 (message_channel_id m2) = Some (r2, t2) \<and>
       awaitingResponse t2 \<and> (content m2 = None \<or> attachments m2 = None)"
  then have "handleUserMessage cfg m2 s2 =
      timer_end cfg ''handleUserMessage'' (logError Failed_to_handle_user_message s2)"
    by (intro handleUserMessage_missing [of m2 s2 r2 t2]) simp_all
  then show "stats (handleUserMessage cfg m2 s2) = (stats s2)\<lparr>errors := errors (stats s2) + 1\<rparr>"
    and "heap (handleUserMessage cfg m2 s2) = heap s2"
    and "sends (handleUserMessage cfg m2 s2) = sends s2"
    and "tasks (handleUserMessage cfg m2 s2) = tasks s2"
    and "(ERROR, Failed_to_handle_user_message) \<in> set (logs (handleUserMessage cfg m2 s2))"
    by simp_all
next
  assume a: "content m3 \<noteq> None \<and> attachments m3 \<noteq> None"
  show "errors (stats (handleUserMessage cfg m3 s3)) = errors (stats s3)"
  proof (cases rule: handleUserMessage_branch [where m = m3 and s = s3])
    case Bot
    then show ?thesis using handleUserMessage_bot [of m3 cfg s3] by (simp add: sameButLogs_def)
  next
    case Untracked
    then show ?thesis
      using handleUserMessage_untracked [of s3 m3 cfg] by (simp add: sameButLogs_def)
  next
    case (Completed r t)
    then show ?thesis
      using handleUserMessage_not_awaiting [of s3 m3 r t cfg] by (simp add: sameButLogs_def)
  next
    case (Missing r t)
    then show ?thesis using a by auto
  next
    case (Evidence r t body atts)
    show ?thesis unfolding handleUserMessage_evidence [OF Evidence, of cfg] by simp
  qed
qed

text \<open>C5 in the greeted channel, for an empty message, one without content, and one with evidence.\<close>

theorem empty_fields_are_no_evidence_missing_fields_raise_witness:
  "contentType (screenshot\<lparr>contentType := None\<rparr>) = None \<and>
   \<not> isImage (screenshot\<lparr>contentType := None\<rparr>) \<and>
   getTicket (run cfg0 greeted TicketSender) ''c1'' = Some (0, openTicket) \<and>
   heap (handleUserMessage cfg0 (userMessage ''m2'' (Some []) (Some []))
     (run cfg0 greeted TicketSender)) = heap (run cfg0 greeted TicketSender) \<and>
   errors (stats (handleUserMessage cfg0 (userMessage ''m2'' (Some []) (Some []))
     (run cfg0 greeted TicketSender))) = 0 \<and>
   errors (stats (handleUserMessage cfg0 (userMessage ''m2'' None (Some [screenshot]))
     (run cfg0 greeted TicketSender))) = 1 \<and>
   heap (handleUserMessage cfg0 (userMessage ''m2'' None (Some [screenshot]))
     (run cfg0 greeted TicketSender)) = heap (run cfg0 greeted TicketSender) \<and>
   errors (stats (handleUserMessage cfg0 evidenceMessage (run cfg0 greeted TicketSender))) = 0"
proof -
  let ?G = "run cfg0 greeted TicketSender"
  let ?e = "userMessage ''m2'' (Some []) (Some [])"
  let ?n = "userMessage ''m2'' None (Some [screenshot])"
  have h0: "contentType (screenshot\<lparr>contentType := None\<rparr>) = None" by simp
  have h1: "\<not> bot (message_author ?e) \<and> getTicket ?G (message_channel_id ?e) = Some (0, openTicket) \<and>
      awaitingResponse openTicket \<and> content ?e = Some [] \<and> attachments ?e = Some []"
    by (simp add: greeted_getTicket userMessage_def userU_def openTicket_def)
  have h2: "\<not> bot (message_author ?n) \<and> getTicket ?G (message_channel_id ?n) = Some (0, openTicket) \<and>
      awaitingResponse openTicket \<and> (content ?n = None \<or> attachments ?n = None)"
    by (simp add: greeted_getTicket userMessage_def userU_def openTicket_def)
  have h3: "content evidenceMessage \<noteq> None \<and> attachments evidenceMessage \<noteq> None"
    by (simp add: trace_defs userMessage_def)
  note t = empty_fields_are_no_evidence_missing_fields_raise
    [of "screenshot\<lparr>contentType := None\<rparr>" ?e ?G 0 openTicket cfg0 ?n ?G 0 openTicket
      evidenceMessage ?G]
  from t h0 have c0: "\<not> isImage (screenshot\<lparr>contentType := None\<rparr>)" by blast
  from t h1 have c1: "heap (handleUserMessage cfg0 ?e ?G) = heap ?G"
    "stats (handleUserMessage cfg0 ?e ?G) = stats ?G"
    by blast+
  from t h2 have c2:
    "stats (handleUserMessage cfg0 ?n ?G) = (stats ?G)\<lparr>errors := errors (stats ?G) + 1\<rparr>"
    "heap (handleUserMessage cfg0 ?n ?G) = heap ?G"
    by blast+
  from t h3 have c3: "errors (stats (handleUserMessage cfg0 evidenceMessage ?G)) = errors (stats ?G)"
    by blast
  have e: "errors (stats ?G) = 0" by (simp add: greeted_state)
  show ?thesis
    unfolding c1 c2 c3 using h0 c0 e by (simp add: greeted_getTicket)
qed

text \<open>
  Claim C5 as stated fails: a message without content raises, an error is counted and
  logged, and the screenshot it carries is not detected.
\<close>

theorem missing_content_raises:
  "content (userMessage ''m2'' None (Some [screenshot])) = None
   \<and> isImage screenshot
   \<and> errors (stats (run cfg0 greeted TicketSender)) = 0
   \<and> errors (stats (run cfg0 missingContent TicketSender)) = 1
   \<and> last (logs (run cfg0 missingContent TicketSender)) = (ERROR, Failed_to_handle_user_message)
   \<and> heap (run cfg0 missingContent TicketSender) 0 = Some openTicket"
  unfolding after_greeted run_append greeted_state
  by (simp add: eval_defs trace_defs)

subsection \<open>C6: the address pattern\<close>

text \<open>
  Claim C6. Address detection on a message's text is true exactly when the text contains
  the prefix \<^verbatim>\<open>0x\<close> followed by 40 hexadecimal characters. The signal is one boolean,
  true as soon as there is one match: two texts that both contain a match, however many,
  leave the same tickets, statistics, sends and suspended handlers. (A text with more than
  40 hexadecimal characters behind the prefix contains the prefix followed by 40 of them.)
\<close>

theorem address_detected_iff_0x_and_40_hex:
  "hasNewEvmAddress txt =
     (\<exists>pre hx post. txt = pre @ ''0x'' @ hx @ post \<and> length hx = 40 \<and> list_all hexChar hx)
   \<and> hasNewEvmAddress txt = (1 \<le> length (matchAll txt))
   \<and> (hasNewEvmAddress txt \<and> hasNewEvmAddress txt' \<longrightarrow>
        sameButLogs (handleUserMessage cfg (m\<lparr>content := Some txt\<rparr>) s)
          (handleUserMessage cfg (m\<lparr>content := Some txt'\<rparr>) s))"
proof (intro conjI impI)
  show "hasNewEvmAddress txt =
     (\<exists>pre hx post. txt = pre @ ''0x'' @ hx @ post \<and> length hx = 40 \<and> list_all hexChar hx)"
    by (simp only: hasNewEvmAddress_matchAll matchAll_nonempty contains_address)
  show "hasNewEvmAddress txt = (1 \<le> length (matchAll txt))"
    by (cases "matchAll txt") (simp_all add: hasNewEvmAddress_matchAll)
  assume "hasNewEvmAddress txt \<and> hasNewEvmAddress txt'"
  then show "sameButLogs (handleUserMessage cfg (m\<lparr>content := Some txt\<rparr>) s)
          (handleUserMessage cfg (m\<lparr>content := Some txt'\<rparr>) s)"
    by (intro handleUserMessage_content_cong) simp
qed

theorem address_detected_iff_0x_and_40_hex_witness:
  "hasNewEvmAddress (''my address: '' @ evmAddress) \<and>
   hasNewEvmAddress (evmAddress @ ''23'') \<and>
   \<not> hasNewEvmAddress (take 41 evmAddress) \<and>
   hasNewEvmAddress (evmAddress @ '' or '' @ evmAddress) \<and>
   length (matchAll (evmAddress @ '' or '' @ evmAddress)) = 2 \<and>
   sameButLogs
     (handleUserMessage cfg0 (userMessage ''m2'' (Some (''my address: '' @ evmAddress)) (Some []))
        TicketSender)
     (handleUserMessage cfg0 (userMessage ''m2'' (Some (evmAddress @ '' or '' @ evmAddress)) (Some []))
        TicketSender)"
proof -
  have one: "hasNewEvmAddress (''my address: '' @ evmAddress)"
    by (simp add: hasNewEvmAddress_def evmAddressRegex_def matchHere_def hexChar_def
        evmAddress_def)
  have longer: "hasNewEvmAddress (evmAddress @ ''23'')"
    by (simp add: hasNewEvmAddress_def evmAddressRegex_def matchHere_def hexChar_def
        evmAddress_def)
  have shorter: "\<not> hasNewEvmAddress (take 41 evmAddress)"
    by (simp add: hasNewEvmAddress_def evmAddressRegex_def matchHere_def hexChar_def
        evmAddress_def)
  have two: "matchAll (evmAddress @ '' or '' @ evmAddress) = [evmAddress, evmAddress]"
    by (simp add: matchHere_def hexChar_def evmAddress_def)
  have two': "hasNewEvmAddress (evmAddress @ '' or '' @ evmAddress)"
    unfolding hasNewEvmAddress_def evmAddressRegex_def two by simp
  show ?thesis
    unfolding two
    using one longer shorter two'
      address_detected_iff_0x_and_40_hex [of "''my address: '' @ evmAddress"
        "evmAddress @ '' or '' @ evmAddress" cfg0
        "userMessage ''m2'' None (Some [])" TicketSender]
    by (simp add: userMessage_def)
qed

subsection \<open>C7: evidence flags are monotone\<close>

text \<open>
  Claim C7. In every execution, a ticket object that exists at some point still exists
  after any further events, and each of \<open>hasEvmAddress\<close> and \<open>hasImage\<close> that was true
  is still true. Read through the registry: over any sequence of message-created events
  the channel keeps its ticket, and over any events at all, as long as the channel's entry
  is that ticket, a flag of the ticket that was true is still true.
\<close>

theorem evidence_flags_monotone:
  "(heap (run cfg evs TicketSender) r = Some t \<longrightarrow>
      (\<exists>t'. heap (run cfg (evs @ evs') TicketSender) r = Some t' \<and>
            (hasEvmAddress t \<longrightarrow> hasEvmAddress t') \<and> (hasImage t \<longrightarrow> hasImage t')))
   \<and> (getTicket (run cfg evs TicketSender) cid = Some (r, t) \<and> onlyMessages evs' \<longrightarrow>
      (\<exists>t'. getTicket (run cfg (evs @ evs') TicketSender) cid = Some (r, t') \<and>
            (hasEvmAddress t \<longrightarrow> hasEvmAddress t') \<and> (hasImage t \<longrightarrow> hasImage t')))
   \<and> (getTicket (run cfg evs TicketSender) cid = Some (r, t) \<and>
       activeTickets (run cfg (evs @ evs') TicketSender) cid = Some r \<longrightarrow>
      (\<exists>t'. getTicket (run cfg (evs @ evs') TicketSender) cid = Some (r, t') \<and>
            (hasEvmAddress t \<longrightarrow> hasEvmAddress t') \<and> (hasImage t \<longrightarrow> hasImage t')))"
proof -
  have k: "\<exists>t'. heap (run cfg (evs @ evs') TicketSender) r = Some t' \<and>
      (hasEvmAddress t \<longrightarrow> hasEvmAddress t') \<and> (hasImage t \<longrightarrow> hasImage t')"
    if h: "heap (run cfg evs TicketSender) r = Some t" for t
  proof -
    have "keepsEvidence (run cfg evs TicketSender) (run cfg (evs @ evs') TicketSender)"
      unfolding run_append by (rule keepsEvidence_run) (rule wellFormed_reached)
    with h show ?thesis by (simp add: keepsEvidence_def evidenceKept_def)
  qed
  have g: "\<exists>t'. getTicket (run cfg (evs @ evs') TicketSender) cid = Some (r, t') \<and>
      (hasEvmAddress t \<longrightarrow> hasEvmAddress t') \<and> (hasImage t \<longrightarrow> hasImage t')"
    if "getTicket (run cfg evs TicketSender) cid = Some (r, t)"
      and a: "activeTickets (run cfg (evs @ evs') TicketSender) cid = Some r"
  proof -
    from that(1) have "heap (run cfg evs TicketSender) r = Some t" by (simp add: getTicket_SomeD)
    then obtain t' where "heap (run cfg (evs @ evs') TicketSender) r = Some t'"
      "hasEvmAddress t \<longrightarrow> hasEvmAddress t'" "hasImage t \<longrightarrow> hasImage t'"
      using k by blast
    then show ?thesis using a by (simp add: getTicket_def)
  qed
  have m: "activeTickets (run cfg (evs @ evs') TicketSender) cid = Some r"
    if "getTicket (run cfg evs TicketSender) cid = Some (r, t)" and "onlyMessages evs'"
    using that by (simp add: run_append run_onlyMessages getTicket_SomeD)
  show ?thesis using k g m by blast
qed

text \<open>
  C7 for the ticket with an address: after a further message and a second channel-created
  event, and after two further messages.
\<close>

theorem evidence_flags_monotone_witness:
  "heap (run cfg0 addressGiven TicketSender) 0 = Some (openTicket\<lparr>hasEvmAddress := True\<rparr>) \<and>
   getTicket (run cfg0 addressGiven TicketSender) ''c1'' =
     Some (0, openTicket\<lparr>hasEvmAddress := True\<rparr>) \<and>
   hasEvmAddress (openTicket\<lparr>hasEvmAddress := True\<rparr>) \<and>
   onlyMessages [(6000, MessageCreate thanksMessage), (6500, MessageCreate botMessage)] \<and>
   (\<exists>t'. heap (run cfg0 (addressGiven @ [(6000, MessageCreate thanksMessage),
              (6500, ChannelCreate ticketChannel)]) TicketSender) 0 = Some t' \<and>
         hasEvmAddress t') \<and>
   (\<exists>t'. getTicket (run cfg0 (addressGiven @ [(6000, MessageCreate thanksMessage),
              (6500, MessageCreate botMessage)]) TicketSender) ''c1'' = Some (0, t') \<and>
         hasEvmAddress t')"
proof -
  let ?t = "openTicket\<lparr>hasEvmAddress := True\<rparr>"
  let ?a = "[(6000, MessageCreate thanksMessage), (6500, ChannelCreate ticketChannel)]"
  let ?b = "[(6000, MessageCreate thanksMessage), (6500, MessageCreate botMessage)]"
  have h: "heap (run cfg0 addressGiven TicketSender) 0 = Some ?t"
    by (simp add: addressGiven_state)
  have g: "getTicket (run cfg0 addressGiven TicketSender) ''c1'' = Some (0, ?t)"
    by (simp add: getTicket_def addressGiven_state)
  have o: "onlyMessages ?b" by (simp add: onlyMessages_def)
  have f: "hasEvmAddress ?t" by simp
  from evidence_flags_monotone [of cfg0 addressGiven 0 ?t ?a "''c1''"] h
  have a: "\<exists>t'. heap (run cfg0 (addressGiven @ ?a) TicketSender) 0 = Some t' \<and>
      (hasEvmAddress ?t \<longrightarrow> hasEvmAddress t') \<and> (hasImage ?t \<longrightarrow> hasImage t')"
    by blast
  from evidence_flags_monotone [of cfg0 addressGiven 0 ?t ?b "''c1''"] g o
  have b: "\<exists>t'. getTicket (run cfg0 (addressGiven @ ?b) TicketSender) ''c1'' = Some (0, t') \<and>
      (hasEvmAddress ?t \<longrightarrow> hasEvmAddress t') \<and> (hasImage ?t \<longrightarrow> hasImage t')"
    by blast
  show ?thesis using h g o a b f by blast
qed

subsection \<open>C8: the closure timer\<close>

text \<open>
  Claim C8, as the code has it. The delivery of a follow-up send completes the ticket and,
  when the close time (the time of the delivery plus the close delay) is in the range of
  a \<^verbatim>\<open>Date\<close>, schedules exactly one closure timer: it is due at the close time when the
  delay is between 1 ms and 2147483647 ms, and 1 ms after the delivery otherwise. When
  the close time is outside that range an error is counted and no timer is scheduled. A
  rejected follow-up schedules none. A pending closure timer stays pending over every
  sequence of events in which it does not fire: nothing cancels it. Its timeout does
  nothing before it is due. From then on it fires: it is removed and \<^verbatim>\<open>closeTicket\<close>
  starts, sending the closure command if the channel is cached and fetching the channel
  otherwise, whatever the registry holds; afterwards, however the execution continues,
  the same timeout does nothing.
\<close>

theorem closure_timer_fires_once_and_is_never_cancelled:
  "(map_of (tasks s) tid = Some (FormSend r cid) \<longrightarrow>
      map_option completedAt (heap (step cfg (now, SendSettled tid (Resolved formId)) s) r) =
        map_option (\<lambda>t. Some now) (heap s r) \<and>
      tasks (step cfg (now, SendSettled tid (Resolved formId)) s) =
        filter (\<lambda>p. fst p \<noteq> tid) (tasks s) @
        (if validDate (now + closeTimeoutMs cfg)
         then [(nextTask s, ClosureTimer cid
                  (if 1 \<le> closeTimeoutMs cfg \<and> closeTimeoutMs cfg \<le> 2147483647
                   then now + closeTimeoutMs cfg else now + 1))]
         else []) \<and>
      errors (stats (step cfg (now, SendSettled tid (Resolved formId)) s)) =
        errors (stats s) + (if validDate (now + closeTimeoutMs cfg) then 0 else 1) \<and>
      tasks (step cfg (now, SendSettled tid Rejected) s) = filter (\<lambda>p. fst p \<noteq> tid) (tasks s))
   \<and> (wellFormed s2 \<and> (tid2, ClosureTimer cid2 due) \<in> set (tasks s2) \<longrightarrow>
      (neverFires tid2 evs \<longrightarrow>
         (tid2, ClosureTimer cid2 due) \<in> set (tasks (run cfg evs s2))) \<and>
      (now1 < due \<longrightarrow> step cfg (now1, ClosureTimeout tid2 cached1) s2 = s2) \<and>
      (due \<le> now2 \<longrightarrow>
         sends (step cfg (now2, ClosureTimeout tid2 cached) s2) =
           sends s2 @ (if cached then [(cid2, CLOSE_COMMAND)] else []) \<and>
         tasks (step cfg (now2, ClosureTimeout tid2 cached) s2) =
           filter (\<lambda>p. fst p \<noteq> tid2) (tasks s2) @
           [(nextTask s2, if cached then CloseSend cid2 else ChannelFetch cid2)] \<and>
         step cfg (now3, ClosureTimeout tid2 cached')
             (run cfg evs' (step cfg (now2, ClosureTimeout tid2 cached) s2)) =
           run cfg evs' (step cfg (now2, ClosureTimeout tid2 cached) s2)))"
proof (intro conjI impI)
  assume p: "map_of (tasks s) tid = Some (FormSend r cid)"
  note st = step_SendSettled_FormSend [OF p, of cfg now]
  show "map_option completedAt (heap (step cfg (now, SendSettled tid (Resolved formId)) s) r) =
        map_option (\<lambda>t. Some now) (heap s r)"
    unfolding st by (simp add: handleUserMessage_sent_resolved option.map_comp comp_def)
  show "tasks (step cfg (now, SendSettled tid (Resolved formId)) s) =
        filter (\<lambda>p. fst p \<noteq> tid) (tasks s) @
        (if validDate (now + closeTimeoutMs cfg)
         then [(nextTask s, ClosureTimer cid
                  (if 1 \<le> closeTimeoutMs cfg \<and> closeTimeoutMs cfg \<le> 2147483647
                   then now + closeTimeoutMs cfg else now + 1))]
         else [])"
    unfolding st by (simp add: handleUserMessage_sent_tasks timeoutDelay_def)
  show "errors (stats (step cfg (now, SendSettled tid (Resolved formId)) s)) =
        errors (stats s) + (if validDate (now + closeTimeoutMs cfg) then 0 else 1)"
    unfolding st
    by (cases "validDate (now + closeTimeoutMs cfg)")
      (simp_all add: handleUserMessage_sent_scheduled handleUserMessage_sent_raised)
  show "tasks (step cfg (now, SendSettled tid Rejected) s) =
        filter (\<lambda>p. fst p \<noteq> tid) (tasks s)"
    unfolding st by (simp add: handleUserMessage_sent_rejected)
next
  assume a: "wellFormed s2 \<and> (tid2, ClosureTimer cid2 due) \<in> set (tasks s2)"
  then have w: "wellFormed s2" and p: "(tid2, ClosureTimer cid2 due) \<in> set (tasks s2)"
    by simp_all
  note m = map_of_pending [OF w p]
  show "(tid2, ClosureTimer cid2 due) \<in> set (tasks (run cfg evs s2))"
    if "neverFires tid2 evs"
    using w p that by (rule run_keeps_timer)
  show "step cfg (now1, ClosureTimeout tid2 cached1) s2 = s2" if "now1 < due"
    using that by (intro step_ClosureTimeout_early [OF m]) simp
  assume d: "due \<le> now2"
  note st = step_ClosureTimeout [OF m d, of cfg]
  show "sends (step cfg (now2, ClosureTimeout tid2 cached) s2) =
        sends s2 @ (if cached then [(cid2, CLOSE_COMMAND)] else [])"
    unfolding st by (simp add: closureTimer_fired_fields)
  show "tasks (step cfg (now2, ClosureTimeout tid2 cached) s2) =
        filter (\<lambda>p. fst p \<noteq> tid2) (tasks s2) @
        [(nextTask s2, if cached then CloseSend cid2 else ChannelFetch cid2)]"
    unfolding st by (simp add: closureTimer_fired_fields)
  have lt: "tid2 < nextTask s2" using w p by (auto simp add: wellFormed_def)
  let ?s' = "closureTimer_fired cfg tid2 cid2 cached s2"
  have "wellFormed ?s'" using w by (rule wellFormed_fired)
  moreover have "tid2 < nextTask ?s'" using lt by (simp add: closureTimer_fired_fields)
  moreover have "tid2 \<notin> fst ` set (tasks ?s')"
    using lt by (auto simp add: closureTimer_fired_fields)
  ultimately show "step cfg (now3, ClosureTimeout tid2 cached')
          (run cfg evs' (step cfg (now2, ClosureTimeout tid2 cached) s2)) =
        run cfg evs' (step cfg (now2, ClosureTimeout tid2 cached) s2)"
    unfolding st by (rule spent_timer)
qed

text \<open>
  C8 at the delivery of the follow-up in \<open>evidenceSent\<close> and at the timer of \<open>completed\<close>,
  which is due at 3605200: its timeout does nothing at 6000 and fires at 3605200.
\<close>

theorem closure_timer_fires_once_and_is_never_cancelled_witness:
  "map_of (tasks (run cfg0 evidenceSent TicketSender)) 2 = Some (FormSend 0 ''c1'') \<and>
   tasks (step cfg0 (5200, SendSettled 2 (Resolved ''f1'')) (run cfg0 evidenceSent TicketSender)) =
     [(3, ClosureTimer ''c1'' 3605200)] \<and>
   errors (stats (step cfg0 (5200, SendSettled 2 (Resolved ''f1''))
     (run cfg0 evidenceSent TicketSender))) = 0 \<and>
   wellFormed (run cfg0 completed TicketSender) \<and>
   (3, ClosureTimer ''c1'' 3605200) \<in> set (tasks (run cfg0 completed TicketSender)) \<and>
   neverFires 3 [(6000, MessageCreate thanksMessage), (6500, ChannelCreate ticketChannel)] \<and>
   (3, ClosureTimer ''c1'' 3605200) \<in> set (tasks (run cfg0
      [(6000, MessageCreate thanksMessage), (6500, ChannelCreate ticketChannel)]
      (run cfg0 completed TicketSender))) \<and>
   step cfg0 (6000, ClosureTimeout 3 True) (run cfg0 completed TicketSender) =
     run cfg0 completed TicketSender \<and>
   sends (step cfg0 (3605200, ClosureTimeout 3 True) (run cfg0 completed TicketSender)) =
     [(''c1'', INITIAL_MESSAGE ''<@U>''), (''c1'', FORM_MESSAGE), (''c1'', CLOSE_COMMAND)] \<and>
   step cfg0 (3605900, ClosureTimeout 3 True)
     (run cfg0 [(3605300, SendSettled 4 (Resolved ''x1''))]
        (step cfg0 (3605200, ClosureTimeout 3 True) (run cfg0 completed TicketSender))) =
     run cfg0 [(3605300, SendSettled 4 (Resolved ''x1''))]
        (step cfg0 (3605200, ClosureTimeout 3 True) (run cfg0 completed TicketSender))"
proof -
  let ?P = "run cfg0 evidenceSent TicketSender"
  let ?C = "run cfg0 completed TicketSender"
  let ?evs = "[(6000, MessageCreate thanksMessage), (6500, ChannelCreate ticketChannel)]"
  have h1: "map_of (tasks ?P) 2 = Some (FormSend 0 ''c1'')" by (simp add: evidenceSent_state)
  have h2: "wellFormed ?C \<and> (3, ClosureTimer ''c1'' 3605200) \<in> set (tasks ?C)"
    by (simp add: wellFormed_reached completed_state)
  have h3: "neverFires 3 ?evs" by (simp add: neverFires_def)
  have h4: "(6000::int) < 3605200" and h5: "(3605200::int) \<le> 3605200" by simp_all
  note t = closure_timer_fires_once_and_is_never_cancelled
    [where s = ?P and tid = 2 and r = 0 and cid = "''c1''" and cfg = cfg0 and now = 5200
      and formId = "''f1''" and ?s2.0 = ?C and ?tid2.0 = 3 and ?cid2.0 = "''c1''"
      and due = 3605200 and evs = ?evs and ?now1.0 = 6000 and ?cached1.0 = True
      and ?now2.0 = 3605200 and cached = True and ?now3.0 = 3605900 and cached' = True
      and evs' = "[(3605300, SendSettled 4 (Resolved ''x1''))]"]
  have d: "closeTimeoutMs cfg0 = 3600000" by (simp add: cfg0_def)
  have v: "validDate (5200 + 3600000)" by (simp add: validDate_def)
  from t h1 have c1: "tasks (step cfg0 (5200, SendSettled 2 (Resolved ''f1'')) ?P) =
      filter (\<lambda>p. fst p \<noteq> 2) (tasks ?P) @
        (if validDate (5200 + closeTimeoutMs cfg0)
         then [(nextTask ?P, ClosureTimer ''c1''
                  (if 1 \<le> closeTimeoutMs cfg0 \<and> closeTimeoutMs cfg0 \<le> 2147483647
                   then 5200 + closeTimeoutMs cfg0 else 5200 + 1))]
         else [])"
    and c1e: "errors (stats (step cfg0 (5200, SendSettled 2 (Resolved ''f1'')) ?P)) =
      errors (stats ?P) + (if validDate (5200 + closeTimeoutMs cfg0) then 0 else 1)"
    by blast+
  from t h2 h3 have c2: "(3, ClosureTimer ''c1'' 3605200) \<in> set (tasks (run cfg0 ?evs ?C))"
    by blast
  from t h2 h4 have c5: "step cfg0 (6000, ClosureTimeout 3 True) ?C = ?C"
    by blast
  from t h2 h5 have c3: "sends (step cfg0 (3605200, ClosureTimeout 3 True) ?C) =
      sends ?C @ (if True then [(''c1'', CLOSE_COMMAND)] else [])"
    by blast
  from t h2 h5 have c4: "step cfg0 (3605900, ClosureTimeout 3 True)
     (run cfg0 [(3605300, SendSettled 4 (Resolved ''x1''))]
        (step cfg0 (3605200, ClosureTimeout 3 True) ?C)) =
     run cfg0 [(3605300, SendSettled 4 (Resolved ''x1''))]
        (step cfg0 (3605200, ClosureTimeout 3 True) ?C)"
    by blast
  have n: "nextTask ?P = 3" by (simp add: evidenceSent_state)
  have e: "errors (stats ?P) = 0"
    unfolding after_greeted run_append greeted_state by (simp add: eval_defs trace_defs)
  have c1': "tasks (step cfg0 (5200, SendSettled 2 (Resolved ''f1'')) ?P) =
     [(3, ClosureTimer ''c1'' 3605200)]"
    unfolding c1 n d using v by (simp add: evidenceSent_state)
  have c1e': "errors (stats (step cfg0 (5200, SendSettled 2 (Resolved ''f1'')) ?P)) = 0"
    unfolding c1e d e using v by simp
  have c3': "sends (step cfg0 (3605200, ClosureTimeout 3 True) ?C) =
     [(''c1'', INITIAL_MESSAGE ''<@U>''), (''c1'', FORM_MESSAGE), (''c1'', CLOSE_COMMAND)]"
    unfolding c3 by (simp add: completed_state)
  show ?thesis using h1 h2 h3 c1' c1e' c2 c5 c3' c4 by blast
qed

text \<open>
  Claim C8 as stated fails. In \<open>overlapping\<close> the one ticket has two closure timers: when
  the first has fired and the ticket has been removed from the registry, the second is
  still pending; it fires too, and the closure command is sent twice. With the close delay
  of \<open>cfgLongDelay\<close> the timer of the completed ticket is due one millisecond after the
  completion, not a delay after it, and the closure command is sent then. With that of
  \<open>cfgBeyondDate\<close> the ticket is completed, an error is counted and there is no timer.
\<close>

theorem two_closure_timers_for_one_ticket:
  "nextRef (run cfg0 overlapping TicketSender) = 1
   \<and> tasks (run cfg0 overlapping TicketSender) =
       [(4, ClosureTimer ''c1'' 3605200), (5, ClosureTimer ''c1'' 3605300)]
   \<and> activeTickets (run cfg0 overlappingFirstClosed TicketSender) ''c1'' = None
   \<and> tasks (run cfg0 overlappingFirstClosed TicketSender) = [(5, ClosureTimer ''c1'' 3605300)]
   \<and> sends (run cfg0 overlappingClosed TicketSender) =
       [(''c1'', INITIAL_MESSAGE ''<@U>''), (''c1'', FORM_MESSAGE), (''c1'', FORM_MESSAGE),
        (''c1'', CLOSE_COMMAND), (''c1'', CLOSE_COMMAND)]
   \<and> ticketsClosed (stats (run cfg0 overlappingClosed TicketSender)) = 2
   \<and> tasks (run cfgLongDelay completed TicketSender) = [(3, ClosureTimer ''c1'' 5201)]
   \<and> sends (run cfgLongDelay closedEarly TicketSender) =
       [(''c1'', INITIAL_MESSAGE ''<@U>''), (''c1'', FORM_MESSAGE), (''c1'', CLOSE_COMMAND)]
   \<and> map_option completedAt (heap (run cfgBeyondDate completed TicketSender) 0) =
       Some (Some 5200)
   \<and> ticketsCompleted (stats (run cfgBeyondDate completed TicketSender)) = 1
   \<and> errors (stats (run cfgBeyondDate completed TicketSender)) = 1
   \<and> tasks (run cfgBeyondDate completed TicketSender) = []"
proof -
  have "nextRef (run cfg0 overlapping TicketSender) = 1
   \<and> tasks (run cfg0 overlapping TicketSender) =
       [(4, ClosureTimer ''c1'' 3605200), (5, ClosureTimer ''c1'' 3605300)]"
    unfolding after_greeted run_append greeted_state
    by (simp add: eval_defs trace_defs)
  moreover have "activeTickets (run cfg0 overlappingFirstClosed TicketSender) ''c1'' = None
   \<and> tasks (run cfg0 overlappingFirstClosed TicketSender) = [(5, ClosureTimer ''c1'' 3605300)]"
    unfolding after_greeted run_append greeted_state
    by (simp add: eval_defs trace_defs)
  moreover have "sends (run cfg0 overlappingClosed TicketSender) =
       [(''c1'', INITIAL_MESSAGE ''<@U>''), (''c1'', FORM_MESSAGE), (''c1'', FORM_MESSAGE),
        (''c1'', CLOSE_COMMAND), (''c1'', CLOSE_COMMAND)]
   \<and> ticketsClosed (stats (run cfg0 overlappingClosed TicketSender)) = 2"
    unfolding after_greeted run_append greeted_state
    by (simp add: eval_defs trace_defs)
  moreover have "tasks (run cfgLongDelay completed TicketSender) = [(3, ClosureTimer ''c1'' 5201)]
   \<and> sends (run cfgLongDelay closedEarly TicketSender) =
       [(''c1'', INITIAL_MESSAGE ''<@U>''), (''c1'', FORM_MESSAGE), (''c1'', CLOSE_COMMAND)]"
    unfolding after_greeted run_append greeted_other_delay greeted_state
    by (simp add: eval_defs trace_defs cfgLongDelay_def)
  moreover have "map_option completedAt (heap (run cfgBeyondDate completed TicketSender) 0) =
       Some (Some 5200)
   \<and> ticketsCompleted (stats (run cfgBeyondDate completed TicketSender)) = 1
   \<and> errors (stats (run cfgBeyondDate completed TicketSender)) = 1
   \<and> tasks (run cfgBeyondDate completed TicketSender) = []"
    unfolding after_greeted run_append greeted_other_delay greeted_state
    by (simp add: eval_defs trace_defs cfgBeyondDate_def)
  ultimately show ?thesis by simp
qed

subsection \<open>C9: the user tag\<close>

text \<open>
  Claim C9. The tag \<^verbatim>\<open>extractUserTag\<close> returns is \<^verbatim>\<open><@id>\<close> for the first mentioned
  user if there is one and for the author otherwise, so it is never empty. Whatever the
  first message, \<^verbatim>\<open>handleChannelCreation\<close> does not log that it could not extract the
  tag; for a first message with content it goes on to send the greeting.
\<close>

theorem user_tag_never_empty:
  "fst (extractUserTag cfg m s) =
     ''<@'' @ (case mentions_users m of [] \<Rightarrow> author_id (message_author m) | user # _ \<Rightarrow> user) @ ''>''
   \<and> fst (extractUserTag cfg m s) \<noteq> []
   \<and> count_list (logs (handleChannelCreation_firstMessage cfg ch firstMessage s))
        (INFO, Could_not_extract_user_tag) = count_list (logs s) (INFO, Could_not_extract_user_tag)
   \<and> (content m \<noteq> None \<longrightarrow>
        sends (handleChannelCreation_firstMessage cfg ch (Some m) s) =
          sends s @ [(channel_id ch, INITIAL_MESSAGE (fst (extractUserTag cfg m s)))])"
proof (intro conjI impI)
  show "fst (extractUserTag cfg m s) =
     ''<@'' @ (case mentions_users m of [] \<Rightarrow> author_id (message_author m) | user # _ \<Rightarrow> user) @ ''>''"
    by (rule extractUserTag_fst)
  then show "fst (extractUserTag cfg m s) \<noteq> []" by simp
  show "count_list (logs (handleChannelCreation_firstMessage cfg ch firstMessage s))
        (INFO, Could_not_extract_user_tag) = count_list (logs s) (INFO, Could_not_extract_user_tag)"
    by (rule firstMessage_no_abort)
  assume "content m \<noteq> None"
  then obtain body where "content m = Some body" by auto
  then show "sends (handleChannelCreation_firstMessage cfg ch (Some m) s) =
          sends s @ [(channel_id ch, INITIAL_MESSAGE (fst (extractUserTag cfg m s)))]"
    by (simp add: firstMessage_greets extractUserTag_fst)
qed

text \<open>C9 for a message with a mention and for one without, and for the greeting that follows.\<close>

theorem user_tag_never_empty_witness:
  "fst (extractUserTag cfg0 botMessage TicketSender) = ''<@U>'' \<and>
   fst (extractUserTag cfg0 thanksMessage TicketSender) = ''<@U>'' \<and>
   content botMessage \<noteq> None \<and>
   sends (handleChannelCreation_firstMessage cfg0 ticketChannel (Some botMessage) TicketSender) =
     [(''c1'', INITIAL_MESSAGE ''<@U>'')]"
proof -
  have h: "content botMessage \<noteq> None" by (simp add: botMessage_def)
  note t = user_tag_never_empty [of cfg0 botMessage TicketSender ticketChannel "Some botMessage"]
  from t have a: "fst (extractUserTag cfg0 botMessage TicketSender) =
     ''<@'' @ (case mentions_users botMessage of [] \<Rightarrow> author_id (message_author botMessage)
               | user # _ \<Rightarrow> user) @ ''>''"
    by blast
  from t h have b:
    "sends (handleChannelCreation_firstMessage cfg0 ticketChannel (Some botMessage) TicketSender) =
       sends TicketSender @
         [(channel_id ticketChannel, INITIAL_MESSAGE (fst (extractUserTag cfg0 botMessage TicketSender)))]"
    by blast
  have c: "fst (extractUserTag cfg0 thanksMessage TicketSender) = ''<@U>''"
    by (simp add: extractUserTag_fst trace_defs userMessage_def userU_def)
  have a': "fst (extractUserTag cfg0 botMessage TicketSender) = ''<@U>''"
    unfolding a by (simp add: botMessage_def)
  show ?thesis
    unfolding b a' using h c by (simp add: TicketSender_def ticketChannel_def)
qed

subsection \<open>C10: messages after completion\<close>

text \<open>
  Claim C10, as the code has it. When the ticket of a channel has \<open>awaitingResponse\<close>
  false, \<^verbatim>\<open>handleUserMessage\<close> for a message of that channel changes nothing but the log:
  no ticket, no send, no suspended handler, no counter. The whole message-created event
  leaves every ticket and the registry as they are, and when no wait for a first message
  is pending in the channel it likewise changes nothing but the log. When such a wait is
  pending, left by another channel-created event for the channel, and the message has
  content, the event sends a greeting.
\<close>

theorem completed_ticket_ignores_messages:
  "(getTicket s (message_channel_id m) = Some (r, t) \<and> \<not> awaitingResponse t \<longrightarrow>
     sameButLogs (handleUserMessage cfg m s) s \<and>
     heap (step cfg (now, MessageCreate m) s) = heap s \<and>
     activeTickets (step cfg (now, MessageCreate m) s) = activeTickets s \<and>
     (filter (listening (message_channel_id m)) (tasks s) = [] \<longrightarrow>
        sameButLogs (step cfg (now, MessageCreate m) s) s))
   \<and> (getTicket s2 (message_channel_id m2) = Some (r2, t2) \<and> \<not> awaitingResponse t2 \<and>
      (tid, FirstMessageWait ch) \<in> set (tasks s2) \<and> channel_id ch = message_channel_id m2 \<and>
      content m2 = Some body \<longrightarrow>
        count_list (sends s2) (channel_id ch, INITIAL_MESSAGE (fst (extractUserTag cfg m2 s2)))
          < count_list (sends (step cfg (now2, MessageCreate m2) s2))
              (channel_id ch, INITIAL_MESSAGE (fst (extractUserTag cfg m2 s2))))"
proof (intro conjI impI)
  assume a: "getTicket s (message_channel_id m) = Some (r, t) \<and> \<not> awaitingResponse t"
  show k: "sameButLogs (handleUserMessage cfg m s) s"
  proof (cases "bot (message_author m)")
    case True
    then show ?thesis by (rule handleUserMessage_bot)
  next
    case False
    show ?thesis using a by (intro handleUserMessage_not_awaiting [of s m r t]) simp_all
  qed
  then show "heap (step cfg (now, MessageCreate m) s) = heap s"
    and "activeTickets (step cfg (now, MessageCreate m) s) = activeTickets s"
    by (simp_all add: emit_fields sameButLogs_def)
  show "sameButLogs (step cfg (now, MessageCreate m) s) s"
    if "filter (listening (message_channel_id m)) (tasks s) = []"
    using k that by (simp add: emit_without_listeners)
next
  assume a: "getTicket s2 (message_channel_id m2) = Some (r2, t2) \<and> \<not> awaitingResponse t2 \<and>
      (tid, FirstMessageWait ch) \<in> set (tasks s2) \<and> channel_id ch = message_channel_id m2 \<and>
      content m2 = Some body"
  then have p: "(tid, FirstMessageWait ch) \<in> set (tasks s2)"
    and c: "channel_id ch = message_channel_id m2" and b: "content m2 = Some body"
    by simp_all
  show "count_list (sends s2) (channel_id ch, INITIAL_MESSAGE (fst (extractUserTag cfg m2 s2)))
          < count_list (sends (step cfg (now2, MessageCreate m2) s2))
              (channel_id ch, INITIAL_MESSAGE (fst (extractUserTag cfg m2 s2)))"
    using emit_greets [OF p c b, of cfg] by simp
qed

text \<open>
  C10 for a message with evidence in the channel of the completed ticket, and for a
  message in that channel after it has been announced once more.
\<close>

theorem completed_ticket_ignores_messages_witness:
  "getTicket (run cfg0 completed TicketSender) ''c1'' =
     Some (0, openTicket\<lparr>hasEvmAddress := True, hasImage := True, awaitingResponse := False,
                        completedAt := Some 5200, formMessageId := Some ''f1''\<rparr>) \<and>
   filter (listening ''c1'') (tasks (run cfg0 completed TicketSender)) = [] \<and>
   sameButLogs (handleUserMessage cfg0 evidenceMessage (run cfg0 completed TicketSender))
     (run cfg0 completed TicketSender) \<and>
   sameButLogs (step cfg0 (6000, MessageCreate evidenceMessage) (run cfg0 completed TicketSender))
     (run cfg0 completed TicketSender) \<and>
   getTicket (run cfg0 completedCreate TicketSender) ''c1'' =
     Some (0, openTicket\<lparr>hasEvmAddress := True, hasImage := True, awaitingResponse := False,
                        completedAt := Some 5200, formMessageId := Some ''f1''\<rparr>) \<and>
   (4, FirstMessageWait ticketChannel) \<in> set (tasks (run cfg0 completedCreate TicketSender)) \<and>
   count_list (sends (run cfg0 completedCreate TicketSender)) (''c1'', INITIAL_MESSAGE ''<@U>'')
     < count_list (sends (step cfg0 (7000, MessageCreate thanksMessage)
         (run cfg0 completedCreate TicketSender))) (''c1'', INITIAL_MESSAGE ''<@U>'')"
proof -
  let ?C = "run cfg0 completed TicketSender"
  let ?D = "run cfg0 completedCreate TicketSender"
  let ?t = "openTicket\<lparr>hasEvmAddress := True, hasImage := True, awaitingResponse := False,
                        completedAt := Some 5200, formMessageId := Some ''f1''\<rparr>"
  have h1: "getTicket ?C (message_channel_id evidenceMessage) = Some (0, ?t) \<and> \<not> awaitingResponse ?t"
    by (simp add: completed_state trace_defs userMessage_def)
  have h2: "filter (listening (message_channel_id evidenceMessage)) (tasks ?C) = []"
    by (simp add: completed_state)
  have h3: "getTicket ?D (message_channel_id thanksMessage) = Some (0, ?t) \<and>
      \<not> awaitingResponse ?t \<and>
      (4, FirstMessageWait ticketChannel) \<in> set (tasks ?D) \<and>
      channel_id ticketChannel = message_channel_id thanksMessage \<and>
      content thanksMessage = Some ''thanks''"
    by (simp add: completedCreate_state trace_defs userMessage_def ticketChannel_def)
  note t = completed_ticket_ignores_messages
    [where s = ?C and m = evidenceMessage and r = 0 and t = ?t and cfg = cfg0 and now = 6000
      and ?s2.0 = ?D and ?m2.0 = thanksMessage and ?r2.0 = 0 and ?t2.0 = ?t and tid = 4
      and ch = ticketChannel and body = "''thanks''" and ?now2.0 = 7000]
  from t h1 have c1: "sameButLogs (handleUserMessage cfg0 evidenceMessage ?C) ?C" by blast
  from t h1 h2 have c2: "sameButLogs (step cfg0 (6000, MessageCreate evidenceMessage) ?C) ?C"
    by blast
  from t h3 have c3:
    "count_list (sends ?D)
        (channel_id ticketChannel, INITIAL_MESSAGE (fst (extractUserTag cfg0 thanksMessage ?D)))
      < count_list (sends (step cfg0 (7000, MessageCreate thanksMessage) ?D))
          (channel_id ticketChannel, INITIAL_MESSAGE (fst (extractUserTag cfg0 thanksMessage ?D)))"
    by blast
  have m: "message_channel_id evidenceMessage = ''c1''" "message_channel_id thanksMessage = ''c1''"
    by (simp_all add: trace_defs userMessage_def)
  have g: "channel_id ticketChannel = ''c1''"
    "fst (extractUserTag cfg0 thanksMessage ?D) = ''<@U>''"
    by (simp_all add: ticketChannel_def extractUserTag_def trace_defs userMessage_def userU_def
        debug_def cfg0_def Let_def)
  show ?thesis using h1 h2 h3 c1 c2 c3 unfolding m g by blast
qed

text \<open>
  Claim C10 as stated fails: in \<open>completedCreate\<close> the ticket of the channel is completed
  and its closure timer is pending; the next message in the channel is sent a greeting,
  and when this has been delivered the registry holds a new ticket for the channel,
  awaiting a response, with the closure timer of the first still pending.
\<close>

theorem message_after_completion_is_greeted:
  "getTicket (run cfg0 completedCreate TicketSender) ''c1'' =
     Some (0, openTicket\<lparr>hasEvmAddress := True, hasImage := True, awaitingResponse := False,
                        completedAt := Some 5200, formMessageId := Some ''f1''\<rparr>)
   \<and> sends (run cfg0 completedCreate TicketSender) =
       [(''c1'', INITIAL_MESSAGE ''<@U>''), (''c1'', FORM_MESSAGE)]
   \<and> sends (run cfg0 completedGreeting TicketSender) =
       [(''c1'', INITIAL_MESSAGE ''<@U>''), (''c1'', FORM_MESSAGE),
        (''c1'', INITIAL_MESSAGE ''<@U>'')]
   \<and> getTicket (run cfg0 completedReplaced TicketSender) ''c1'' =
       Some (1, openTicket\<lparr>createdAt := 7200, initialMessageId := ''g2''\<rparr>)
   \<and> tasks (run cfg0 completedReplaced TicketSender) = [(3, ClosureTimer ''c1'' 3605200)]"
proof -
  have "sends (run cfg0 completedGreeting TicketSender) =
       [(''c1'', INITIAL_MESSAGE ''<@U>''), (''c1'', FORM_MESSAGE),
        (''c1'', INITIAL_MESSAGE ''<@U>'')]"
    unfolding after_greeted run_append greeted_state
    by (simp add: eval_defs trace_defs)
  moreover have "getTicket (run cfg0 completedReplaced TicketSender) ''c1'' =
       Some (1, openTicket\<lparr>createdAt := 7200, initialMessageId := ''g2''\<rparr>)
   \<and> tasks (run cfg0 completedReplaced TicketSender) = [(3, ClosureTimer ''c1'' 3605200)]"
    unfolding after_greeted run_append greeted_state
    by (simp add: eval_defs trace_defs)
  ultimately show ?thesis by (simp add: completedCreate_state)
qed

end
